(* ===== verification/Prelude.thy ===== *)
theory Prelude
  imports Main "HOL-Library.Word" "HOL-Library.Multiset" "HOL-Library.Char_ord" "HOL-Library.List_Lexorder"
begin

text \<open>
  Shared base of the development: C++ exceptions as values of a sum type, the
  \<open>std::map\<close> of the sources as a sorted association list, decimal and hexadecimal
  printing of integers (\<open>std::to_string\<close>), and the generic list lemmas the
  component theories use.
\<close>

named_theorems exec_simps \<open>unfolding rules of the exception monad\<close>
named_theorems omap_simps \<open>lookup and invariant laws of ordered maps\<close>

section \<open>Exceptions\<close>

text \<open>
  \<open>Runtime_error\<close> is a \<open>std::runtime_error\<close> with its message, \<open>Json_error n\<close> an exception of
  the JSON library with its documented id (302: wrong kind for the requested type, 306: \<open>value()\<close>
  on something that is not an object, 316: a string that is not UTF-8 cannot be printed).
  \<open>Undefined_behaviour\<close> marks a point where the C++ standard gives the code no meaning.
  An exception leaves no state behind: no handler of the modelled code catches one, except
  \<open>load_config\<close>.
\<close>

datatype exn = Runtime_error string | Json_error nat | Undefined_behaviour string

type_synonym 'a exec = "exn + 'a"

fun bindE :: "'a exec \<Rightarrow> ('a \<Rightarrow> 'b exec) \<Rightarrow> 'b exec" where
  "bindE (Inl e) f = Inl e"
| "bindE (Inr x) f = f x"

abbreviation throwE :: "exn \<Rightarrow> 'a exec" where
  "throwE e \<equiv> Inl e"

abbreviation returnE :: "'a \<Rightarrow> 'a exec" where
  "returnE x \<equiv> Inr x"

lemma bindE_Inr [exec_simps]: "bindE m f = Inr y \<longleftrightarrow> (\<exists>x. m = Inr x \<and> f x = Inr y)"
  by (cases m) auto

lemma bindE_Inl [exec_simps]: "bindE m f = Inl e \<longleftrightarrow> m = Inl e \<or> (\<exists>x. m = Inr x \<and> f x = Inl e)"
  by (cases m) auto

lemma bindE_assoc: "bindE (bindE m f) g = bindE m (\<lambda>x. bindE (f x) g)"
  by (cases m) auto

lemma bindE_cong [fundef_cong]:
  "m = m' \<Longrightarrow> (\<And>x. m' = Inr x \<Longrightarrow> f x = f' x) \<Longrightarrow> bindE m f = bindE m' f'"
  by (cases m') auto

fun mapE :: "('a \<Rightarrow> 'b exec) \<Rightarrow> 'a list \<Rightarrow> 'b list exec" where
  "mapE f [] = Inr []"
| "mapE f (x # xs) = bindE (f x) (\<lambda>y. bindE (mapE f xs) (\<lambda>ys. Inr (y # ys)))"

lemma mapE_cong [fundef_cong]:
  "xs = ys \<Longrightarrow> (\<And>x. x \<in> set ys \<Longrightarrow> f x = g x) \<Longrightarrow> mapE f xs = mapE g ys"
  by (induction ys arbitrary: xs) auto

lemma mapE_Inr_iff: "mapE f xs = Inr ys \<longleftrightarrow> list_all2 (\<lambda>x y. f x = Inr y) xs ys"
proof (induction xs arbitrary: ys)
  case Nil
  then show ?case by auto
next
  case (Cons x xs)
  then show ?case by (auto simp: exec_simps list_all2_Cons1)
qed

lemma mapE_total: "(\<And>x. x \<in> set xs \<Longrightarrow> f x = Inr (g x)) \<Longrightarrow> mapE f xs = Inr (map g xs)"
  by (induction xs) auto

section \<open>Ordered maps\<close>

text \<open>
  The interface the sources use of \<open>std::map\<close> and of JSON objects: \<open>insert_or_assign\<close> /
  \<open>operator[]\<close>, \<open>erase\<close>, \<open>find\<close>, and iteration in ascending key order.
\<close>

locale ordered_map =
  fixes mempty :: "'m"
    and mput :: "'k::linorder \<Rightarrow> 'v \<Rightarrow> 'm \<Rightarrow> 'm"
    and merase :: "'k \<Rightarrow> 'm \<Rightarrow> 'm"
    and mfind :: "'m \<Rightarrow> 'k \<Rightarrow> 'v option"
    and mitems :: "'m \<Rightarrow> ('k \<times> 'v) list"
    and mok :: "'m \<Rightarrow> bool"
  assumes mok_mempty: "mok mempty"
    and mok_mput: "mok m \<Longrightarrow> mok (mput k v m)"
    and mok_merase: "mok m \<Longrightarrow> mok (merase k m)"
    and mfind_mempty: "mfind mempty k = None"
    and mfind_mput: "mok m \<Longrightarrow> mfind (mput k v m) l = (if l = k then Some v else mfind m l)"
    and mfind_merase: "mok m \<Longrightarrow> mfind (merase k m) l = (if l = k then None else mfind m l)"
    and mitems_sorted: "mok m \<Longrightarrow> sorted_wrt (<) (map fst (mitems m))"
    and mitems_mfind: "mok m \<Longrightarrow> (k, v) \<in> set (mitems m) \<longleftrightarrow> mfind m k = Some v"
begin

lemma mput_commute:
  assumes "mok m" and "j \<noteq> k"
  shows "mfind (mput j v (mput k w m)) = mfind (mput k w (mput j v m))"
proof
  fix l
  show "mfind (mput j v (mput k w m)) l = mfind (mput k w (mput j v m)) l"
    using assms by (simp add: mfind_mput mok_mput)
qed

lemma mfind_fold_mput:
  "mok m \<Longrightarrow> mok (fold (\<lambda>(k, v). mput k v) kvs m) \<and>
    mfind (fold (\<lambda>(k, v). mput k v) kvs m) l =
      (case map_of (rev kvs) l of None \<Rightarrow> mfind m l | Some v \<Rightarrow> Some v)"
proof (induction kvs arbitrary: m)
  case Nil
  then show ?case by simp
next
  case (Cons kv kvs)
  obtain k v where kv: "kv = (k, v)" by (cases kv)
  have "mok (mput k v m)" using Cons.prems by (rule mok_mput)
  from Cons.IH [OF this] show ?case
    using Cons.prems by (auto simp: kv map_add_def mfind_mput split: option.splits)
qed

end

text \<open>Its implementation in the model: association lists with strictly ascending keys.\<close>

type_synonym ('k, 'v) omap = "('k \<times> 'v) list"

fun omap_put :: "'k::linorder \<Rightarrow> 'v \<Rightarrow> ('k, 'v) omap \<Rightarrow> ('k, 'v) omap" where
  "omap_put k v [] = [(k, v)]"
| "omap_put k v ((l, w) # m) =
     (if k = l then (k, v) # m else if k < l then (k, v) # (l, w) # m else (l, w) # omap_put k v m)"

definition omap_erase :: "'k \<Rightarrow> ('k, 'v) omap \<Rightarrow> ('k, 'v) omap" where
  "omap_erase k m = filter (\<lambda>p. fst p \<noteq> k) m"

definition omap_ok :: "('k::linorder, 'v) omap \<Rightarrow> bool" where
  "omap_ok m \<longleftrightarrow> sorted_wrt (<) (map fst m)"

lemma omap_ok_Nil [simp]: "omap_ok []"
  by (simp add: omap_ok_def)

lemma omap_ok_Cons [simp]: "omap_ok ((k, v) # m) \<longleftrightarrow> (\<forall>l \<in> fst ` set m. k < l) \<and> omap_ok m"
  by (auto simp: omap_ok_def)

lemma set_omap_put_keys: "fst ` set (omap_put k v m) = insert k (fst ` set m)"
  by (induction k v m rule: omap_put.induct) auto

lemma omap_ok_put [omap_simps]: "omap_ok m \<Longrightarrow> omap_ok (omap_put k v m)"
  by (induction k v m rule: omap_put.induct) (auto simp: set_omap_put_keys)

lemma omap_ok_erase [omap_simps]: "omap_ok m \<Longrightarrow> omap_ok (omap_erase k m)"
  by (induction m) (auto simp: omap_erase_def)

lemma map_of_omap_put [omap_simps]:
  "map_of (omap_put k v m) l = (if l = k then Some v else map_of m l)"
  by (induction k v m rule: omap_put.induct) auto

lemma map_of_omap_erase [omap_simps]:
  "map_of (omap_erase k m) l = (if l = k then None else map_of m l)"
  by (induction m) (auto simp: omap_erase_def)

lemma omap_ok_distinct: "omap_ok m \<Longrightarrow> distinct (map fst m)"
  unfolding omap_ok_def by (metis strict_sorted_iff)

lemma omap_put_same: "omap_ok m \<Longrightarrow> map_of m k = Some v \<Longrightarrow> omap_put k v m = m"
  by (induction k v m rule: omap_put.induct) (auto dest!: map_of_SomeD split: if_splits)

lemma omap_erase_absent: "map_of m k = None \<Longrightarrow> omap_erase k m = m"
  by (induction m) (auto simp: omap_erase_def split: if_splits)

lemma omap_erase_put: "omap_ok m \<Longrightarrow> map_of m k = None \<Longrightarrow> omap_erase k (omap_put k v m) = m"
  by (induction k v m rule: omap_put.induct)
    (auto simp: omap_erase_def filter_id_conv map_of_eq_None_iff rev_image_eqI split: if_splits)

lemma map_of_eqI_list:
  assumes "map fst m = map fst n" and "distinct (map fst m)" and "map_of m = map_of n"
  shows "m = n"
  using assms
proof (induction m arbitrary: n)
  case Nil
  then show ?case by simp
next
  case (Cons kv m)
  obtain k v where kv: "kv = (k, v)" by (cases kv)
  from Cons.prems(1) obtain w n' where n: "n = (k, w) # n'" and keys: "map fst m = map fst n'"
    by (cases n) (auto simp: kv)
  have "v = w" using fun_cong [OF Cons.prems(3), of k] by (simp add: kv n)
  moreover have "map_of m = map_of n'"
  proof
    fix l
    have "k \<notin> set (map fst m)" "k \<notin> set (map fst n')"
      using Cons.prems(2) keys by (simp_all add: kv del: set_map)
    then have "map_of m k = None" "map_of n' k = None" by (simp_all add: map_of_eq_None_iff)
    then show "map_of m l = map_of n' l"
      using fun_cong [OF Cons.prems(3), of l] by (cases "l = k") (simp_all add: kv n)
  qed
  ultimately show ?case using Cons.IH [OF keys] Cons.prems(2) by (simp add: kv n)
qed

lemma omap_ext:
  fixes m n :: "('k::linorder, 'v) omap"
  assumes "omap_ok m" and "omap_ok n" and eq: "map_of m = map_of n"
  shows "m = n"
proof -
  have "sorted_list_of_set (fst ` set x) = map fst x" if "omap_ok x" for x :: "('k, 'v) omap"
    using that unfolding omap_ok_def
    by (metis list.set_map sorted_list_of_set.idem_if_sorted_distinct strict_sorted_iff)
  moreover have "fst ` set m = fst ` set n"
    using eq by (metis dom_map_of_conv_image_fst)
  ultimately have keys: "map fst m = map fst n"
    using assms(1,2) by metis
  show ?thesis
    by (rule map_of_eqI_list [OF keys _ eq]) (rule omap_ok_distinct [OF assms(1)])
qed

interpretation omap: ordered_map "[]" omap_put omap_erase map_of "\<lambda>m. m" omap_ok
proof unfold_locales
  fix m :: "('a, 'b) omap" and k v
  assume "omap_ok m"
  then show "(k, v) \<in> set m \<longleftrightarrow> map_of m k = Some v"
    by (simp add: omap_ok_distinct)
qed (auto simp: omap_simps simp flip: omap_ok_def)

section \<open>Printing integers\<close>

text \<open>\<open>std::isspace\<close> in the C locale.\<close>

definition isspace :: "char \<Rightarrow> bool" where
  "isspace c \<longleftrightarrow> (of_char c :: nat) = 32 \<or> (9 \<le> (of_char c :: nat) \<and> (of_char c :: nat) \<le> 13)"

definition digit_char :: "nat \<Rightarrow> char" where
  "digit_char d = char_of (48 + d)"

fun nat_dec :: "nat \<Rightarrow> string" where
  "nat_dec n = (if n < 10 then [digit_char n] else nat_dec (n div 10) @ [digit_char (n mod 10)])"

declare nat_dec.simps [simp del]

definition int_dec :: "int \<Rightarrow> string" where
  "int_dec i = (if i < 0 then CHR ''-'' # nat_dec (nat (- i)) else nat_dec (nat i))"

text \<open>The value a run of decimal digits denotes; only the lemmas below use it.\<close>

definition dec_val :: "string \<Rightarrow> nat" where
  "dec_val s = foldl (\<lambda>a c. 10 * a + (of_char c - 48)) 0 s"

definition is_digit :: "char \<Rightarrow> bool" where
  "is_digit c \<longleftrightarrow> 48 \<le> (of_char c :: nat) \<and> (of_char c :: nat) \<le> 57"

lemma of_digit_char [simp]: "d < 10 \<Longrightarrow> (of_char (digit_char d) :: nat) = 48 + d"
  by (simp add: digit_char_def)

lemma is_digit_digit_char [simp]: "d < 10 \<Longrightarrow> is_digit (digit_char d)"
  by (simp add: is_digit_def)

lemma dec_val_nat_dec [simp]: "dec_val (nat_dec n) = n"
proof (induction n rule: nat_dec.induct)
  case (1 n)
  show ?case
  proof (cases "n < 10")
    case True
    then show ?thesis by (subst nat_dec.simps) (simp add: dec_val_def)
  next
    case False
    with 1 have "dec_val (nat_dec (n div 10)) = n div 10" by simp
    then show ?thesis
      using False by (subst nat_dec.simps) (simp add: dec_val_def)
  qed
qed

lemma nat_dec_inject [simp]: "nat_dec m = nat_dec n \<longleftrightarrow> m = n"
  by (metis dec_val_nat_dec)

lemma nat_dec_digits: "c \<in> set (nat_dec n) \<Longrightarrow> is_digit c"
proof (induction n rule: nat_dec.induct)
  case (1 n)
  then show ?case
    by (cases "n < 10") (auto simp: nat_dec.simps [of n])
qed

lemma nat_dec_not_Nil [simp]: "nat_dec n \<noteq> []"
  by (subst nat_dec.simps) simp

lemma minus_not_digit [simp]: "\<not> is_digit CHR ''-''"
  by (simp add: is_digit_def)

lemma hd_nat_dec: "is_digit (hd (nat_dec n))"
  by (rule nat_dec_digits [of _ n]) (simp add: hd_in_set)

lemma int_dec_inject [simp]: "int_dec i = int_dec j \<longleftrightarrow> i = j"
proof
  assume eq: "int_dec i = int_dec j"
  have neg: "nat_dec m \<noteq> CHR ''-'' # nat_dec n" for m n
    using hd_nat_dec [of m] by (cases "nat_dec m") auto
  show "i = j"
    using eq neg neg [symmetric] by (auto simp: int_dec_def split: if_splits)
qed simp

lemma int_dec_not_Nil [simp]: "int_dec i \<noteq> []"
  by (simp add: int_dec_def)

lemma int_dec_chars: "c \<in> set (int_dec i) \<Longrightarrow> is_digit c \<or> c = CHR ''-''"
  by (auto simp: int_dec_def dest: nat_dec_digits split: if_splits)

section \<open>Lists\<close>

text \<open>Splitting off everything up to a separator that the front part does not contain.\<close>

lemma append_sep_inject:
  assumes "c \<notin> set xs" and "c \<notin> set ys"
  shows "xs @ c # zs = ys @ c # ws \<longleftrightarrow> xs = ys \<and> zs = ws"
  using assms
proof (induction xs arbitrary: ys)
  case Nil
  then show ?case by (cases ys) auto
next
  case (Cons x xs)
  then show ?case by (cases ys) auto
qed

lemma append_delim_inject:
  assumes "xs @ zs = ys @ ws" and "\<forall>c \<in> set xs. P c" and "\<forall>c \<in> set ys. P c"
    and "zs = [] \<or> \<not> P (hd zs)" and "ws = [] \<or> \<not> P (hd ws)"
  shows "xs = ys \<and> zs = ws"
  using assms
proof (induction xs arbitrary: ys)
  case Nil
  then show ?case by (cases ys) auto
next
  case (Cons x xs)
  then show ?case by (cases ys) auto
qed

lemma mset_concat_filter_partition:
  "mset (concat (map f (filter P xs))) + mset (concat (map f (filter (\<lambda>x. \<not> P x) xs))) =
    mset (concat (map f xs))"
  by (induction xs) auto

end
