(* ===== verification/Ieee.thy ===== *)
theory Ieee
  imports Complex_Main Prelude
begin

text \<open>
  The floating-point numbers of the sources: \<open>double\<close> is IEEE binary64 and \<open>float\<close> binary32,
  in the default rounding mode (to nearest, ties to even). A number is NaN, an infinity (with its
  sign) or a rational; the two zeros are one value, which no modelled operation distinguishes.
  The arithmetic rounds the exact rational result, so the model computes what the hardware does.
  The lemmas: rounding is monotone, odd, and exact on every representable number.
\<close>

datatype fp = FNaN | FInf bool | FFin rat

section \<open>Rounding to an integer\<close>

text \<open>\<open>std::nearbyint\<close> in the default mode.\<close>

definition rne :: "rat \<Rightarrow> int" where
  "rne x = (let f = \<lfloor>x\<rfloor>; d = x - of_int f
    in if d < 1 / 2 then f else if 1 / 2 < d then f + 1 else if even f then f else f + 1)"

lemma rne_bounds: "\<lfloor>x\<rfloor> \<le> rne x \<and> rne x \<le> \<lfloor>x\<rfloor> + 1"
  by (auto simp: rne_def Let_def)

lemma rne_of_int [simp]: "rne (of_int i) = i"
  by (simp add: rne_def)

lemma rne_mono:
  assumes "x \<le> y"
  shows "rne x \<le> rne y"
proof (cases "\<lfloor>x\<rfloor> = \<lfloor>y\<rfloor>")
  case True
  with assms show ?thesis by (auto simp: rne_def Let_def)
next
  case False
  with assms have "\<lfloor>x\<rfloor> + 1 \<le> \<lfloor>y\<rfloor>"
    using floor_mono [OF assms] by linarith
  then show ?thesis
    using rne_bounds [of x] rne_bounds [of y] by linarith
qed

lemma rne_le_int: "x \<le> of_int i \<Longrightarrow> rne x \<le> i"
  using rne_mono [of x "of_int i"] by simp

lemma rne_ge_int: "of_int i \<le> x \<Longrightarrow> i \<le> rne x"
  using rne_mono [of "of_int i" x] by simp

lemma rne_error: "\<bar>of_int (rne x) - x\<bar> \<le> 1 / 2"
proof -
  have "of_int \<lfloor>x\<rfloor> \<le> x" and "x < of_int \<lfloor>x\<rfloor> + 1"
    by linarith+
  then show ?thesis
    unfolding rne_def Let_def abs_le_iff by (split if_split)+ linarith
qed

lemma rne_minus [simp]: "rne (- x) = - rne x"
proof (cases "x = of_int \<lfloor>x\<rfloor>")
  case True
  then show ?thesis by (metis rne_of_int of_int_minus)
next
  case False
  then have fl: "\<lfloor>- x\<rfloor> = - \<lfloor>x\<rfloor> - 1"
    by (simp add: floor_minus ceiling_altdef)
  have d: "- x - of_int \<lfloor>- x\<rfloor> = 1 - (x - of_int \<lfloor>x\<rfloor>)"
    by (simp add: fl)
  have "(1 - (x - of_int \<lfloor>x\<rfloor>) < 1 / 2) = (1 / 2 < x - of_int \<lfloor>x\<rfloor>)"
    and "(1 / 2 < 1 - (x - of_int \<lfloor>x\<rfloor>)) = (x - of_int \<lfloor>x\<rfloor> < 1 / 2)"
    by auto
  then show ?thesis
    unfolding rne_def Let_def d by (auto simp: fl)
qed

section \<open>Rounding to a binary format\<close>

fun nlog2 :: "nat \<Rightarrow> nat" where
  "nlog2 n = (if n < 2 then 0 else Suc (nlog2 (n div 2)))"

declare nlog2.simps [simp del]

lemma nlog2_bounds: "0 < n \<Longrightarrow> 2 ^ nlog2 n \<le> n \<and> n < 2 * 2 ^ nlog2 n"
proof (induction n rule: nlog2.induct)
  case (1 n)
  show ?case
  proof (cases "n < 2")
    case True
    with "1.prems" show ?thesis by (simp add: nlog2.simps [of n])
  next
    case False
    with "1.IH" have "2 ^ nlog2 (n div 2) \<le> n div 2 \<and> n div 2 < 2 * 2 ^ nlog2 (n div 2)"
      by simp
    moreover have "nlog2 n = Suc (nlog2 (n div 2))"
      using False by (simp add: nlog2.simps [of n])
    ultimately show ?thesis by (simp only: power_Suc) linarith
  qed
qed

text \<open>The exponent of the leading bit of a positive rational.\<close>

definition flog2 :: "rat \<Rightarrow> int" where
  "flog2 x = (let (n, d) = quotient_of x; k = int (nlog2 (nat n)) - int (nlog2 (nat d))
    in if 2 powi k \<le> x then k else k - 1)"

lemma powi_diff_nat: "(2::rat) powi (int a - int b) = 2 ^ a / 2 ^ b"
  by (simp add: power_int_diff)

lemma flog2_bounds:
  assumes "0 < x"
  shows "2 powi flog2 x \<le> x \<and> x < 2 powi (flog2 x + 1)"
proof -
  obtain n d where q: "quotient_of x = (n, d)" by (cases "quotient_of x")
  have d: "0 < d" using quotient_of_denom_pos [OF q] .
  have x: "x = of_int n / of_int d" using quotient_of_div [OF q] .
  with assms d have n: "0 < n" by (simp add: zero_less_divide_iff)
  define a b where "a = nlog2 (nat n)" and "b = nlog2 (nat d)"
  have "2 ^ a \<le> nat n \<and> nat n < 2 * 2 ^ a" and "2 ^ b \<le> nat d \<and> nat d < 2 * 2 ^ b"
    using n d nlog2_bounds [of "nat n"] nlog2_bounds [of "nat d"] by (simp_all only: a_def b_def zero_less_nat_eq)
  then have "of_nat (2 ^ a) \<le> (of_nat (nat n) :: rat) \<and> (of_nat (nat n) :: rat) < of_nat (2 * 2 ^ a)"
    and "of_nat (2 ^ b) \<le> (of_nat (nat d) :: rat) \<and> (of_nat (nat d) :: rat) < of_nat (2 * 2 ^ b)"
    by (simp_all only: of_nat_le_iff of_nat_less_iff)
  then have nb: "2 ^ a \<le> (of_int n :: rat)" "of_int n < (2 * 2 ^ a :: rat)"
    and db: "2 ^ b \<le> (of_int d :: rat)" "of_int d < (2 * 2 ^ b :: rat)"
    using n d by (simp_all add: of_nat_nat)
  have "of_int n / of_int d < (2 * 2 ^ a :: rat) / 2 ^ b"
    using nb db d n by (intro frac_less) auto
  then have up: "x < 2 * 2 powi (int a - int b)"
    by (simp add: x powi_diff_nat)
  have "(2 ^ a :: rat) / (2 * 2 ^ b) < of_int n / of_int d"
    using nb db d n by (intro frac_less2) auto
  then have lo: "2 powi (int a - int b - 1) < x"
    by (simp add: x powi_diff_nat power_int_diff)
  have f: "flog2 x = (if 2 powi (int a - int b) \<le> x then int a - int b else int a - int b - 1)"
    by (simp add: flog2_def q a_def b_def)
  show ?thesis
    using up lo power_int_add_1 [of "2::rat" "int a - int b"]
    by (cases "2 powi (int a - int b) \<le> x") (simp_all add: f)
qed

lemma flog2_less:
  assumes "0 < x" and "x < 2 powi k"
  shows "flog2 x < k"
proof -
  have "(2::rat) powi flog2 x < 2 powi k"
    using flog2_bounds [OF assms(1)] assms(2) by (rule_tac order_le_less_trans) auto
  then show ?thesis
    by (metis not_le_imp_less order_less_imp_not_less power_int_increasing one_le_numeral not_less)
qed

lemma flog2_mono:
  assumes "0 < x" and "x \<le> y"
  shows "flog2 x \<le> flog2 y"
proof -
  have "x < 2 powi (flog2 y + 1)"
    using flog2_bounds [of y] assms by linarith
  from flog2_less [OF assms(1) this] show ?thesis by simp
qed

text \<open>
  \<open>ulp_exp p emin x\<close> is the exponent of the last place of \<open>x\<close> in a format with \<open>p\<close> bits of
  precision whose smallest exponent is \<open>emin\<close> (gradual underflow); \<open>frnd\<close> rounds to it.
\<close>

definition ulp_exp :: "nat \<Rightarrow> int \<Rightarrow> rat \<Rightarrow> int" where
  "ulp_exp p emin x = max emin (flog2 \<bar>x\<bar> - int p + 1)"

definition frnd :: "nat \<Rightarrow> int \<Rightarrow> rat \<Rightarrow> rat" where
  "frnd p emin x =
    (if x = 0 then 0
     else let u = 2 powi ulp_exp p emin x in of_int (rne (x / u)) * u)"

definition fround :: "nat \<Rightarrow> int \<Rightarrow> int \<Rightarrow> rat \<Rightarrow> fp" where
  "fround p emin emax x =
    (let y = frnd p emin x in if 2 powi (emax + 1) \<le> \<bar>y\<bar> then FInf (x < 0) else FFin y)"

lemma frnd_0 [simp]: "frnd p emin 0 = 0"
  by (simp add: frnd_def)

lemma frnd_minus [simp]: "frnd p emin (- x) = - frnd p emin x"
  by (simp add: frnd_def ulp_exp_def Let_def)

lemma frnd_nonneg: "0 \<le> x \<Longrightarrow> 0 \<le> frnd p emin x"
  by (auto simp: frnd_def Let_def intro!: mult_nonneg_nonneg rne_ge_int)

lemma powi_split: "(2::rat) powi a = 2 ^ nat (a - b) * 2 powi b" if "b \<le> a"
proof -
  have "(2::rat) powi a = 2 powi (int (nat (a - b)) + b)" using that by simp
  also have "\<dots> = 2 ^ nat (a - b) * 2 powi b"
    by (rule trans [OF power_int_add]) (simp_all only: power_int_of_nat, simp)
  finally show ?thesis .
qed

lemma frnd_eq_scaled:
  assumes "x \<noteq> 0" and "u = 2 powi ulp_exp p emin x"
  shows "frnd p emin x = of_int (rne (x / u)) * u"
  using assms by (simp add: frnd_def Let_def)

lemma frnd_representable:
  assumes x: "x = of_int m * 2 powi k" and m: "\<bar>m\<bar> < 2 ^ p" and k: "emin \<le> k"
  shows "frnd p emin x = x"
proof (cases "x = 0")
  case False
  have "(of_int \<bar>m\<bar> :: rat) < of_int (2 ^ p)"
    using m by (simp only: of_int_less_iff)
  then have "\<bar>x\<bar> < 2 ^ p * 2 powi k"
    by (simp add: x abs_mult)
  then have "\<bar>x\<bar> < 2 powi (int p + k)"
    by (simp add: power_int_add)
  then have "flog2 \<bar>x\<bar> < int p + k"
    using False by (intro flog2_less) auto
  then have e: "ulp_exp p emin x \<le> k"
    using k by (simp add: ulp_exp_def)
  define u where "u = (2::rat) powi ulp_exp p emin x"
  have "x / u = of_int (m * 2 ^ nat (k - ulp_exp p emin x))"
    unfolding u_def by (subst x, subst powi_split [OF e]) simp
  then have "frnd p emin x = of_int (m * 2 ^ nat (k - ulp_exp p emin x)) * u"
    using frnd_eq_scaled [OF False u_def] by (metis rne_of_int)
  also have "\<dots> = of_int m * (2 ^ nat (k - ulp_exp p emin x) * u)"
    by simp
  also have "\<dots> = x"
    using powi_split [OF e] by (simp only: u_def [symmetric]) (simp add: x)
  finally show ?thesis .
qed simp

lemma frnd_idem:
  assumes "0 < p"
  shows "frnd p emin (frnd p emin x) = frnd p emin x"
proof (cases "x = 0")
  case False
  define e where "e = ulp_exp p emin x"
  define m where "m = rne (x / 2 powi e)"
  have y: "frnd p emin x = of_int m * 2 powi e"
    using frnd_eq_scaled [OF False refl] by (simp add: m_def e_def)
  have "\<bar>x\<bar> < 2 powi (flog2 \<bar>x\<bar> + 1)" using flog2_bounds [of "\<bar>x\<bar>"] False by simp
  also have "\<dots> \<le> 2 powi (int p + e)" by (intro power_int_increasing) (simp_all add: e_def ulp_exp_def)
  finally have "\<bar>x / 2 powi e\<bar> \<le> 2 ^ p" by (simp add: power_int_add abs_divide divide_le_eq)
  then have "- of_int (2 ^ p) \<le> x / 2 powi e" "x / 2 powi e \<le> of_int (2 ^ p)" by (simp_all add: abs_le_iff del: abs_divide)
  then have "m \<le> 2 ^ p" "- (2 ^ p) \<le> m"
    using rne_le_int [of "x / 2 powi e" "2 ^ p"] rne_ge_int [of "- (2 ^ p)" "x / 2 powi e"] by (simp_all add: m_def)
  then consider "\<bar>m\<bar> < 2 ^ p" | "m = 2 ^ p" | "m = - (2 ^ p)" by linarith
  then show ?thesis
  proof cases
    case 1
    then show ?thesis by (intro frnd_representable [OF y]) (simp_all add: e_def ulp_exp_def)
  next
    case 2
    then have "frnd p emin x = of_int 1 * 2 powi (int p + e)" by (simp add: y power_int_add)
    then show ?thesis by (rule frnd_representable) (use assms in \<open>simp_all add: e_def ulp_exp_def\<close>)
  next
    case 3
    then have "frnd p emin x = of_int (- 1) * 2 powi (int p + e)" by (simp add: y power_int_add)
    then show ?thesis by (rule frnd_representable) (use assms in \<open>simp_all add: e_def ulp_exp_def\<close>)
  qed
qed simp

lemma frnd_of_int:
  assumes "\<bar>i\<bar> < 2 ^ p" and "emin \<le> 0"
  shows "frnd p emin (of_int i) = of_int i"
  using assms by (intro frnd_representable [where k = 0 and m = i]) auto

lemma frnd_le_pow2:
  assumes "0 < x" and "x \<le> 2 powi b" and "ulp_exp p emin x \<le> b"
  shows "frnd p emin x \<le> 2 powi b"
proof -
  define u where "u = (2::rat) powi ulp_exp p emin x"
  have u: "0 < u" by (simp add: u_def)
  have b: "(2::rat) powi b = of_int (2 ^ nat (b - ulp_exp p emin x)) * u"
    using powi_split [OF assms(3)] by (simp add: u_def)
  have "x / u \<le> of_int (2 ^ nat (b - ulp_exp p emin x))"
    using assms(2) u by (simp add: b pos_divide_le_eq)
  then have "rne (x / u) \<le> 2 ^ nat (b - ulp_exp p emin x)"
    by (rule rne_le_int)
  then have "(of_int (rne (x / u)) :: rat) \<le> of_int (2 ^ nat (b - ulp_exp p emin x))"
    by (simp only: of_int_le_iff)
  then show ?thesis
    using u assms(1) frnd_eq_scaled [OF _ u_def]
    by (simp add: b mult_right_mono del: of_int_power)
qed

lemma frnd_ge_pow2:
  assumes "0 < x" and "2 powi b \<le> x" and "ulp_exp p emin x \<le> b"
  shows "2 powi b \<le> frnd p emin x"
proof -
  define u where "u = (2::rat) powi ulp_exp p emin x"
  have u: "0 < u" by (simp add: u_def)
  have b: "(2::rat) powi b = of_int (2 ^ nat (b - ulp_exp p emin x)) * u"
    using powi_split [OF assms(3)] by (simp add: u_def)
  have "of_int (2 ^ nat (b - ulp_exp p emin x)) \<le> x / u"
    using assms(2) u by (simp add: b pos_le_divide_eq)
  then have "2 ^ nat (b - ulp_exp p emin x) \<le> rne (x / u)"
    by (rule rne_ge_int)
  then have "of_int (2 ^ nat (b - ulp_exp p emin x)) \<le> (of_int (rne (x / u)) :: rat)"
    by (simp only: of_int_le_iff)
  then show ?thesis
    using u assms(1) frnd_eq_scaled [OF _ u_def]
    by (simp add: b mult_right_mono del: of_int_power)
qed

lemma frnd_mono_pos:
  assumes x: "0 < x" and xy: "x \<le> y" and p: "0 < p"
  shows "frnd p emin x \<le> frnd p emin y"
proof -
  have y: "0 < y" using x xy by simp
  have le: "ulp_exp p emin x \<le> ulp_exp p emin y"
    using flog2_mono [OF x xy] x y by (simp add: ulp_exp_def)
  show ?thesis
  proof (cases "ulp_exp p emin x = ulp_exp p emin y")
    case True
    define u where "u = (2::rat) powi ulp_exp p emin x"
    have u: "0 < u" by (simp add: u_def)
    have "rne (x / u) \<le> rne (y / u)"
      using xy u by (intro rne_mono) (simp add: divide_right_mono)
    then show ?thesis
      using x y u frnd_eq_scaled [OF _ u_def] frnd_eq_scaled [of y u p emin] True
      by (simp add: u_def mult_right_mono)
  next
    case False
    with le have lt: "ulp_exp p emin x < ulp_exp p emin y" by simp
    then have ey: "ulp_exp p emin y = flog2 y - int p + 1"
      using y by (auto simp: ulp_exp_def max_def split: if_splits)
    have "flog2 x < flog2 y"
      using lt ey x by (simp add: ulp_exp_def)
    then have xb: "x \<le> 2 powi flog2 y"
      using flog2_bounds [OF x] power_int_increasing [of "flog2 x + 1" "flog2 y" "2::rat"] by simp
    have "ulp_exp p emin x \<le> flog2 y" and "ulp_exp p emin y \<le> flog2 y"
      using lt ey p by simp_all
    then have "frnd p emin x \<le> 2 powi flog2 y" and "2 powi flog2 y \<le> frnd p emin y"
      using frnd_le_pow2 [OF x xb] frnd_ge_pow2 [OF y] flog2_bounds [OF y] by auto
    then show ?thesis by simp
  qed
qed

lemma frnd_mono:
  assumes "x \<le> y" and "0 < p"
  shows "frnd p emin x \<le> frnd p emin y"
proof -
  consider "0 < x" | "x \<le> 0" "0 \<le> y" | "y < 0" using assms(1) by linarith
  then show ?thesis
  proof cases
    case 1
    then show ?thesis using assms by (rule frnd_mono_pos)
  next
    case 2
    then show ?thesis
      using frnd_nonneg [of y p emin] frnd_nonneg [of "- x" p emin] by simp
  next
    case 3
    then show ?thesis
      using assms frnd_mono_pos [of "- y" "- x" p emin] by simp
  qed
qed

section \<open>The two formats and their arithmetic\<close>

abbreviation rnd64 :: "rat \<Rightarrow> rat" where
  "rnd64 \<equiv> frnd 53 (- 1074)"

definition fround64 :: "rat \<Rightarrow> fp" where
  "fround64 = fround 53 (- 1074) 1023"

definition fround32 :: "rat \<Rightarrow> fp" where
  "fround32 = fround 24 (- 149) 127"

text \<open>\<open>static_cast<float>(d)\<close> and \<open>static_cast<double>(i)\<close>.\<close>

fun to_float :: "fp \<Rightarrow> fp" where
  "to_float (FFin x) = fround32 x"
| "to_float v = v"

definition fp_of_int :: "int \<Rightarrow> fp" where
  "fp_of_int i = fround64 (of_int i)"

fun fadd :: "fp \<Rightarrow> fp \<Rightarrow> fp" where
  "fadd (FFin x) (FFin y) = fround64 (x + y)"
| "fadd (FInf a) (FInf b) = (if a = b then FInf a else FNaN)"
| "fadd (FInf a) (FFin y) = FInf a"
| "fadd (FFin x) (FInf b) = FInf b"
| "fadd _ _ = FNaN"

fun fneg :: "fp \<Rightarrow> fp" where
  "fneg (FFin x) = FFin (- x)"
| "fneg (FInf a) = FInf (\<not> a)"
| "fneg FNaN = FNaN"

definition fsub :: "fp \<Rightarrow> fp \<Rightarrow> fp" where
  "fsub x y = fadd x (fneg y)"

fun fmul :: "fp \<Rightarrow> fp \<Rightarrow> fp" where
  "fmul (FFin x) (FFin y) = fround64 (x * y)"
| "fmul (FInf a) (FInf b) = FInf (a \<noteq> b)"
| "fmul (FInf a) (FFin y) = (if y = 0 then FNaN else FInf (a \<noteq> (y < 0)))"
| "fmul (FFin x) (FInf b) = (if x = 0 then FNaN else FInf (b \<noteq> (x < 0)))"
| "fmul _ _ = FNaN"

text \<open>Comparisons are false on NaN.\<close>

fun flt :: "fp \<Rightarrow> fp \<Rightarrow> bool" where
  "flt (FFin x) (FFin y) = (x < y)"
| "flt (FInf a) (FInf b) = (a \<and> \<not> b)"
| "flt (FInf a) (FFin y) = a"
| "flt (FFin x) (FInf b) = (\<not> b)"
| "flt _ _ = False"

fun feq :: "fp \<Rightarrow> fp \<Rightarrow> bool" where
  "feq (FFin x) (FFin y) = (x = y)"
| "feq (FInf a) (FInf b) = (a = b)"
| "feq _ _ = False"

definition fle :: "fp \<Rightarrow> fp \<Rightarrow> bool" where
  "fle x y \<longleftrightarrow> flt x y \<or> feq x y"

text \<open>\<open>std::min(a, b)\<close>.\<close>

definition fmin :: "fp \<Rightarrow> fp \<Rightarrow> fp" where
  "fmin a b = (if flt b a then b else a)"

lemma flt_irrefl [simp]: "\<not> flt x x"
  by (cases x) auto

lemma flt_trans: "flt x y \<Longrightarrow> flt y z \<Longrightarrow> flt x z"
  by (cases x; cases y; cases z) auto

lemma fle_trans: "fle x y \<Longrightarrow> fle y z \<Longrightarrow> fle x z"
  by (cases x; cases y; cases z) (auto simp: fle_def)

lemma fmin_le: "a \<noteq> FNaN \<Longrightarrow> fle (fmin a b) a"
  by (cases a; cases b) (auto simp: fmin_def fle_def)

lemma fround64_small_int:
  assumes "\<bar>i\<bar> < 2 ^ 53"
  shows "fround64 (of_int i) = FFin (of_int i)"
proof -
  have "(of_int \<bar>i\<bar> :: rat) < of_int (2 ^ 53)"
    using assms by (simp only: of_int_less_iff)
  then have lt: "(\<bar>of_int i\<bar> :: rat) < 2 ^ 53" by simp
  have "(2::rat) ^ 53 \<le> 2 ^ 1024"
    by (rule power_increasing) simp_all
  with lt have "\<not> (2::rat) ^ 1024 \<le> \<bar>of_int i\<bar>"
    by linarith
  then show ?thesis
    using frnd_of_int [OF assms, of "- 1074"] by (simp add: fround64_def fround_def)
qed

lemma fround32_small_int:
  assumes "\<bar>i\<bar> < 2 ^ 24"
  shows "fround32 (of_int i) = FFin (of_int i)"
proof -
  have "(of_int \<bar>i\<bar> :: rat) < of_int (2 ^ 24)"
    using assms by (simp only: of_int_less_iff)
  then have lt: "(\<bar>of_int i\<bar> :: rat) < 2 ^ 24" by simp
  have "(2::rat) ^ 24 \<le> 2 ^ 128"
    by (rule power_increasing) simp_all
  with lt have "\<not> (2::rat) ^ 128 \<le> \<bar>of_int i\<bar>"
    by linarith
  then show ?thesis
    using frnd_of_int [OF assms, of "- 149"] by (simp add: fround32_def fround_def)
qed

lemma fp_of_small_int [simp]: "\<bar>i\<bar> < 2 ^ 53 \<Longrightarrow> fp_of_int i = FFin (of_int i)"
  by (simp add: fp_of_int_def fround64_small_int)

text \<open>Rounding is monotone up to the infinities.\<close>

lemma frnd_sign: "frnd p emin x < 0 \<Longrightarrow> x < 0" "0 < frnd p emin x \<Longrightarrow> 0 < x"
  using frnd_nonneg [of x p emin] frnd_nonneg [of "- x" p emin] by (auto simp: not_le [symmetric])

lemma fround_mono:
  assumes "x \<le> y" and "0 < p"
  shows "fle (fround p emin emax x) (fround p emin emax y)"
proof -
  let ?m = "2 powi (emax + 1) :: rat" and ?x = "frnd p emin x" and ?y = "frnd p emin y"
  have m: "0 < ?m" by simp
  have le: "?x \<le> ?y" by (rule frnd_mono) (use assms in auto)
  show ?thesis
  proof (cases "?m \<le> \<bar>?x\<bar>")
    case big: True
    show ?thesis
    proof (cases "x < 0")
      case True
      with big show ?thesis by (simp add: fround_def Let_def fle_def split: if_splits)
    next
      case False
      with big m have "?m \<le> ?x" using frnd_sign(1) [of p emin x] by (auto simp: abs_if split: if_splits)
      with le have "?m \<le> ?y" by linarith
      with big False assms m show ?thesis by (auto simp: fround_def Let_def fle_def)
    qed
  next
    case small: False
    show ?thesis
    proof (cases "?m \<le> \<bar>?y\<bar>")
      case True
      then have "\<not> y < 0"
        using le small m frnd_sign(2) [of p emin y] by (auto simp: abs_if split: if_splits)
      with True small show ?thesis by (simp add: fround_def Let_def fle_def)
    next
      case False
      with small le show ?thesis by (auto simp: fround_def Let_def fle_def)
    qed
  qed
qed

lemma fround_between_inf: "fle (FInf True) (fround p emin emax x)" "fle (fround p emin emax x) (FInf False)"
  by (auto simp: fround_def Let_def fle_def)

lemma to_float_mono:
  assumes "fle a b"
  shows "fle (to_float a) (to_float b)"
proof (cases a)
  case FNaN
  with assms show ?thesis by (simp add: fle_def)
next
  case (FInf s)
  with assms show ?thesis
    by (cases b) (auto simp: fle_def fround32_def fround_between_inf [unfolded fle_def])
next
  case (FFin x)
  show ?thesis
  proof (cases b)
    case b: (FFin y)
    with FFin assms have "x \<le> y" by (auto simp: fle_def)
    then show ?thesis by (simp add: FFin b fround32_def fround_mono)
  qed (use FFin assms in \<open>auto simp: fle_def fround32_def fround_between_inf [unfolded fle_def]\<close>)
qed

lemma to_float_idem [simp]: "to_float (to_float f) = to_float f"
  by (cases f) (simp_all add: fround32_def fround_def Let_def frnd_idem)

lemma to_float_fround32 [simp]: "to_float (fround32 x) = fround32 x"
  using to_float_idem [of "FFin x"] by simp

lemma fround64_le_int:
  assumes "x \<le> of_int i" and "\<bar>i\<bar> < 2 ^ 53"
  shows "fle (fround64 x) (FFin (of_int i))"
proof -
  have i: "frnd 53 (- 1074) (of_int i) = of_int i" using assms(2) by (rule frnd_of_int) simp
  have le: "frnd 53 (- 1074) x \<le> of_int i"
    using frnd_mono [OF assms(1), of 53 "- 1074"] i by simp
  show ?thesis
  proof (cases "2 powi 1024 \<le> \<bar>frnd 53 (- 1074) x\<bar>")
    case True
    have "(of_int i :: rat) < 2 ^ 53" using assms(2) by (metis abs_less_iff of_int_less_iff of_int_numeral of_int_power)
    also have "(2::rat) ^ 53 \<le> 2 ^ 1024" by (rule power_increasing) simp_all
    finally have "frnd 53 (- 1074) x < 0" using True le by (auto simp: abs_if split: if_splits)
    then have "x < 0" using frnd_nonneg [of x 53 "- 1074"] by (meson not_less)
    with True show ?thesis by (simp add: fround64_def fround_def fle_def)
  next
    case False
    with le show ?thesis by (auto simp: fround64_def fround_def fle_def)
  qed
qed

text \<open>
  Code equations for kernel evaluation: small integers are exact, and the comparison with the largest
  exponent is skipped for magnitudes below \<open>2\<^sup>6\<^sup>4\<close>.
\<close>

lemma fround_code [code]:
  "fround p emin emax x =
    (let y = frnd p emin x in
     if 63 \<le> emax \<and> \<bar>y\<bar> < 18446744073709551616 then FFin y
     else if 2 powi (emax + 1) \<le> \<bar>y\<bar> then FInf (x < 0) else FFin y)"
proof -
  have "\<not> 2 powi (emax + 1) \<le> \<bar>y\<bar>" if "63 \<le> emax" and "\<bar>y\<bar> < 18446744073709551616" for y :: rat
  proof -
    have "(2::rat) powi 64 \<le> 2 powi (emax + 1)"
      using that(1) by (intro power_int_increasing) auto
    with that(2) show ?thesis by simp
  qed
  then show ?thesis by (auto simp: fround_def Let_def)
qed

lemma fround64_code [code]:
  "fround64 x =
    (if x = of_int \<lfloor>x\<rfloor> \<and> \<bar>\<lfloor>x\<rfloor>\<bar> < 9007199254740992 then FFin x else fround 53 (- 1074) 1023 x)"
proof (cases "x = of_int \<lfloor>x\<rfloor> \<and> \<bar>\<lfloor>x\<rfloor>\<bar> < 2 ^ 53")
  case True
  then have "fround64 x = FFin x" using fround64_small_int [of "\<lfloor>x\<rfloor>"] by metis
  with True show ?thesis by simp
next
  case False
  then show ?thesis by (auto simp: fround64_def)
qed

end
