(* ===== verification/Errors.thy ===== *)
theory Errors
  imports Prelude
begin

text \<open>
  The error model (\<open>include/fountainer/error.hpp\<close>, \<open>src/error.cpp\<close>, \<open>include/fountainer/result.hpp\<close>):
  error domains and codes with their wire texts, the \<open>Error\<close> record and its factories, and
  \<open>Result<T>\<close> as a sum whose left part is the error.
\<close>

datatype error_domain =
    Dom_Configuration | Dom_Dns | Dom_Tcp | Dom_Tls | Dom_WebSocket | Dom_Protocol
  | Dom_Authentication | Dom_Validation | Dom_Timeout | Dom_Disconnected | Dom_RateLimit
  | Dom_Remote | Dom_Cancelled | Dom_Internal

datatype error_code =
    MissingCredentials | InvalidEndpoint | InvalidOption | FileNotReadable
  | ResolveFailed | ConnectFailed | TlsHandshakeFailed | CertificateRejected
  | WebSocketHandshakeFailed | TransportClosed | FrameTooLarge | SendQueueFull
  | ProtocolMismatch | UnexpectedMessage | UnexpectedResponseType | MalformedMessage
  | HandshakeFailed
  | AuthRejected | ReplayDetected | UnknownKeyId
  | UnknownDatapoint | ReadOnlyDatapoint | TypeMismatch | OutOfRange | ValueTooLong
  | ConstraintViolation | EmptySelection
  | RequestTimeout | Disconnected | NotConnected | InvalidState | Cancelled | RateLimited
  | DeviceBusy
  | RemoteRejected | NotSupported | Internal

record error =
  err_domain :: error_domain
  err_code :: error_code
  err_message :: string
  err_retryable :: bool
  err_operation :: "string option"
  err_datapoint :: "string option"
  err_remote_detail :: "string option"

type_synonym 'a result = "error + 'a"

abbreviation fail :: "error \<Rightarrow> 'a result" where
  "fail e \<equiv> Inl e"

abbreviation ok_status :: "unit result" where
  "ok_status \<equiv> Inr ()"

fun domain_to_string :: "error_domain \<Rightarrow> string" where
  "domain_to_string Dom_Configuration = ''configuration''"
| "domain_to_string Dom_Dns = ''dns''"
| "domain_to_string Dom_Tcp = ''tcp''"
| "domain_to_string Dom_Tls = ''tls''"
| "domain_to_string Dom_WebSocket = ''websocket''"
| "domain_to_string Dom_Protocol = ''protocol''"
| "domain_to_string Dom_Authentication = ''authentication''"
| "domain_to_string Dom_Validation = ''validation''"
| "domain_to_string Dom_Timeout = ''timeout''"
| "domain_to_string Dom_Disconnected = ''disconnected''"
| "domain_to_string Dom_RateLimit = ''rate_limit''"
| "domain_to_string Dom_Remote = ''remote''"
| "domain_to_string Dom_Cancelled = ''cancelled''"
| "domain_to_string Dom_Internal = ''internal''"

fun code_to_string :: "error_code \<Rightarrow> string" where
  "code_to_string MissingCredentials = ''missing_credentials''"
| "code_to_string InvalidEndpoint = ''invalid_endpoint''"
| "code_to_string InvalidOption = ''invalid_option''"
| "code_to_string FileNotReadable = ''file_not_readable''"
| "code_to_string ResolveFailed = ''resolve_failed''"
| "code_to_string ConnectFailed = ''connect_failed''"
| "code_to_string TlsHandshakeFailed = ''tls_handshake_failed''"
| "code_to_string CertificateRejected = ''certificate_rejected''"
| "code_to_string WebSocketHandshakeFailed = ''websocket_handshake_failed''"
| "code_to_string TransportClosed = ''transport_closed''"
| "code_to_string FrameTooLarge = ''frame_too_large''"
| "code_to_string SendQueueFull = ''send_queue_full''"
| "code_to_string ProtocolMismatch = ''protocol_mismatch''"
| "code_to_string UnexpectedMessage = ''unexpected_message''"
| "code_to_string UnexpectedResponseType = ''unexpected_response_type''"
| "code_to_string MalformedMessage = ''malformed_message''"
| "code_to_string HandshakeFailed = ''handshake_failed''"
| "code_to_string AuthRejected = ''auth_rejected''"
| "code_to_string ReplayDetected = ''replay_detected''"
| "code_to_string UnknownKeyId = ''unknown_key_id''"
| "code_to_string UnknownDatapoint = ''unknown_datapoint''"
| "code_to_string ReadOnlyDatapoint = ''read_only''"
| "code_to_string TypeMismatch = ''type_mismatch''"
| "code_to_string OutOfRange = ''out_of_range''"
| "code_to_string ValueTooLong = ''too_long''"
| "code_to_string ConstraintViolation = ''constraint_violation''"
| "code_to_string EmptySelection = ''empty_selection''"
| "code_to_string RequestTimeout = ''request_timeout''"
| "code_to_string Disconnected = ''disconnected''"
| "code_to_string NotConnected = ''not_connected''"
| "code_to_string InvalidState = ''invalid_state''"
| "code_to_string Cancelled = ''cancelled''"
| "code_to_string RateLimited = ''rate_limited''"
| "code_to_string DeviceBusy = ''device_busy''"
| "code_to_string RemoteRejected = ''remote_rejected''"
| "code_to_string NotSupported = ''not_supported''"
| "code_to_string Internal = ''internal''"

definition opt_note :: "string \<Rightarrow> string option \<Rightarrow> string" where
  "opt_note tag v = (case v of None \<Rightarrow> [] | Some s \<Rightarrow> '' ['' @ tag @ ''='' @ s @ '']'')"

definition error_to_string :: "error \<Rightarrow> string" where
  "error_to_string e =
     domain_to_string (err_domain e) @ ''/'' @ code_to_string (err_code e) @
     (if err_message e = [] then [] else '': '' @ err_message e) @
     opt_note ''op'' (err_operation e) @ opt_note ''dp'' (err_datapoint e) @
     opt_note ''remote'' (err_remote_detail e)"

fun default_retryable :: "error_domain \<Rightarrow> bool" where
  "default_retryable Dom_Dns = True"
| "default_retryable Dom_Tcp = True"
| "default_retryable Dom_Timeout = True"
| "default_retryable Dom_Disconnected = True"
| "default_retryable Dom_RateLimit = True"
| "default_retryable _ = False"

definition make_error :: "error_domain \<Rightarrow> error_code \<Rightarrow> string \<Rightarrow> error" where
  "make_error d c m =
     \<lparr>err_domain = d, err_code = c, err_message = m, err_retryable = default_retryable d,
      err_operation = None, err_datapoint = None, err_remote_detail = None\<rparr>"

definition config_error :: "error_code \<Rightarrow> string \<Rightarrow> error" where
  "config_error c m = make_error Dom_Configuration c m"

definition validation_error :: "error_code \<Rightarrow> string \<Rightarrow> string \<Rightarrow> error" where
  "validation_error c m dp =
     (let e = make_error Dom_Validation c m in if dp = [] then e else e\<lparr>err_datapoint := Some dp\<rparr>)"

definition timeout_error :: "string \<Rightarrow> error" where
  "timeout_error oper =
     (make_error Dom_Timeout RequestTimeout ''no response within the request deadline'')
       \<lparr>err_operation := Some oper\<rparr>"

definition disconnected_error :: "string \<Rightarrow> error" where
  "disconnected_error oper =
     (make_error Dom_Disconnected Disconnected ''connection lost while the request was pending'')
       \<lparr>err_operation := Some oper\<rparr>"

definition cancelled_error :: "string \<Rightarrow> error" where
  "cancelled_error oper =
     (make_error Dom_Cancelled Cancelled ''request cancelled'')\<lparr>err_operation := Some oper\<rparr>"

definition protocol_error :: "error_code \<Rightarrow> string \<Rightarrow> error" where
  "protocol_error c m = make_error Dom_Protocol c m"

definition internal_error :: "string \<Rightarrow> error" where
  "internal_error m = make_error Dom_Internal Internal m"

lemmas error_defs = make_error_def config_error_def validation_error_def timeout_error_def
  disconnected_error_def cancelled_error_def protocol_error_def internal_error_def

lemma code_to_string_prefix_free:
  "\<not> (CHR '':'' \<in> set (code_to_string c))" "\<not> (CHR '' '' \<in> set (code_to_string c))"
  by (cases c; simp)+

lemma domain_to_string_inject [simp]: "domain_to_string a = domain_to_string b \<longleftrightarrow> a = b"
  by (cases a; cases b; simp)

lemma domain_to_string_no_slash: "CHR ''/'' \<notin> set (domain_to_string d)"
  by (cases d; simp)

text \<open>The text of an error names its domain: it ends at the first slash.\<close>

lemma error_to_string_domain:
  assumes "error_to_string e = error_to_string f"
  shows "err_domain e = err_domain f"
  using assms by (simp add: error_to_string_def append_sep_inject domain_to_string_no_slash)

end
