(* ===== verification/Catalog.thy ===== *)
theory Catalog
  imports Ieee Errors
begin

text \<open>
  The datapoint catalog (\<open>datapoints/datapoint.hpp\<close>, \<open>datapoints/generated.hpp\<close>,
  \<open>datapoints/catalog.hpp\<close>, \<open>datapoints/catalog.cpp\<close>): descriptors, the table of all 107 datapoints,
  the id enumeration, the typed constants and the look-up functions. Decimal literals are rounded to
  binary64 as the compiler does; \<open>FNaN\<close> is \<open>kDatapointUnbounded\<close>.
\<close>

section \<open>Descriptors\<close>

datatype datapoint_type =
  T_Bool | T_U8 | T_U16 | T_U32 | T_U64 | T_I8 | T_I16 | T_I32 | T_F32 | T_Enum | T_Str

datatype access = ReadOnly | ReadWrite | WriteOnly

datatype persistence = Volatile | Nvs | Static

datatype poll_class = Poll_Realtime | Poll_Status | Poll_Config | Poll_OnConnect | Poll_Disabled

fun type_to_string :: "datapoint_type \<Rightarrow> string" where
  "type_to_string T_Bool = ''BOOL''"
| "type_to_string T_U8 = ''U8''"
| "type_to_string T_U16 = ''U16''"
| "type_to_string T_U32 = ''U32''"
| "type_to_string T_U64 = ''U64''"
| "type_to_string T_I8 = ''I8''"
| "type_to_string T_I16 = ''I16''"
| "type_to_string T_I32 = ''I32''"
| "type_to_string T_F32 = ''F32''"
| "type_to_string T_Enum = ''ENUM''"
| "type_to_string T_Str = ''STR''"

fun access_to_string :: "access \<Rightarrow> string" where
  "access_to_string ReadOnly = ''RO''"
| "access_to_string ReadWrite = ''RW''"
| "access_to_string WriteOnly = ''WO''"

fun persistence_to_string :: "persistence \<Rightarrow> string" where
  "persistence_to_string Volatile = ''VOLATILE''"
| "persistence_to_string Nvs = ''NVS''"
| "persistence_to_string Static = ''STATIC''"

fun poll_class_to_string :: "poll_class \<Rightarrow> string" where
  "poll_class_to_string Poll_Realtime = ''Realtime''"
| "poll_class_to_string Poll_Status = ''Status''"
| "poll_class_to_string Poll_Config = ''Config''"
| "poll_class_to_string Poll_OnConnect = ''OnConnect''"
| "poll_class_to_string Poll_Disabled = ''Disabled''"

definition kDatapointStringMax :: nat where
  "kDatapointStringMax = 63"

record datapoint_metadata =
  md_unit :: string
  md_decimals :: int
  md_deadband :: fp
  md_value_map :: string
  md_format :: string

record datapoint_descriptor =
  dd_index :: nat
  dd_name :: string
  dd_type :: datapoint_type
  dd_access :: access
  dd_persistence :: persistence
  dd_nvs_id :: nat
  dd_default :: fp
  dd_min :: fp
  dd_max :: fp
  dd_metadata :: datapoint_metadata
  dd_poll_class :: poll_class

definition writable :: "datapoint_descriptor \<Rightarrow> bool" where
  "writable d \<longleftrightarrow> dd_access d = ReadWrite \<or> dd_access d = WriteOnly"

definition readable :: "datapoint_descriptor \<Rightarrow> bool" where
  "readable d \<longleftrightarrow> dd_access d \<noteq> WriteOnly"

definition numeric :: "datapoint_descriptor \<Rightarrow> bool" where
  "numeric d \<longleftrightarrow> dd_type d \<noteq> T_Bool \<and> dd_type d \<noteq> T_Str \<and> dd_type d \<noteq> T_U64"

text \<open>A typed constant: its C++ value type, its access and persistence, its index and name.\<close>

datatype cpp_type =
  C_bool | C_u8 | C_u16 | C_u32 | C_u64 | C_i8 | C_i16 | C_i32 | C_float | C_string

fun datapoint_value_type :: "datapoint_type \<Rightarrow> cpp_type" where
  "datapoint_value_type T_Bool = C_bool"
| "datapoint_value_type T_U8 = C_u8"
| "datapoint_value_type T_U16 = C_u16"
| "datapoint_value_type T_U32 = C_u32"
| "datapoint_value_type T_U64 = C_u64"
| "datapoint_value_type T_I8 = C_i8"
| "datapoint_value_type T_I16 = C_i16"
| "datapoint_value_type T_I32 = C_i32"
| "datapoint_value_type T_F32 = C_float"
| "datapoint_value_type T_Enum = C_u8"
| "datapoint_value_type T_Str = C_string"

record typed_datapoint =
  td_type :: cpp_type
  td_access :: access
  td_persistence :: persistence
  td_index :: nat
  td_name :: string

section \<open>The table\<close>

definition meta :: "string \<Rightarrow> int \<Rightarrow> fp \<Rightarrow> string \<Rightarrow> string \<Rightarrow> datapoint_metadata" where
  "meta u dec db vm fm =
     \<lparr>md_unit = u, md_decimals = dec, md_deadband = db, md_value_map = vm, md_format = fm\<rparr>"

definition dp :: "nat \<Rightarrow> string \<Rightarrow> datapoint_type \<Rightarrow> access \<Rightarrow> persistence \<Rightarrow> nat \<Rightarrow> fp \<Rightarrow> fp \<Rightarrow> fp \<Rightarrow>
    datapoint_metadata \<Rightarrow> poll_class \<Rightarrow> datapoint_descriptor" where
  "dp i n t a p nvs df mn mx md pc =
     \<lparr>dd_index = i, dd_name = n, dd_type = t, dd_access = a, dd_persistence = p, dd_nvs_id = nvs,
      dd_default = df, dd_min = mn, dd_max = mx, dd_metadata = md, dd_poll_class = pc\<rparr>"

definition typed :: "cpp_type \<Rightarrow> access \<Rightarrow> persistence \<Rightarrow> nat \<Rightarrow> string \<Rightarrow> typed_datapoint" where
  "typed t a p i n =
     \<lparr>td_type = t, td_access = a, td_persistence = p, td_index = i, td_name = n\<rparr>"

definition kDatapointDescriptors_1 :: "datapoint_descriptor list" where
  "kDatapointDescriptors_1 =
    [dp 0 ''Device_Serial_Number'' T_U64 ReadOnly Static 0 (FFin 0) FNaN FNaN
       (meta [] (- 1) (FFin 0) [] []) Poll_OnConnect,
     dp 1 ''Device_HW_Version'' T_Str ReadOnly Static 0 (FFin 0) FNaN FNaN
       (meta [] (- 1) (FFin 0) [] []) Poll_OnConnect,
     dp 2 ''Device_SW_Version'' T_Str ReadOnly Static 0 (FFin 0) FNaN FNaN
       (meta [] (- 1) (FFin 0) [] []) Poll_OnConnect,
     dp 3 ''Device_Build_Version'' T_U64 ReadOnly Static 0 (FFin 0) FNaN FNaN
       (meta [] (- 1) (FFin 0) [] ''datetime'') Poll_OnConnect,
     dp 4 ''System_Temperature'' T_F32 ReadOnly Volatile 0 (FFin 0) FNaN FNaN
       (meta [CHR 0xC2, CHR 0xB0, CHR ''C''] 1 (FFin 1) [] []) Poll_Status,
     dp 5 ''System_Utilization'' T_U8 ReadOnly Volatile 0 (FFin 0) FNaN FNaN
       (meta ''%'' (- 1) (FFin 0) [] []) Poll_Status,
     dp 6 ''System_Memory_Free'' T_U32 ReadOnly Volatile 0 (FFin 0) FNaN FNaN
       (meta ''B'' (- 1) (FFin 0) [] []) Poll_Status,
     dp 7 ''System_Min_Memory_Free'' T_U32 ReadOnly Volatile 0 (FFin 0) FNaN FNaN
       (meta ''B'' (- 1) (FFin 0) [] []) Poll_Status,
     dp 8 ''System_Largest_Free_Block'' T_U32 ReadOnly Volatile 0 (FFin 0) FNaN FNaN
       (meta ''B'' (- 1) (FFin 0) [] []) Poll_Status,
     dp 9 ''System_Flash_Free'' T_U32 ReadOnly Volatile 0 (FFin 0) FNaN FNaN
       (meta ''B'' (- 1) (FFin 0) [] []) Poll_Status,
     dp 10 ''System_RSSI'' T_I8 ReadOnly Volatile 0 (FFin 0) FNaN FNaN
       (meta ''dBm'' (- 1) (FFin 0) [] []) Poll_Status,
     dp 11 ''System_Uptime'' T_U32 ReadOnly Volatile 0 (FFin 0) FNaN FNaN
       (meta ''s'' (- 1) (FFin 0) [] []) Poll_Status,
     dp 12 ''System_Min_Stack_Free'' T_U32 ReadOnly Volatile 0 (FFin 0) FNaN FNaN
       (meta ''B'' (- 1) (FFin 0) [] []) Poll_Status,
     dp 13 ''System_Reconnect_Count'' T_U32 ReadOnly Volatile 0 (FFin 0) FNaN FNaN
       (meta [] (- 1) (FFin 0) [] []) Poll_Status,
     dp 14 ''System_Reset_Reason'' T_Enum ReadOnly Volatile 0 (FFin 0) FNaN FNaN
       (meta [] (- 1) (FFin 0) ''reset'' []) Poll_Status,
     dp 15 ''System_Power_Mode'' T_U8 ReadOnly Volatile 0 (FFin 0) FNaN FNaN
       (meta [] (- 1) (FFin 0) ''power'' []) Poll_Status,
     dp 16 ''System_Event_Drops'' T_U32 ReadOnly Volatile 0 (FFin 0) FNaN FNaN
       (meta [] (- 1) (FFin 0) [] []) Poll_Status,
     dp 17 ''Net_Link_Score'' T_U8 ReadOnly Volatile 0 (FFin 100) FNaN FNaN
       (meta [] (- 1) (FFin 0) [] []) Poll_Status,
     dp 18 ''Net_Link_State'' T_U8 ReadOnly Volatile 0 (FFin 0) FNaN FNaN
       (meta [] (- 1) (FFin 0) ''linkstate'' []) Poll_Status,
     dp 19 ''Net_Session_Drops'' T_U32 ReadOnly Volatile 0 (FFin 0) FNaN FNaN
       (meta [] (- 1) (FFin 0) [] []) Poll_Status,
     dp 20 ''Net_Send_Fail_Count'' T_U32 ReadOnly Volatile 0 (FFin 0) FNaN FNaN
       (meta [] (- 1) (FFin 0) [] []) Poll_Status,
     dp 21 ''Net_Offline_Seconds'' T_U32 ReadOnly Volatile 0 (FFin 0) FNaN FNaN
       (meta ''s'' (- 1) (FFin 0) [] []) Poll_Status,
     dp 22 ''Net_Last_Offline_S'' T_U32 ReadOnly Volatile 0 (FFin 0) FNaN FNaN
       (meta ''s'' (- 1) (FFin 0) [] []) Poll_Status,
     dp 23 ''Ambient_Temperature'' T_F32 ReadOnly Volatile 0 (FFin 0) FNaN FNaN
       (meta [CHR 0xC2, CHR 0xB0, CHR ''C''] 1 (fround64 (2 / 10)) [] []) Poll_Status,
     dp 24 ''Ambient_Humidity'' T_F32 ReadOnly Volatile 0 (FFin 0) FNaN FNaN
       (meta ''%rH'' 1 (FFin 1) [] []) Poll_Status,
     dp 25 ''Fon_Current_Pressure'' T_F32 ReadOnly Volatile 0 (FFin 0) FNaN FNaN
       (meta ''bar'' 2 (fround64 (5 / 100)) [] []) Poll_Realtime,
     dp 26 ''Fon_Sensor_Voltage_mV'' T_U32 ReadOnly Volatile 0 (FFin 0) FNaN FNaN
       (meta ''mV'' (- 1) (FFin 0) [] []) Poll_Status,
     dp 27 ''Fon_Current_State'' T_Enum ReadOnly Volatile 0 (FFin 0) FNaN FNaN
       (meta [] (- 1) (FFin 0) ''state'' []) Poll_Realtime,
     dp 28 ''Fon_Relay_Output'' T_Bool ReadOnly Volatile 0 (FFin 0) FNaN FNaN
       (meta [] (- 1) (FFin 0) ''onoff'' []) Poll_Realtime,
     dp 29 ''Fon_Run_Time'' T_U32 ReadOnly Volatile 0 (FFin 0) FNaN FNaN
       (meta ''s'' (- 1) (FFin 0) [] []) Poll_Realtime,
     dp 30 ''Fon_Cycles_Total'' T_U32 ReadOnly Volatile 0 (FFin 0) FNaN FNaN
       (meta [] (- 1) (FFin 0) [] []) Poll_Status,
     dp 31 ''Fon_Remaining_Time'' T_U32 ReadOnly Volatile 0 (FFin 0) FNaN FNaN
       (meta ''s'' (- 1) (FFin 0) [] []) Poll_Realtime,
     dp 32 ''Fon_Pressure_Filtered'' T_F32 ReadOnly Volatile 0 (FFin 0) FNaN FNaN
       (meta ''bar'' 2 (fround64 (5 / 100)) [] []) Poll_Realtime,
     dp 33 ''Fon_Pressure_Slope'' T_F32 ReadOnly Volatile 0 (FFin 0) FNaN FNaN
       (meta ''bar/s'' 3 (fround64 (1 / 100)) [] []) Poll_Realtime,
     dp 34 ''Fon_Demand_State'' T_Enum ReadOnly Volatile 0 (FFin 0) FNaN FNaN
       (meta [] (- 1) (FFin 0) ''demand'' []) Poll_Realtime,
     dp 35 ''Fon_Anomaly_Score'' T_U16 ReadOnly Volatile 0 (FFin 0) FNaN FNaN
       (meta [] (- 1) (FFin 0) [] []) Poll_Status,
     dp 36 ''Fon_Event_Duration'' T_U32 ReadOnly Volatile 0 (FFin 0) FNaN FNaN
       (meta ''s'' (- 1) (FFin 0) [] []) Poll_Status,
     dp 37 ''Fon_Est_Flow_L_Min'' T_F32 ReadOnly Volatile 0 (FFin 0) FNaN FNaN
       (meta ''l/min'' 1 (fround64 (1 / 10)) [] []) Poll_Status,
     dp 38 ''Fon_Est_Volume_Total'' T_F32 ReadOnly Volatile 0 (FFin 0) FNaN FNaN
       (meta ''l'' 1 (fround64 (5 / 10)) [] []) Poll_Status,
     dp 39 ''Fon_Fault_Code'' T_U8 ReadOnly Volatile 0 (FFin 0) FNaN FNaN
       (meta [] (- 1) (FFin 0) ''fault'' []) Poll_Realtime,
     dp 40 ''Fon_Starts_Per_Hour'' T_U8 ReadOnly Volatile 0 (FFin 0) FNaN FNaN
       (meta ''/h'' (- 1) (FFin 0) [] []) Poll_Status,
     dp 41 ''Fon_Sensor_Err_Count'' T_U32 ReadOnly Volatile 0 (FFin 0) FNaN FNaN
       (meta [] (- 1) (FFin 0) [] []) Poll_Status,
     dp 42 ''Fon_Sensor_Noise_mV'' T_U16 ReadOnly Volatile 0 (FFin 0) FNaN FNaN
       (meta ''mV'' (- 1) (FFin 0) [] []) Poll_Status,
     dp 43 ''Fon_Fault_Ack'' T_U8 ReadWrite Volatile 0 (FFin 0) (FFin 0) (FFin 1)
       (meta [] (- 1) (FFin 0) [] []) Poll_Status,
     dp 44 ''Fon_Event_Label'' T_U8 ReadWrite Volatile 0 (FFin 0) (FFin 0) (FFin 7)
       (meta [] (- 1) (FFin 0) [] []) Poll_Status,
     dp 45 ''Fon_Pressure_Manual'' T_Bool ReadWrite Volatile 0 (FFin 0) FNaN FNaN
       (meta [] (- 1) (FFin 0) ''onoff'' []) Poll_Realtime,
     dp 46 ''Fon_Pressure_Value'' T_F32 ReadWrite Volatile 0 (FFin 0) (FFin 0) (FFin 100)
       (meta ''bar'' 2 (fround64 (5 / 100)) [] []) Poll_Realtime,
     dp 47 ''Fon_Min_Pressure'' T_F32 ReadWrite Nvs 101 (FFin 2) (FFin 0) (FFin 10)
       (meta ''bar'' 2 (FFin 0) [] []) Poll_Config,
     dp 48 ''Fon_Max_Pressure'' T_F32 ReadWrite Nvs 102 (fround64 (35 / 10)) (FFin 0) (FFin 10)
       (meta ''bar'' 2 (FFin 0) [] []) Poll_Config,
     dp 49 ''Fon_Alert_High_Pressure'' T_F32 ReadWrite Nvs 103 (fround64 (45 / 10)) (FFin 0) (FFin 12)
       (meta ''bar'' 2 (FFin 0) [] []) Poll_Config,
     dp 50 ''Fon_Alert_Low_Pressure'' T_F32 ReadWrite Nvs 104 (fround64 (3 / 10)) (FFin 0) (FFin 10)
       (meta ''bar'' 2 (FFin 0) [] []) Poll_Config,
     dp 51 ''Fon_Min_On_Time'' T_U16 ReadWrite Nvs 105 (FFin 30) (FFin 0) (FFin 3600)
       (meta ''s'' (- 1) (FFin 0) [] []) Poll_Config,
     dp 52 ''Fon_Max_On_Time'' T_U16 ReadWrite Nvs 106 (FFin 300) (FFin 10) (FFin 65535)
       (meta ''s'' (- 1) (FFin 0) [] []) Poll_Config,
     dp 53 ''Fon_Dry_Run_Detect_Time'' T_U16 ReadWrite Nvs 107 (FFin 30) (FFin 1) (FFin 3600)
       (meta ''s'' (- 1) (FFin 0) [] []) Poll_Config]"

definition kDatapointDescriptors_2 :: "datapoint_descriptor list" where
  "kDatapointDescriptors_2 =
    [dp 54 ''Fon_Dry_Run_Min_Rise'' T_U16 ReadWrite Nvs 108 (FFin 100) (FFin 0) (FFin 10000)
       (meta [] (- 1) (FFin 0) [] []) Poll_Config,
     dp 55 ''Fon_Check_Valve_Timeout'' T_U16 ReadWrite Nvs 109 (FFin 10) (FFin 1) (FFin 3600)
       (meta ''s'' (- 1) (FFin 0) [] []) Poll_Config,
     dp 56 ''Fon_Pressure_Drop_Rate'' T_U16 ReadWrite Nvs 110 (FFin 500) (FFin 0) (FFin 65535)
       (meta [] (- 1) (FFin 0) [] []) Poll_Config,
     dp 57 ''Fon_Report_Interval'' T_U16 ReadWrite Nvs 111 (FFin 10) (FFin 1) (FFin 3600)
       (meta [] (- 1) (FFin 0) [] []) Poll_Config,
     dp 58 ''Fon_Sensor_Offset'' T_I16 ReadWrite Nvs 112 (FFin 0) (FFin (- 5000)) (FFin 5000)
       (meta [] (- 1) (FFin 0) [] []) Poll_Config,
     dp 59 ''Fon_Sensor_Scale'' T_F32 ReadWrite Nvs 113 (FFin 1) FNaN FNaN
       (meta [] (- 1) (FFin 0) [] []) Poll_Config,
     dp 60 ''Fon_Sensor_Range_Bar'' T_F32 ReadWrite Nvs 114 (fround64 (3447 / 100)) (fround64 (1 / 10)) (FFin 100)
       (meta ''bar'' 2 (FFin 0) [] []) Poll_Config,
     dp 61 ''Fon_Min_Off_Time'' T_U16 ReadWrite Nvs 115 (FFin 30) (FFin 0) (FFin 3600)
       (meta ''s'' (- 1) (FFin 0) [] []) Poll_Config,
     dp 62 ''Fon_Filter_Alpha'' T_F32 ReadWrite Nvs 116 (fround64 (1 / 10)) (fround64 (1 / 100)) (FFin 1)
       (meta [] (- 1) (FFin 0) [] []) Poll_Config,
     dp 63 ''Fon_Stable_Slope'' T_F32 ReadWrite Nvs 117 (fround64 (2 / 100)) (fround64 (1 / 1000)) (FFin 1)
       (meta [] (- 1) (FFin 0) [] []) Poll_Config,
     dp 64 ''Fon_Max_Starts_Per_Hour'' T_U8 ReadWrite Nvs 118 (FFin 10) (FFin 1) (FFin 16)
       (meta [] (- 1) (FFin 0) [] []) Poll_Config,
     dp 65 ''Fon_Hand_Min_Pressure'' T_F32 ReadWrite Nvs 119 (fround64 (17 / 10)) (FFin 0) (FFin 100)
       (meta ''bar'' 2 (FFin 0) [] []) Poll_Config,
     dp 66 ''Fon_Hand_Max_Pressure'' T_F32 ReadWrite Nvs 120 (FFin 2) (FFin 0) (FFin 100)
       (meta ''bar'' 2 (FFin 0) [] []) Poll_Config,
     dp 67 ''Fon_Tank_Min_Pressure'' T_F32 ReadWrite Nvs 121 (fround64 (12 / 10)) (FFin 0) (FFin 100)
       (meta ''bar'' 2 (FFin 0) [] []) Poll_Config,
     dp 68 ''Fon_Tank_Max_Pressure'' T_F32 ReadWrite Nvs 122 (fround64 (16 / 10)) (FFin 0) (FFin 100)
       (meta ''bar'' 2 (FFin 0) [] []) Poll_Config,
     dp 69 ''Fon_Hand_Max_Duration'' T_U16 ReadWrite Nvs 123 (FFin 20) (FFin 1) (FFin 1440)
       (meta ''min'' (- 1) (FFin 0) [] []) Poll_Config,
     dp 70 ''Fon_Tank_Max_Duration'' T_U16 ReadWrite Nvs 124 (FFin 12) (FFin 1) (FFin 1440)
       (meta ''min'' (- 1) (FFin 0) [] []) Poll_Config,
     dp 71 ''Fon_Unknown_Max_Duration'' T_U16 ReadWrite Nvs 125 (FFin 10) (FFin 1) (FFin 1440)
       (meta ''min'' (- 1) (FFin 0) [] []) Poll_Config,
     dp 72 ''Fon_Flow_K_Hand'' T_F32 ReadWrite Nvs 126 (FFin 0) (FFin 0) (FFin 1000)
       (meta [] (- 1) (FFin 0) [] []) Poll_Config,
     dp 73 ''Fon_Flow_K_Tank'' T_F32 ReadWrite Nvs 127 (FFin 0) (FFin 0) (FFin 1000)
       (meta [] (- 1) (FFin 0) [] []) Poll_Config,
     dp 74 ''Network_SSID'' T_Str ReadWrite Nvs 201 (FFin 0) FNaN FNaN
       (meta [] (- 1) (FFin 0) [] []) Poll_Config,
     dp 75 ''Network_Password'' T_Str ReadWrite Nvs 202 (FFin 0) FNaN FNaN
       (meta [] (- 1) (FFin 0) [] []) Poll_Disabled,
     dp 76 ''Network_Server'' T_Str ReadWrite Nvs 203 (FFin 0) FNaN FNaN
       (meta [] (- 1) (FFin 0) [] []) Poll_Config,
     dp 77 ''Network_Server_Port'' T_U16 ReadWrite Nvs 204 (FFin 8443) (FFin 1) (FFin 65535)
       (meta [] (- 1) (FFin 0) [] []) Poll_Config,
     dp 78 ''Network_DHCP'' T_Bool ReadWrite Nvs 205 (FFin 1) FNaN FNaN
       (meta [] (- 1) (FFin 0) ''dhcp'' []) Poll_Config,
     dp 79 ''Network_IP_Address'' T_Str ReadWrite Nvs 206 (FFin 0) FNaN FNaN
       (meta [] (- 1) (FFin 0) [] []) Poll_Config,
     dp 80 ''Network_Subnetmask'' T_Str ReadWrite Nvs 207 (FFin 0) FNaN FNaN
       (meta [] (- 1) (FFin 0) [] []) Poll_Config,
     dp 81 ''Network_Gateway'' T_Str ReadWrite Nvs 208 (FFin 0) FNaN FNaN
       (meta [] (- 1) (FFin 0) [] []) Poll_Config,
     dp 82 ''Net_PS_Override'' T_U8 ReadWrite Nvs 210 (FFin 0) (FFin 0) (FFin 2)
       (meta [] (- 1) (FFin 0) [] []) Poll_Config,
     dp 83 ''Backup_DHCP'' T_Bool ReadOnly Nvs 301 (FFin 1) FNaN FNaN
       (meta [] (- 1) (FFin 0) ''dhcp'' []) Poll_Config,
     dp 84 ''Backup_IP_Address'' T_Str ReadOnly Nvs 302 (FFin 0) FNaN FNaN
       (meta [] (- 1) (FFin 0) [] []) Poll_Config,
     dp 85 ''Backup_Subnetmask'' T_Str ReadOnly Nvs 303 (FFin 0) FNaN FNaN
       (meta [] (- 1) (FFin 0) [] []) Poll_Config,
     dp 86 ''Backup_Gateway'' T_Str ReadOnly Nvs 304 (FFin 0) FNaN FNaN
       (meta [] (- 1) (FFin 0) [] []) Poll_Config,
     dp 87 ''Backup_Server'' T_Str ReadOnly Nvs 305 (FFin 0) FNaN FNaN
       (meta [] (- 1) (FFin 0) [] []) Poll_Config,
     dp 88 ''Backup_Server_Port'' T_U16 ReadOnly Nvs 306 (FFin 8443) FNaN FNaN
       (meta [] (- 1) (FFin 0) [] []) Poll_Config,
     dp 89 ''Backup_SSID'' T_Str ReadOnly Nvs 307 (FFin 0) FNaN FNaN
       (meta [] (- 1) (FFin 0) [] []) Poll_Config,
     dp 90 ''Backup_Password'' T_Str ReadOnly Nvs 308 (FFin 0) FNaN FNaN
       (meta [] (- 1) (FFin 0) [] []) Poll_Disabled,
     dp 91 ''Log_Enabled'' T_Bool ReadWrite Nvs 401 (FFin 1) FNaN FNaN
       (meta [] (- 1) (FFin 0) [] []) Poll_Config,
     dp 92 ''Log_Runtime_Level'' T_U8 ReadWrite Nvs 402 (FFin 3) (FFin 0) (FFin 5)
       (meta [] (- 1) (FFin 0) [] []) Poll_Config,
     dp 93 ''Log_Flash_Level'' T_U8 ReadWrite Nvs 403 (FFin 2) (FFin 0) (FFin 5)
       (meta [] (- 1) (FFin 0) [] []) Poll_Config,
     dp 94 ''Network_Save'' T_U8 ReadWrite Volatile 0 (FFin 0) (FFin 0) (FFin 4)
       (meta [] (- 1) (FFin 0) [] []) Poll_Disabled,
     dp 95 ''Network_Trial_State'' T_U8 ReadOnly Volatile 0 (FFin 0) FNaN FNaN
       (meta [] (- 1) (FFin 0) ''trial'' []) Poll_Config,
     dp 96 ''Log_Next_Seq'' T_U32 ReadOnly Volatile 0 (FFin 0) FNaN FNaN
       (meta [] (- 1) (FFin 0) [] []) Poll_Status,
     dp 97 ''Log_Dropped'' T_U32 ReadOnly Volatile 0 (FFin 0) FNaN FNaN
       (meta [] (- 1) (FFin 0) [] []) Poll_Status,
     dp 98 ''Log_Dropped_Flash'' T_U32 ReadOnly Volatile 0 (FFin 0) FNaN FNaN
       (meta [] (- 1) (FFin 0) [] []) Poll_Status,
     dp 99 ''Log_Prev_Boot_Available'' T_Bool ReadOnly Volatile 0 (FFin 0) FNaN FNaN
       (meta [] (- 1) (FFin 0) [] []) Poll_Status,
     dp 100 ''Log_Command'' T_U8 ReadWrite Volatile 0 (FFin 0) (FFin 0) (FFin 3)
       (meta [] (- 1) (FFin 0) [] []) Poll_Disabled,
     dp 101 ''Pressure_Hist_Next_Seq'' T_U32 ReadOnly Volatile 0 (FFin 0) FNaN FNaN
       (meta [] (- 1) (FFin 0) [] []) Poll_Status,
     dp 102 ''Pressure_Hist_Overwritten'' T_U32 ReadOnly Volatile 0 (FFin 0) FNaN FNaN
       (meta [] (- 1) (FFin 0) [] []) Poll_Status,
     dp 103 ''Pressure_Hist_Highwater'' T_U32 ReadOnly Volatile 0 (FFin 0) FNaN FNaN
       (meta [] (- 1) (FFin 0) [] []) Poll_Status,
     dp 104 ''System_WD_Last_Channel'' T_U8 ReadOnly Volatile 0 (FFin 0) FNaN FNaN
       (meta [] (- 1) (FFin 0) [] []) Poll_Status,
     dp 105 ''System_WD_Last_Checkpoint'' T_U16 ReadOnly Volatile 0 (FFin 0) FNaN FNaN
       (meta [] (- 1) (FFin 0) [] []) Poll_Status,
     dp 106 ''System_WD_Reboot_Count'' T_U8 ReadOnly Volatile 0 (FFin 0) FNaN FNaN
       (meta [] (- 1) (FFin 0) [] []) Poll_Status]"

definition datapoint_ids :: "(string \<times> nat) list" where
  "datapoint_ids =
    [(''Device_Serial_Number'', 0),
     (''Device_HW_Version'', 1),
     (''Device_SW_Version'', 2),
     (''Device_Build_Version'', 3),
     (''System_Temperature'', 4),
     (''System_Utilization'', 5),
     (''System_Memory_Free'', 6),
     (''System_Min_Memory_Free'', 7),
     (''System_Largest_Free_Block'', 8),
     (''System_Flash_Free'', 9),
     (''System_RSSI'', 10),
     (''System_Uptime'', 11),
     (''System_Min_Stack_Free'', 12),
     (''System_Reconnect_Count'', 13),
     (''System_Reset_Reason'', 14),
     (''System_Power_Mode'', 15),
     (''System_Event_Drops'', 16),
     (''Net_Link_Score'', 17),
     (''Net_Link_State'', 18),
     (''Net_Session_Drops'', 19),
     (''Net_Send_Fail_Count'', 20),
     (''Net_Offline_Seconds'', 21),
     (''Net_Last_Offline_S'', 22),
     (''Ambient_Temperature'', 23),
     (''Ambient_Humidity'', 24),
     (''Fon_Current_Pressure'', 25),
     (''Fon_Sensor_Voltage_mV'', 26),
     (''Fon_Current_State'', 27),
     (''Fon_Relay_Output'', 28),
     (''Fon_Run_Time'', 29),
     (''Fon_Cycles_Total'', 30),
     (''Fon_Remaining_Time'', 31),
     (''Fon_Pressure_Filtered'', 32),
     (''Fon_Pressure_Slope'', 33),
     (''Fon_Demand_State'', 34),
     (''Fon_Anomaly_Score'', 35),
     (''Fon_Event_Duration'', 36),
     (''Fon_Est_Flow_L_Min'', 37),
     (''Fon_Est_Volume_Total'', 38),
     (''Fon_Fault_Code'', 39),
     (''Fon_Starts_Per_Hour'', 40),
     (''Fon_Sensor_Err_Count'', 41),
     (''Fon_Sensor_Noise_mV'', 42),
     (''Fon_Fault_Ack'', 43),
     (''Fon_Event_Label'', 44),
     (''Fon_Pressure_Manual'', 45),
     (''Fon_Pressure_Value'', 46),
     (''Fon_Min_Pressure'', 47),
     (''Fon_Max_Pressure'', 48),
     (''Fon_Alert_High_Pressure'', 49),
     (''Fon_Alert_Low_Pressure'', 50),
     (''Fon_Min_On_Time'', 51),
     (''Fon_Max_On_Time'', 52),
     (''Fon_Dry_Run_Detect_Time'', 53),
     (''Fon_Dry_Run_Min_Rise'', 54),
     (''Fon_Check_Valve_Timeout'', 55),
     (''Fon_Pressure_Drop_Rate'', 56),
     (''Fon_Report_Interval'', 57),
     (''Fon_Sensor_Offset'', 58),
     (''Fon_Sensor_Scale'', 59),
     (''Fon_Sensor_Range_Bar'', 60),
     (''Fon_Min_Off_Time'', 61),
     (''Fon_Filter_Alpha'', 62),
     (''Fon_Stable_Slope'', 63),
     (''Fon_Max_Starts_Per_Hour'', 64),
     (''Fon_Hand_Min_Pressure'', 65),
     (''Fon_Hand_Max_Pressure'', 66),
     (''Fon_Tank_Min_Pressure'', 67),
     (''Fon_Tank_Max_Pressure'', 68),
     (''Fon_Hand_Max_Duration'', 69),
     (''Fon_Tank_Max_Duration'', 70),
     (''Fon_Unknown_Max_Duration'', 71),
     (''Fon_Flow_K_Hand'', 72),
     (''Fon_Flow_K_Tank'', 73),
     (''Network_SSID'', 74),
     (''Network_Password'', 75),
     (''Network_Server'', 76),
     (''Network_Server_Port'', 77),
     (''Network_DHCP'', 78),
     (''Network_IP_Address'', 79),
     (''Network_Subnetmask'', 80),
     (''Network_Gateway'', 81),
     (''Net_PS_Override'', 82),
     (''Backup_DHCP'', 83),
     (''Backup_IP_Address'', 84),
     (''Backup_Subnetmask'', 85),
     (''Backup_Gateway'', 86),
     (''Backup_Server'', 87),
     (''Backup_Server_Port'', 88),
     (''Backup_SSID'', 89),
     (''Backup_Password'', 90),
     (''Log_Enabled'', 91),
     (''Log_Runtime_Level'', 92),
     (''Log_Flash_Level'', 93),
     (''Network_Save'', 94),
     (''Network_Trial_State'', 95),
     (''Log_Next_Seq'', 96),
     (''Log_Dropped'', 97),
     (''Log_Dropped_Flash'', 98),
     (''Log_Prev_Boot_Available'', 99),
     (''Log_Command'', 100),
     (''Pressure_Hist_Next_Seq'', 101),
     (''Pressure_Hist_Overwritten'', 102),
     (''Pressure_Hist_Highwater'', 103),
     (''System_WD_Last_Channel'', 104),
     (''System_WD_Last_Checkpoint'', 105),
     (''System_WD_Reboot_Count'', 106)]"

definition typed_datapoints_1 :: "typed_datapoint list" where
  "typed_datapoints_1 =
    [typed C_u64 ReadOnly Static 0 ''Device_Serial_Number'',
     typed C_string ReadOnly Static 1 ''Device_HW_Version'',
     typed C_string ReadOnly Static 2 ''Device_SW_Version'',
     typed C_u64 ReadOnly Static 3 ''Device_Build_Version'',
     typed C_float ReadOnly Volatile 4 ''System_Temperature'',
     typed C_u8 ReadOnly Volatile 5 ''System_Utilization'',
     typed C_u32 ReadOnly Volatile 6 ''System_Memory_Free'',
     typed C_u32 ReadOnly Volatile 7 ''System_Min_Memory_Free'',
     typed C_u32 ReadOnly Volatile 8 ''System_Largest_Free_Block'',
     typed C_u32 ReadOnly Volatile 9 ''System_Flash_Free'',
     typed C_i8 ReadOnly Volatile 10 ''System_RSSI'',
     typed C_u32 ReadOnly Volatile 11 ''System_Uptime'',
     typed C_u32 ReadOnly Volatile 12 ''System_Min_Stack_Free'',
     typed C_u32 ReadOnly Volatile 13 ''System_Reconnect_Count'',
     typed C_u8 ReadOnly Volatile 14 ''System_Reset_Reason'',
     typed C_u8 ReadOnly Volatile 15 ''System_Power_Mode'',
     typed C_u32 ReadOnly Volatile 16 ''System_Event_Drops'',
     typed C_u8 ReadOnly Volatile 17 ''Net_Link_Score'',
     typed C_u8 ReadOnly Volatile 18 ''Net_Link_State'',
     typed C_u32 ReadOnly Volatile 19 ''Net_Session_Drops'',
     typed C_u32 ReadOnly Volatile 20 ''Net_Send_Fail_Count'',
     typed C_u32 ReadOnly Volatile 21 ''Net_Offline_Seconds'',
     typed C_u32 ReadOnly Volatile 22 ''Net_Last_Offline_S'',
     typed C_float ReadOnly Volatile 23 ''Ambient_Temperature'',
     typed C_float ReadOnly Volatile 24 ''Ambient_Humidity'',
     typed C_float ReadOnly Volatile 25 ''Fon_Current_Pressure'',
     typed C_u32 ReadOnly Volatile 26 ''Fon_Sensor_Voltage_mV'',
     typed C_u8 ReadOnly Volatile 27 ''Fon_Current_State'',
     typed C_bool ReadOnly Volatile 28 ''Fon_Relay_Output'',
     typed C_u32 ReadOnly Volatile 29 ''Fon_Run_Time'',
     typed C_u32 ReadOnly Volatile 30 ''Fon_Cycles_Total'',
     typed C_u32 ReadOnly Volatile 31 ''Fon_Remaining_Time'',
     typed C_float ReadOnly Volatile 32 ''Fon_Pressure_Filtered'',
     typed C_float ReadOnly Volatile 33 ''Fon_Pressure_Slope'',
     typed C_u8 ReadOnly Volatile 34 ''Fon_Demand_State'',
     typed C_u16 ReadOnly Volatile 35 ''Fon_Anomaly_Score'',
     typed C_u32 ReadOnly Volatile 36 ''Fon_Event_Duration'',
     typed C_float ReadOnly Volatile 37 ''Fon_Est_Flow_L_Min'',
     typed C_float ReadOnly Volatile 38 ''Fon_Est_Volume_Total'',
     typed C_u8 ReadOnly Volatile 39 ''Fon_Fault_Code'',
     typed C_u8 ReadOnly Volatile 40 ''Fon_Starts_Per_Hour'',
     typed C_u32 ReadOnly Volatile 41 ''Fon_Sensor_Err_Count'',
     typed C_u16 ReadOnly Volatile 42 ''Fon_Sensor_Noise_mV'',
     typed C_u8 ReadWrite Volatile 43 ''Fon_Fault_Ack'',
     typed C_u8 ReadWrite Volatile 44 ''Fon_Event_Label'',
     typed C_bool ReadWrite Volatile 45 ''Fon_Pressure_Manual'',
     typed C_float ReadWrite Volatile 46 ''Fon_Pressure_Value'',
     typed C_float ReadWrite Nvs 47 ''Fon_Min_Pressure'',
     typed C_float ReadWrite Nvs 48 ''Fon_Max_Pressure'',
     typed C_float ReadWrite Nvs 49 ''Fon_Alert_High_Pressure'',
     typed C_float ReadWrite Nvs 50 ''Fon_Alert_Low_Pressure'',
     typed C_u16 ReadWrite Nvs 51 ''Fon_Min_On_Time'',
     typed C_u16 ReadWrite Nvs 52 ''Fon_Max_On_Time'',
     typed C_u16 ReadWrite Nvs 53 ''Fon_Dry_Run_Detect_Time'']"

definition typed_datapoints_2 :: "typed_datapoint list" where
  "typed_datapoints_2 =
    [typed C_u16 ReadWrite Nvs 54 ''Fon_Dry_Run_Min_Rise'',
     typed C_u16 ReadWrite Nvs 55 ''Fon_Check_Valve_Timeout'',
     typed C_u16 ReadWrite Nvs 56 ''Fon_Pressure_Drop_Rate'',
     typed C_u16 ReadWrite Nvs 57 ''Fon_Report_Interval'',
     typed C_i16 ReadWrite Nvs 58 ''Fon_Sensor_Offset'',
     typed C_float ReadWrite Nvs 59 ''Fon_Sensor_Scale'',
     typed C_float ReadWrite Nvs 60 ''Fon_Sensor_Range_Bar'',
     typed C_u16 ReadWrite Nvs 61 ''Fon_Min_Off_Time'',
     typed C_float ReadWrite Nvs 62 ''Fon_Filter_Alpha'',
     typed C_float ReadWrite Nvs 63 ''Fon_Stable_Slope'',
     typed C_u8 ReadWrite Nvs 64 ''Fon_Max_Starts_Per_Hour'',
     typed C_float ReadWrite Nvs 65 ''Fon_Hand_Min_Pressure'',
     typed C_float ReadWrite Nvs 66 ''Fon_Hand_Max_Pressure'',
     typed C_float ReadWrite Nvs 67 ''Fon_Tank_Min_Pressure'',
     typed C_float ReadWrite Nvs 68 ''Fon_Tank_Max_Pressure'',
     typed C_u16 ReadWrite Nvs 69 ''Fon_Hand_Max_Duration'',
     typed C_u16 ReadWrite Nvs 70 ''Fon_Tank_Max_Duration'',
     typed C_u16 ReadWrite Nvs 71 ''Fon_Unknown_Max_Duration'',
     typed C_float ReadWrite Nvs 72 ''Fon_Flow_K_Hand'',
     typed C_float ReadWrite Nvs 73 ''Fon_Flow_K_Tank'',
     typed C_string ReadWrite Nvs 74 ''Network_SSID'',
     typed C_string ReadWrite Nvs 75 ''Network_Password'',
     typed C_string ReadWrite Nvs 76 ''Network_Server'',
     typed C_u16 ReadWrite Nvs 77 ''Network_Server_Port'',
     typed C_bool ReadWrite Nvs 78 ''Network_DHCP'',
     typed C_string ReadWrite Nvs 79 ''Network_IP_Address'',
     typed C_string ReadWrite Nvs 80 ''Network_Subnetmask'',
     typed C_string ReadWrite Nvs 81 ''Network_Gateway'',
     typed C_u8 ReadWrite Nvs 82 ''Net_PS_Override'',
     typed C_bool ReadOnly Nvs 83 ''Backup_DHCP'',
     typed C_string ReadOnly Nvs 84 ''Backup_IP_Address'',
     typed C_string ReadOnly Nvs 85 ''Backup_Subnetmask'',
     typed C_string ReadOnly Nvs 86 ''Backup_Gateway'',
     typed C_string ReadOnly Nvs 87 ''Backup_Server'',
     typed C_u16 ReadOnly Nvs 88 ''Backup_Server_Port'',
     typed C_string ReadOnly Nvs 89 ''Backup_SSID'',
     typed C_string ReadOnly Nvs 90 ''Backup_Password'',
     typed C_bool ReadWrite Nvs 91 ''Log_Enabled'',
     typed C_u8 ReadWrite Nvs 92 ''Log_Runtime_Level'',
     typed C_u8 ReadWrite Nvs 93 ''Log_Flash_Level'',
     typed C_u8 ReadWrite Volatile 94 ''Network_Save'',
     typed C_u8 ReadOnly Volatile 95 ''Network_Trial_State'',
     typed C_u32 ReadOnly Volatile 96 ''Log_Next_Seq'',
     typed C_u32 ReadOnly Volatile 97 ''Log_Dropped'',
     typed C_u32 ReadOnly Volatile 98 ''Log_Dropped_Flash'',
     typed C_bool ReadOnly Volatile 99 ''Log_Prev_Boot_Available'',
     typed C_u8 ReadWrite Volatile 100 ''Log_Command'',
     typed C_u32 ReadOnly Volatile 101 ''Pressure_Hist_Next_Seq'',
     typed C_u32 ReadOnly Volatile 102 ''Pressure_Hist_Overwritten'',
     typed C_u32 ReadOnly Volatile 103 ''Pressure_Hist_Highwater'',
     typed C_u8 ReadOnly Volatile 104 ''System_WD_Last_Channel'',
     typed C_u16 ReadOnly Volatile 105 ''System_WD_Last_Checkpoint'',
     typed C_u8 ReadOnly Volatile 106 ''System_WD_Reboot_Count'']"

definition kDatapointDescriptors :: "datapoint_descriptor list" where
  "kDatapointDescriptors = kDatapointDescriptors_1 @ kDatapointDescriptors_2"

definition typed_datapoints :: "typed_datapoint list" where
  "typed_datapoints = typed_datapoints_1 @ typed_datapoints_2"

definition kDatapointCount :: nat where
  "kDatapointCount = 107"

section \<open>Look-up\<close>

text \<open>The name index keeps the first descriptor of a name (\<open>emplace\<close>).\<close>

definition catalog_find :: "string \<Rightarrow> datapoint_descriptor option" where
  "catalog_find n = List.find (\<lambda>d. dd_name d = n) kDatapointDescriptors"

text \<open>\<open>std::array::at\<close> throws out of range.\<close>

definition catalog_at :: "nat \<Rightarrow> datapoint_descriptor exec" where
  "catalog_at i = (if i < length kDatapointDescriptors then Inr (kDatapointDescriptors ! i)
                   else Inl (Runtime_error ''array::at''))"

definition all_names :: "string list" where
  "all_names = map dd_name (filter (\<lambda>d. True) kDatapointDescriptors)"

definition names_with_access :: "access \<Rightarrow> string list" where
  "names_with_access a = map dd_name (filter (\<lambda>d. dd_access d = a) kDatapointDescriptors)"

definition names_with_persistence :: "persistence \<Rightarrow> string list" where
  "names_with_persistence p = map dd_name (filter (\<lambda>d. dd_persistence d = p) kDatapointDescriptors)"

definition names_with_poll_class :: "poll_class \<Rightarrow> string list" where
  "names_with_poll_class p = map dd_name (filter (\<lambda>d. dd_poll_class d = p) kDatapointDescriptors)"

section \<open>Consistency of the tables\<close>

lemma dp_sel [simp]:
  "dd_index (dp i n t a p nvs df mn mx md pc) = i" "dd_name (dp i n t a p nvs df mn mx md pc) = n"
  "dd_type (dp i n t a p nvs df mn mx md pc) = t" "dd_access (dp i n t a p nvs df mn mx md pc) = a"
  "dd_persistence (dp i n t a p nvs df mn mx md pc) = p" "dd_min (dp i n t a p nvs df mn mx md pc) = mn"
  "dd_max (dp i n t a p nvs df mn mx md pc) = mx" "dd_poll_class (dp i n t a p nvs df mn mx md pc) = pc"
  by (simp_all add: dp_def)

lemmas catalog_defs = kDatapointDescriptors_def kDatapointDescriptors_1_def kDatapointDescriptors_2_def

lemma catalog_ids: "datapoint_ids = map (\<lambda>d. (dd_name d, dd_index d)) kDatapointDescriptors"
  by (simp add: catalog_defs datapoint_ids_def)

lemma catalog_indices: "map dd_index kDatapointDescriptors = [0..<107]"
proof -
  have "map snd datapoint_ids = [0..<107]" by code_simp
  then show ?thesis by (simp add: catalog_ids comp_def)
qed

lemma catalog_length: "length kDatapointDescriptors = 107"
  using arg_cong [OF catalog_indices, of length] by simp

lemma catalog_names_distinct: "distinct (map dd_name kDatapointDescriptors)"
proof -
  have "distinct (map fst datapoint_ids)" by code_simp
  then show ?thesis by (simp add: catalog_ids comp_def)
qed

lemma catalog_typed:
  "typed_datapoints =
     map (\<lambda>d. typed (datapoint_value_type (dd_type d)) (dd_access d) (dd_persistence d) (dd_index d) (dd_name d))
       kDatapointDescriptors"
  by (simp add: catalog_defs typed_datapoints_def typed_datapoints_1_def typed_datapoints_2_def)

lemma find_distinct:
  assumes "distinct (map f xs)" and "x \<in> set xs"
  shows "List.find (\<lambda>y. f y = f x) xs = Some x"
  using assms by (induction xs) (auto simp: image_iff)

lemma catalog_find_member: "d \<in> set kDatapointDescriptors \<Longrightarrow> catalog_find (dd_name d) = Some d"
  unfolding catalog_find_def by (rule find_distinct [OF catalog_names_distinct])

lemma catalog_find_sound:
  "catalog_find n = Some d \<Longrightarrow> d \<in> set kDatapointDescriptors \<and> dd_name d = n"
  by (auto simp: catalog_find_def find_Some_iff)

lemma catalog_bounds:
  assumes "d \<in> set kDatapointDescriptors" and "dd_min d \<noteq> FNaN" and "dd_max d \<noteq> FNaN"
  shows "fle (to_float (dd_min d)) (to_float (dd_max d))"
proof -
  have "fle (fround64 (1 / 10)) (FFin 100)" "fle (fround64 (1 / 100)) (FFin 1)" "fle (fround64 (1 / 1000)) (FFin 1)"
    using fround64_le_int [of "1 / 10" 100] fround64_le_int [of "1 / 100" 1] fround64_le_int [of "1 / 1000" 1]
    by simp_all
  then have "list_all (\<lambda>d. dd_min d = FNaN \<or> dd_max d = FNaN \<or> fle (dd_min d) (dd_max d)) kDatapointDescriptors"
    by (simp add: catalog_defs) (simp add: fle_def)
  with assms show ?thesis by (auto simp: list_all_iff intro: to_float_mono)
qed

text \<open>
  The generated tables agree: there are 107 descriptors, each at the position its index says and
  each found under its own name; the id enumeration and the typed constants name the same datapoints
  at the same positions, and a typed constant has the value type, access and persistence of its
  descriptor; lower bounds are not above upper bounds.
\<close>

theorem catalog_consistent:
  "length kDatapointDescriptors = kDatapointCount \<and>
   (\<forall>i < kDatapointCount. \<exists>d. catalog_at i = Inr d \<and> dd_index d = i \<and> catalog_find (dd_name d) = Some d \<and>
      datapoint_ids ! i = (dd_name d, i) \<and>
      typed_datapoints ! i =
        typed (datapoint_value_type (dd_type d)) (dd_access d) (dd_persistence d) i (dd_name d) \<and>
      (dd_min d = FNaN \<or> dd_max d = FNaN \<or> fle (to_float (dd_min d)) (to_float (dd_max d))))"
proof -
  have "\<exists>d. catalog_at i = Inr d \<and> dd_index d = i \<and> catalog_find (dd_name d) = Some d \<and>
      datapoint_ids ! i = (dd_name d, i) \<and>
      typed_datapoints ! i =
        typed (datapoint_value_type (dd_type d)) (dd_access d) (dd_persistence d) i (dd_name d) \<and>
      (dd_min d = FNaN \<or> dd_max d = FNaN \<or> fle (to_float (dd_min d)) (to_float (dd_max d)))"
    if i: "i < 107" for i
  proof -
    let ?d = "kDatapointDescriptors ! i"
    have len: "i < length kDatapointDescriptors" using i by (simp add: catalog_length)
    have ix: "dd_index ?d = i"
      using arg_cong [OF catalog_indices, of "\<lambda>xs. xs ! i"] len i by simp
    have mem: "?d \<in> set kDatapointDescriptors" using len by simp
    show ?thesis
      using len ix catalog_find_member [OF mem] catalog_bounds [OF mem]
      by (intro exI [of _ ?d]) (auto simp: catalog_at_def catalog_ids catalog_typed)
  qed
  then show ?thesis by (simp add: catalog_length kDatapointCount_def)
qed

theorem catalog_consistent_witness:
  "\<exists>d. catalog_at 28 = Inr d \<and> catalog_find (dd_name d) = Some d \<and> datapoint_ids ! 28 = (dd_name d, 28)"
proof -
  have "28 < kDatapointCount" by (simp add: kDatapointCount_def)
  with catalog_consistent show ?thesis by blast
qed

end
