(* ===== verification/Json.thy ===== *)
theory Json
  imports Ieee
begin

text \<open>
  JSON values with the kinds of the library the sources use (\<open>nlohmann::json\<close>, whose kinds
  \<open>canonical.cpp\<close> switches over) and the accessors the sources call, as documented: an object is
  an ordered map, \<open>value(key, default)\<close> converts a present member and throws when its kind does not
  fit (id 302) or when the receiver is no object (id 306), \<open>is_number_integer()\<close> holds for both
  integer kinds. Parsing and printing text are parameters of the definitions that use them; so is the
  conversion of a floating-point member to an integer (\<open>fc\<close>), which C++ leaves undefined out of range.
\<close>

datatype json =
    JNull
  | JBool bool
  | JInt int
  | JUInt nat
  | JFloat fp
  | JStr string
  | JArr "json list"
  | JObj "(string \<times> json) list"
  | JBinary string
  | JDiscarded

type_synonym jobj = "(string, json) omap"

section \<open>Well-formed values\<close>

text \<open>
  The invariant of the library's representation: integers in the range of their 64-bit kind,
  object members in ascending order of their keys.
\<close>

fun json_ok :: "json \<Rightarrow> bool" where
  "json_ok (JInt i) \<longleftrightarrow> - (2 ^ 63) \<le> i \<and> i < 2 ^ 63"
| "json_ok (JUInt n) \<longleftrightarrow> n < 2 ^ 64"
| "json_ok (JArr xs) \<longleftrightarrow> (\<forall>x \<in> set xs. json_ok x)"
| "json_ok (JObj m) \<longleftrightarrow> omap_ok m \<and> (\<forall>x \<in> snd ` set m. json_ok x)"
| "json_ok _ \<longleftrightarrow> True"

section \<open>Kinds\<close>

fun is_object :: "json \<Rightarrow> bool" where
  "is_object (JObj m) = True" | "is_object _ = False"

fun is_string :: "json \<Rightarrow> bool" where
  "is_string (JStr s) = True" | "is_string _ = False"

fun is_number_integer :: "json \<Rightarrow> bool" where
  "is_number_integer (JInt i) = True" | "is_number_integer (JUInt n) = True"
| "is_number_integer _ = False"

fun is_number_unsigned :: "json \<Rightarrow> bool" where
  "is_number_unsigned (JUInt n) = True" | "is_number_unsigned _ = False"

fun is_number :: "json \<Rightarrow> bool" where
  "is_number (JInt i) = True" | "is_number (JUInt n) = True" | "is_number (JFloat f) = True"
| "is_number _ = False"

section \<open>Members\<close>

fun json_find :: "json \<Rightarrow> string \<Rightarrow> json option" where
  "json_find (JObj m) k = map_of m k"
| "json_find _ k = None"

definition json_contains :: "json \<Rightarrow> string \<Rightarrow> bool" where
  "json_contains j k \<longleftrightarrow> json_find j k \<noteq> None"

fun json_value :: "(json \<Rightarrow> 'a exec) \<Rightarrow> json \<Rightarrow> string \<Rightarrow> 'a \<Rightarrow> 'a exec" where
  "json_value g (JObj m) k d = (case map_of m k of None \<Rightarrow> Inr d | Some v \<Rightarrow> g v)"
| "json_value g _ k d = Inl (Json_error 306)"

text \<open>Range-for over a value: the elements of an array, the members of an object, nothing for null.\<close>

fun json_elements :: "json \<Rightarrow> json list" where
  "json_elements (JArr xs) = xs"
| "json_elements (JObj m) = map snd m"
| "json_elements JNull = []"
| "json_elements JDiscarded = []"
| "json_elements v = [v]"

section \<open>Conversions\<close>

fun get_string :: "json \<Rightarrow> string exec" where
  "get_string (JStr s) = Inr s" | "get_string _ = Inl (Json_error 302)"

fun get_bool :: "json \<Rightarrow> bool exec" where
  "get_bool (JBool b) = Inr b" | "get_bool _ = Inl (Json_error 302)"

definition get_json :: "json \<Rightarrow> json exec" where
  "get_json j = Inr j"

definition wrap_i64 :: "int \<Rightarrow> int" where
  "wrap_i64 i = (i + 2 ^ 63) mod 2 ^ 64 - 2 ^ 63"

text \<open>\<open>get<std::int64_t>()\<close>; a number of another kind is cast.\<close>

fun get_i64 :: "(fp \<Rightarrow> int) \<Rightarrow> json \<Rightarrow> int exec" where
  "get_i64 fc (JInt i) = Inr i"
| "get_i64 fc (JUInt n) = Inr (wrap_i64 (int n))"
| "get_i64 fc (JFloat f) = Inr (wrap_i64 (fc f))"
| "get_i64 fc _ = Inl (Json_error 302)"

text \<open>The other arithmetic types also accept a boolean; the caller narrows to the width it asks for.\<close>

fun get_arith :: "(fp \<Rightarrow> int) \<Rightarrow> json \<Rightarrow> int exec" where
  "get_arith fc (JBool b) = Inr (of_bool b)"
| "get_arith fc (JInt i) = Inr i"
| "get_arith fc (JUInt n) = Inr (int n)"
| "get_arith fc (JFloat f) = Inr (fc f)"
| "get_arith fc _ = Inl (Json_error 302)"

definition get_word :: "(fp \<Rightarrow> int) \<Rightarrow> json \<Rightarrow> ('w::len word) exec" where
  "get_word fc j = bindE (get_arith fc j) (\<lambda>i. Inr (word_of_int i))"

fun get_double :: "json \<Rightarrow> fp exec" where
  "get_double (JInt i) = Inr (fp_of_int i)"
| "get_double (JUInt n) = Inr (fp_of_int (int n))"
| "get_double (JFloat f) = Inr f"
| "get_double _ = Inl (Json_error 302)"

fun get_float :: "json \<Rightarrow> fp exec" where
  "get_float (JBool b) = Inr (FFin (of_bool b))"
| "get_float (JInt i) = Inr (fround32 (of_int i))"
| "get_float (JUInt n) = Inr (fround32 (of_nat n))"
| "get_float (JFloat f) = Inr (to_float f)"
| "get_float _ = Inl (Json_error 302)"

section \<open>Laws of the accessors\<close>

lemma wrap_i64_id [simp]: "- (2 ^ 63) \<le> i \<Longrightarrow> i < 2 ^ 63 \<Longrightarrow> wrap_i64 i = i"
  by (simp add: wrap_i64_def)

lemma wrap_i64_range: "- (2 ^ 63) \<le> wrap_i64 i \<and> wrap_i64 i < 2 ^ 63"
proof -
  have "0 \<le> (i + 2 ^ 63) mod 2 ^ 64" and "(i + 2 ^ 63) mod 2 ^ 64 < 2 ^ 64"
    by simp_all
  then show ?thesis by (simp add: wrap_i64_def)
qed

lemma json_value_absent:
  "is_object j \<Longrightarrow> json_find j k = None \<Longrightarrow> json_value g j k d = Inr d"
  by (cases j) auto

lemma json_value_present:
  "is_object j \<Longrightarrow> json_find j k = Some v \<Longrightarrow> json_value g j k d = g v"
  by (cases j) auto

lemma json_value_get_json [simp]:
  "is_object j \<Longrightarrow> json_value get_json j k d = Inr (case json_find j k of None \<Rightarrow> d | Some v \<Rightarrow> v)"
  by (cases j) (auto simp: get_json_def split: option.splits)

lemma json_value_string_total:
  assumes "is_object j" and "\<forall>v. json_find j k = Some v \<longrightarrow> is_string v"
  shows "\<exists>s. json_value get_string j k d = Inr s"
  using assms
proof (cases "json_find j k")
  case None
  then show ?thesis using assms(1) by (simp add: json_value_absent)
next
  case (Some v)
  with assms have "is_string v" by simp
  then obtain s where "v = JStr s" by (cases v) auto
  then show ?thesis using assms(1) Some by (simp add: json_value_present)
qed

lemma is_object_iff: "is_object j \<longleftrightarrow> (\<exists>m. j = JObj m)"
  by (cases j) auto

lemma is_string_iff: "is_string j \<longleftrightarrow> (\<exists>s. j = JStr s)"
  by (cases j) auto

end
