(* ===== verification/Codec.thy ===== *)
theory Codec
  imports Catalog Json
begin

text \<open>
  The value codec (\<open>datapoints/codec.hpp\<close>, \<open>datapoints/codec.cpp\<close>): dynamic values, their JSON form,
  range and length checks, and the display text. A signed alternative is a word read with \<open>sint\<close>.
  \<open>strtoull\<close> and the \<open>%f\<close> and \<open>%016llX\<close> conversions are the C library's, written out.
\<close>

section \<open>Values\<close>

datatype datapoint_value =
    VBool bool
  | VU8 "8 word"
  | VU16 "16 word"
  | VU32 "32 word"
  | VU64 "64 word"
  | VI8 "8 word"
  | VI16 "16 word"
  | VI32 "32 word"
  | VF32 fp
  | VStr string

fun value_index :: "datapoint_value \<Rightarrow> nat" where
  "value_index (VBool _) = 0"
| "value_index (VU8 _) = 1"
| "value_index (VU16 _) = 2"
| "value_index (VU32 _) = 3"
| "value_index (VU64 _) = 4"
| "value_index (VI8 _) = 5"
| "value_index (VI16 _) = 6"
| "value_index (VI32 _) = 7"
| "value_index (VF32 _) = 8"
| "value_index (VStr _) = 9"

fun value_index_for :: "datapoint_type \<Rightarrow> nat" where
  "value_index_for T_Bool = 0"
| "value_index_for T_U8 = 1"
| "value_index_for T_Enum = 1"
| "value_index_for T_U16 = 2"
| "value_index_for T_U32 = 3"
| "value_index_for T_U64 = 4"
| "value_index_for T_I8 = 5"
| "value_index_for T_I16 = 6"
| "value_index_for T_I32 = 7"
| "value_index_for T_F32 = 8"
| "value_index_for T_Str = 9"

text \<open>The numeric value of an alternative; a float is its own value.\<close>

fun value_double :: "datapoint_value \<Rightarrow> fp" where
  "value_double (VBool b) = FFin (of_bool b)"
| "value_double (VU8 w) = fp_of_int (uint w)"
| "value_double (VU16 w) = fp_of_int (uint w)"
| "value_double (VU32 w) = fp_of_int (uint w)"
| "value_double (VU64 w) = fp_of_int (uint w)"
| "value_double (VI8 w) = fp_of_int (sint w)"
| "value_double (VI16 w) = fp_of_int (sint w)"
| "value_double (VI32 w) = fp_of_int (sint w)"
| "value_double (VF32 f) = f"
| "value_double (VStr s) = FFin 0"

section \<open>C library conversions\<close>

text \<open>\<open>printf("%.*f")\<close> in the default rounding mode.\<close>

definition pad_zeros :: "nat \<Rightarrow> string \<Rightarrow> string" where
  "pad_zeros n s = replicate (n - length s) (CHR ''0'') @ s"

definition fixed_string :: "nat \<Rightarrow> fp \<Rightarrow> string" where
  "fixed_string decimals f =
    (case f of
       FNaN \<Rightarrow> ''nan''
     | FInf neg \<Rightarrow> (if neg then ''-inf'' else ''inf'')
     | FFin x \<Rightarrow>
        (let n = nat (rne (\<bar>x\<bar> * 10 ^ decimals)) in
         (if x < 0 then ''-'' else []) @ nat_dec (n div 10 ^ decimals) @
         (if decimals = 0 then [] else CHR ''.'' # pad_zeros decimals (nat_dec (n mod 10 ^ decimals)))))"

definition hex_upper :: "nat \<Rightarrow> char" where
  "hex_upper d = (if d < 10 then char_of (48 + d) else char_of (55 + d))"

fun hex_upper_digits :: "nat \<Rightarrow> nat \<Rightarrow> string" where
  "hex_upper_digits 0 n = []"
| "hex_upper_digits (Suc k) n = hex_upper_digits k (n div 16) @ [hex_upper (n mod 16)]"

definition format_u64 :: "64 word \<Rightarrow> string" where
  "format_u64 w = hex_upper_digits 16 (unat w)"

definition hex_val :: "char \<Rightarrow> nat option" where
  "hex_val c = (let n = (of_char c :: nat) in
     if 48 \<le> n \<and> n \<le> 57 then Some (n - 48)
     else if 97 \<le> n \<and> n \<le> 102 then Some (n - 87)
     else if 65 \<le> n \<and> n \<le> 70 then Some (n - 55)
     else None)"

fun hex_run :: "nat \<Rightarrow> string \<Rightarrow> nat \<times> string" where
  "hex_run a [] = (a, [])"
| "hex_run a (c # cs) = (case hex_val c of None \<Rightarrow> (a, c # cs) | Some d \<Rightarrow> hex_run (16 * a + d) cs)"

text \<open>
  \<open>strtoull(text, &end, 16)\<close>: white space, an optional sign, an optional prefix \<open>0x\<close> before a digit,
  then digits. The result is the value and the rest, \<open>None\<close> when no digit was found; a value that does
  not fit is reported with \<open>ERANGE\<close> (the flag). A sign negates modulo \<open>2\<^sup>6\<^sup>4\<close>.
\<close>

definition skip_prefix :: "string \<Rightarrow> string" where
  "skip_prefix s =
    (case s of
       z # x # d # r \<Rightarrow>
         (if z = CHR ''0'' \<and> (x = CHR ''x'' \<or> x = CHR ''X'') \<and> hex_val d \<noteq> None then d # r else s)
     | _ \<Rightarrow> s)"

definition skip_sign :: "string \<Rightarrow> bool \<times> string" where
  "skip_sign s =
    (case s of c # r \<Rightarrow> (if c = CHR ''-'' then (True, r) else if c = CHR ''+'' then (False, r) else (False, s))
     | [] \<Rightarrow> (False, []))"

definition strtoull16 :: "string \<Rightarrow> (64 word \<times> bool \<times> string) option" where
  "strtoull16 text =
    (let (neg, s1) = skip_sign (dropWhile isspace text);
         s2 = skip_prefix s1
     in case s2 of
          [] \<Rightarrow> None
        | c # _ \<Rightarrow>
           (if hex_val c = None then None
            else let (n, rest) = hex_run 0 s2 in
              Some (if 2 ^ 64 \<le> n then - 1 else if neg then - of_nat n else of_nat n, 2 ^ 64 \<le> n, rest)))"

section \<open>Parsing and printing\<close>

definition type_mismatch :: "datapoint_descriptor \<Rightarrow> string \<Rightarrow> error" where
  "type_mismatch d detail = validation_error TypeMismatch (dd_name d @ '': '' @ detail) (dd_name d)"

text \<open>The text is read as a C string, up to its first NUL.\<close>

definition parse_u64 :: "datapoint_descriptor \<Rightarrow> string \<Rightarrow> 64 word result" where
  "parse_u64 d text =
    (let e = Inl (type_mismatch d (''not a 64-bit hex value: '' @ CHR 0x27 # text @ [CHR 0x27])) in
     case strtoull16 (takeWhile (\<lambda>c. c \<noteq> CHR 0x00) text) of
       None \<Rightarrow> e
     | Some (v, erange, rest) \<Rightarrow> if rest \<noteq> [] \<or> erange then e else Inr v)"

definition narrow ::
  "datapoint_descriptor \<Rightarrow> int \<Rightarrow> int \<Rightarrow> (int \<Rightarrow> datapoint_value) \<Rightarrow> fp \<Rightarrow> datapoint_value result" where
  "narrow d lo hi mk number =
    (case number of
       FFin x \<Rightarrow>
         (let rounded = rne x in
          if rounded < lo \<or> hi < rounded
          then Inl (validation_error OutOfRange
                 (dd_name d @ '': '' @ fixed_string 6 number @ '' does not fit into '' @ type_to_string (dd_type d))
                 (dd_name d))
          else Inr (mk rounded))
     | _ \<Rightarrow> Inl (type_mismatch d ''value is not finite''))"

definition value_from_json :: "datapoint_descriptor \<Rightarrow> json \<Rightarrow> datapoint_value result" where
  "value_from_json d j =
    (case dd_type d of
       T_Bool \<Rightarrow> (case j of JBool b \<Rightarrow> Inr (VBool b) | _ \<Rightarrow> Inl (type_mismatch d ''expected bool''))
     | T_Str \<Rightarrow> (case j of JStr s \<Rightarrow> Inr (VStr s) | _ \<Rightarrow> Inl (type_mismatch d ''expected string''))
     | T_U64 \<Rightarrow>
        (case j of
           JStr s \<Rightarrow> (case parse_u64 d s of Inl e \<Rightarrow> Inl e | Inr w \<Rightarrow> Inr (VU64 w))
         | _ \<Rightarrow> Inl (type_mismatch d ''expected hex string (U64)''))
     | ty \<Rightarrow>
        (case get_double j of
           Inl _ \<Rightarrow> Inl (type_mismatch d ''expected number'')
         | Inr number \<Rightarrow>
            (case ty of
               T_U8 \<Rightarrow> narrow d 0 255 (\<lambda>i. VU8 (word_of_int i)) number
             | T_Enum \<Rightarrow> narrow d 0 255 (\<lambda>i. VU8 (word_of_int i)) number
             | T_U16 \<Rightarrow> narrow d 0 65535 (\<lambda>i. VU16 (word_of_int i)) number
             | T_U32 \<Rightarrow> narrow d 0 4294967295 (\<lambda>i. VU32 (word_of_int i)) number
             | T_I8 \<Rightarrow> narrow d (- 128) 127 (\<lambda>i. VI8 (word_of_int i)) number
             | T_I16 \<Rightarrow> narrow d (- 32768) 32767 (\<lambda>i. VI16 (word_of_int i)) number
             | T_I32 \<Rightarrow> narrow d (- 2147483648) 2147483647 (\<lambda>i. VI32 (word_of_int i)) number
             | _ \<Rightarrow> Inr (VF32 (to_float number)))))"

text \<open>\<open>std::get\<close> on the wrong alternative throws.\<close>

definition value_to_json :: "datapoint_descriptor \<Rightarrow> datapoint_value \<Rightarrow> json exec" where
  "value_to_json d v =
    (if dd_type d = T_U64
     then (case v of VU64 w \<Rightarrow> Inr (JStr (format_u64 w)) | _ \<Rightarrow> Inl (Runtime_error ''bad_variant_access''))
     else Inr (case v of
         VBool b \<Rightarrow> JBool b
       | VU8 w \<Rightarrow> JInt (uint w)
       | VU16 w \<Rightarrow> JUInt (unat w)
       | VU32 w \<Rightarrow> JUInt (unat w)
       | VU64 w \<Rightarrow> JUInt (unat w)
       | VI8 w \<Rightarrow> JInt (sint w)
       | VI16 w \<Rightarrow> JInt (sint w)
       | VI32 w \<Rightarrow> JInt (sint w)
       | VF32 f \<Rightarrow> JFloat f
       | VStr s \<Rightarrow> JStr s))"

definition out_of_range :: "datapoint_descriptor \<Rightarrow> fp \<Rightarrow> string \<Rightarrow> fp \<Rightarrow> error" where
  "out_of_range d number rel bound =
     validation_error OutOfRange
       (dd_name d @ '': '' @ fixed_string 6 number @ rel @ fixed_string 6 bound) (dd_name d)"

definition validate :: "datapoint_descriptor \<Rightarrow> datapoint_value \<Rightarrow> unit result" where
  "validate d v =
    (if value_index v \<noteq> value_index_for (dd_type d)
     then Inl (type_mismatch d (''value type does not match '' @ type_to_string (dd_type d)))
     else case v of
       VStr text \<Rightarrow>
         (if kDatapointStringMax < length text
          then Inl (validation_error ValueTooLong
                 (dd_name d @ '': '' @ nat_dec (length text) @ '' bytes exceed the device limit of '' @
                  nat_dec kDatapointStringMax) (dd_name d))
          else Inr ())
     | _ \<Rightarrow>
        (if \<not> numeric d then Inr ()
         else
           let number = value_double v;
               min_bound = to_float (dd_min d);
               max_bound = to_float (dd_max d)
           in
           if min_bound \<noteq> FNaN \<and> flt number min_bound then Inl (out_of_range d number '' < min '' (dd_min d))
           else if max_bound \<noteq> FNaN \<and> flt max_bound number then Inl (out_of_range d number '' > max '' (dd_max d))
           else Inr ()))"

definition to_display_string :: "datapoint_descriptor \<Rightarrow> datapoint_value \<Rightarrow> string" where
  "to_display_string d v =
    (let out = (case v of
         VBool b \<Rightarrow> if b then ''true'' else ''false''
       | VStr s \<Rightarrow> s
       | VU64 w \<Rightarrow> format_u64 w
       | VF32 f \<Rightarrow>
          take 31 (fixed_string (if 0 \<le> md_decimals (dd_metadata d) then nat (md_decimals (dd_metadata d)) else 3) f)
       | VU8 w \<Rightarrow> nat_dec (unat w)
       | VU16 w \<Rightarrow> nat_dec (unat w)
       | VU32 w \<Rightarrow> nat_dec (unat w)
       | VI8 w \<Rightarrow> int_dec (sint w)
       | VI16 w \<Rightarrow> int_dec (sint w)
       | VI32 w \<Rightarrow> int_dec (sint w))
     in if md_unit (dd_metadata d) \<noteq> [] then out @ CHR '' '' # md_unit (dd_metadata d) else out)"

text \<open>\<open>make_value\<close> for an argument already lifted into the variant, and \<open>value_cast\<close>.\<close>

definition make_value :: "datapoint_descriptor \<Rightarrow> datapoint_value \<Rightarrow> datapoint_value result" where
  "make_value d boxed =
    (if value_index boxed \<noteq> value_index_for (dd_type d)
     then Inl (validation_error TypeMismatch (dd_name d @ '' expects '' @ type_to_string (dd_type d)) (dd_name d))
     else Inr boxed)"

definition value_cast :: "cpp_type \<Rightarrow> datapoint_value \<Rightarrow> datapoint_value result" where
  "value_cast t v =
    (if (t, value_index v) \<in> set [(C_bool, 0), (C_u8, 1), (C_u16, 2), (C_u32, 3), (C_u64, 4), (C_i8, 5),
                                 (C_i16, 6), (C_i32, 7), (C_float, 8), (C_string, 9)]
     then Inr v
     else Inl (validation_error TypeMismatch ''datapoint value has a different wire type'' []))"

section \<open>Hexadecimal texts\<close>

lemma hex_val_upper: "d < 16 \<Longrightarrow> hex_val (hex_upper d) = Some d"
  by (auto simp: hex_val_def hex_upper_def Let_def)

lemma length_hex_upper_digits [simp]: "length (hex_upper_digits k n) = k"
  by (induction k arbitrary: n) auto

lemma hex_run_append:
  "\<forall>c \<in> set s. hex_val c \<noteq> None \<Longrightarrow> hex_run a (s @ t) = hex_run (fst (hex_run a s)) t"
  by (induction s arbitrary: a) auto

lemma hex_upper_digits_digit: "c \<in> set (hex_upper_digits k n) \<Longrightarrow> \<exists>d < 16. c = hex_upper d"
proof (induction k arbitrary: n)
  case (Suc k)
  then show ?case by (auto intro: exI [of _ "n mod 16"])
qed simp

lemma hex_run_digits: "hex_run 0 (hex_upper_digits k n) = (n mod 16 ^ k, [])"
proof (induction k arbitrary: n)
  case 0
  then show ?case by simp
next
  case (Suc k)
  have "\<forall>c \<in> set (hex_upper_digits k (n div 16)). hex_val c \<noteq> None"
    using hex_upper_digits_digit hex_val_upper by fastforce
  then have "hex_run 0 (hex_upper_digits (Suc k) n) = (16 * (n div 16 mod 16 ^ k) + n mod 16, [])"
    by (simp add: hex_run_append Suc hex_val_upper)
  also have "16 * (n div 16 mod 16 ^ k) + n mod 16 = n mod 16 ^ Suc k"
    by (simp add: mod_mult2_eq)
  finally show ?case .
qed

lemma hex_upper_plain:
  "d < 16 \<Longrightarrow> hex_upper d \<noteq> CHR ''-'' \<and> hex_upper d \<noteq> CHR ''+'' \<and> hex_upper d \<noteq> CHR ''x'' \<and>
    hex_upper d \<noteq> CHR ''X'' \<and> hex_upper d \<noteq> CHR 0x00 \<and> \<not> isspace (hex_upper d)"
proof -
  assume "d < 16"
  then have n: "(of_char (hex_upper d) :: nat) = (if d < 10 then 48 + d else 55 + d)"
    by (simp add: hex_upper_def)
  have "c \<noteq> hex_upper d" if "(of_char c :: nat) \<notin> {48..57} \<union> {65..70}" for c
    using that n \<open>d < 16\<close> by (auto split: if_splits)
  then show ?thesis
    using n \<open>d < 16\<close> by (fastforce simp: isspace_def split: if_splits)
qed

lemma strtoull16_format: "strtoull16 (hex_upper_digits 16 (unat w)) = Some (w, False, [])"
  for w :: "64 word"
proof -
  have "length (hex_upper_digits 16 (unat w)) = Suc (Suc (Suc 13))"
    unfolding length_hex_upper_digits by simp
  then obtain a b c r where s: "hex_upper_digits 16 (unat w) = a # b # c # r"
    unfolding length_Suc_conv by blast
  have dig: "\<exists>d < 16. x = hex_upper d" if "x \<in> {a, b}" for x
    using hex_upper_digits_digit [of x 16 "unat w"] that by (auto simp: s)
  have plain: "a \<noteq> CHR ''-''" "a \<noteq> CHR ''+''" "\<not> isspace a" "b \<noteq> CHR ''x''" "b \<noteq> CHR ''X''" "hex_val a \<noteq> None"
    using dig [of a] dig [of b] hex_upper_plain hex_val_upper by auto
  have w: "unat w < 2 ^ 64" using unsigned_less [of w, where ?'a = nat] by simp
  have "hex_run 0 (a # b # c # r) = (unat w, [])"
    using hex_run_digits [of 16 "unat w"] w by (simp add: s)
  with plain w show ?thesis
    by (simp add: strtoull16_def s skip_sign_def skip_prefix_def Let_def del: hex_run.simps)
qed

lemma parse_u64_format: "parse_u64 d (format_u64 w) = Inr w"
proof -
  have tw: "takeWhile (\<lambda>c. c \<noteq> CHR 0x00) (format_u64 w) = format_u64 w"
    using hex_upper_digits_digit hex_upper_plain by (fastforce simp: takeWhile_eq_all_conv format_u64_def)
  show ?thesis
    unfolding parse_u64_def Let_def tw by (simp add: format_u64_def strtoull16_format)
qed

section \<open>Numbers\<close>

lemma narrow_int:
  assumes "lo \<le> i" and "i \<le> hi" and "\<bar>i\<bar> < 2 ^ 53"
  shows "narrow d lo hi mk (fp_of_int i) = Inr (mk i)"
  using assms by (simp add: narrow_def)

lemma narrow_Inr:
  "narrow d lo hi mk number = Inr v \<longleftrightarrow>
    (\<exists>x. number = FFin x \<and> lo \<le> rne x \<and> rne x \<le> hi \<and> v = mk (rne x))"
  by (auto simp: narrow_def Let_def split: fp.splits)

lemma word_ranges:
  "uint (a :: 8 word) \<le> 255" "uint (b :: 16 word) \<le> 65535" "uint (c :: 32 word) \<le> 4294967295"
  "- 128 \<le> sint a" "sint a \<le> 127" "- 32768 \<le> sint b" "sint b \<le> 32767"
  "- 2147483648 \<le> sint c" "sint c \<le> 2147483647"
  using uint_bounded [of a] uint_bounded [of b] uint_bounded [of c] sint_ge [of a] sint_lt [of a]
    sint_ge [of b] sint_lt [of b] sint_ge [of c] sint_lt [of c]
  by simp_all

lemma narrow_unsigned:
  "narrow d 0 255 mk (fp_of_int (uint (a :: 8 word))) = Inr (mk (uint a))"
  "narrow d 0 65535 mk (fp_of_int (uint (b :: 16 word))) = Inr (mk (uint b))"
  "narrow d 0 4294967295 mk (fp_of_int (uint (c :: 32 word))) = Inr (mk (uint c))"
  using word_ranges(1) [of a] word_ranges(2) [of b] word_ranges(3) [of c]
  by (auto intro!: narrow_int simp: abs_less_iff simp del: fp_of_small_int)

lemma narrow_signed:
  "narrow d (- 128) 127 mk (fp_of_int (sint (a :: 8 word))) = Inr (mk (sint a))"
  "narrow d (- 32768) 32767 mk (fp_of_int (sint (b :: 16 word))) = Inr (mk (sint b))"
  "narrow d (- 2147483648) 2147483647 mk (fp_of_int (sint (c :: 32 word))) = Inr (mk (sint c))"
  using word_ranges(4,5) [of a] word_ranges(6,7) [of b] word_ranges(8,9) [of c]
  by (auto intro!: narrow_int simp: abs_less_iff simp del: fp_of_small_int)

section \<open>The codec contract\<close>

text \<open>
  What users of a codec rely on: the values it is made for have a JSON form, and reading that form
  gives the value back.
\<close>

locale value_codec =
  fixes enc :: "'d \<Rightarrow> 'v \<Rightarrow> json exec"
    and dec :: "'d \<Rightarrow> json \<Rightarrow> 'v result"
    and fits :: "'d \<Rightarrow> 'v \<Rightarrow> bool"
  assumes enc_total: "fits d v \<Longrightarrow> \<exists>j. enc d v = Inr j"
    and dec_enc: "fits d v \<Longrightarrow> enc d v = Inr j \<Longrightarrow> dec d j = Inr v"
begin

lemma enc_inject: "fits d v \<Longrightarrow> fits d w \<Longrightarrow> enc d v = enc d w \<Longrightarrow> v = w"
  by (metis enc_total dec_enc sum.inject(2))

end

definition value_fits :: "datapoint_descriptor \<Rightarrow> datapoint_value \<Rightarrow> bool" where
  "value_fits d v \<longleftrightarrow> value_index v = value_index_for (dd_type d) \<and> (\<forall>f. v = VF32 f \<longrightarrow> to_float f = f)"

lemma value_json_roundtrip:
  assumes "value_fits d v" and "value_to_json d v = Inr j"
  shows "value_from_json d j = Inr v"
  by (cases v; cases "dd_type d")
    (use assms in \<open>auto simp: value_fits_def value_to_json_def value_from_json_def parse_u64_format
      narrow_unsigned narrow_signed simp del: fp_of_small_int\<close>)

interpretation wire: value_codec value_to_json value_from_json value_fits
proof unfold_locales
  show "\<exists>j. value_to_json d v = Inr j" if "value_fits d v" for d v
    using that by (cases v; cases "dd_type d") (auto simp: value_fits_def value_to_json_def)
qed (rule value_json_roundtrip)

section \<open>Properties\<close>

text \<open>
  C21: A value of the type of its datapoint has a JSON form, and reading that form gives exactly the
  value back; in particular no two values share a form.
\<close>

theorem codec_roundtrip:
  assumes "value_fits d v"
  shows "(\<exists>j. value_to_json d v = Inr j \<and> value_from_json d j = Inr v) \<and>
    (\<forall>w. value_fits d w \<and> value_to_json d w = value_to_json d v \<longrightarrow> w = v)"
  using wire.enc_total [OF assms] wire.dec_enc [OF assms] wire.enc_inject [OF assms] by metis

theorem codec_roundtrip_witness:
  "\<exists>j. value_to_json (kDatapointDescriptors_1 ! 0) (VU64 0x1C0C01FA82A) = Inr j \<and>
     value_from_json (kDatapointDescriptors_1 ! 0) j = Inr (VU64 0x1C0C01FA82A)"
proof -
  have "value_fits (kDatapointDescriptors_1 ! 0) (VU64 0x1C0C01FA82A)"
    by (simp add: kDatapointDescriptors_1_def value_fits_def)
  from codec_roundtrip [OF this] show ?thesis by blast
qed

text \<open>The range of an integral wire type.\<close>

fun int_range :: "datapoint_type \<Rightarrow> (int \<times> int) option" where
  "int_range T_U8 = Some (0, 255)"
| "int_range T_Enum = Some (0, 255)"
| "int_range T_U16 = Some (0, 65535)"
| "int_range T_U32 = Some (0, 4294967295)"
| "int_range T_I8 = Some (- 128, 127)"
| "int_range T_I16 = Some (- 32768, 32767)"
| "int_range T_I32 = Some (- 2147483648, 2147483647)"
| "int_range _ = None"

lemma sint_word_of_int:
  "- 128 \<le> i \<Longrightarrow> i \<le> 127 \<Longrightarrow> sint (word_of_int i :: 8 word) = i"
  "- 32768 \<le> i \<Longrightarrow> i \<le> 32767 \<Longrightarrow> sint (word_of_int i :: 16 word) = i"
  "- 2147483648 \<le> i \<Longrightarrow> i \<le> 2147483647 \<Longrightarrow> sint (word_of_int i :: 32 word) = i"
  by (simp_all add: signed_of_int signed_take_bit_int_eq_self)

lemma uint_word_of_int_small:
  "0 \<le> i \<Longrightarrow> i \<le> 255 \<Longrightarrow> uint (word_of_int i :: 8 word) = i"
  "0 \<le> i \<Longrightarrow> i \<le> 65535 \<Longrightarrow> uint (word_of_int i :: 16 word) = i"
  "0 \<le> i \<Longrightarrow> i \<le> 4294967295 \<Longrightarrow> uint (word_of_int i :: 32 word) = i"
  by (simp_all add: unsigned_of_int take_bit_int_eq_self)

lemma value_from_json_int:
  assumes "int_range (dd_type d) = Some (lo, hi)" and "get_double j = Inr f"
  shows "\<exists>mk. value_from_json d j = narrow d lo hi mk f \<and>
    (\<forall>i. lo \<le> i \<and> i \<le> hi \<longrightarrow> value_double (mk i) = FFin (of_int i))"
proof -
  have small: "\<bar>i\<bar> < 2 ^ 53" if "- 2147483648 \<le> i" "i \<le> 4294967295" for i :: int
    using that by (simp add: abs_less_iff)
  show ?thesis
    using assms
    by (cases "dd_type d")
      (auto simp: value_from_json_def sint_word_of_int uint_word_of_int_small small intro!: exI)
qed

text \<open>
  C22: Reading a number into an integral datapoint never truncates: a finite number is rounded to the
  nearest integer and, if that fits the type, becomes exactly that integer; if it does not fit, or the
  number is not finite, the result is an error.
\<close>

theorem number_read_exactly:
  assumes "int_range (dd_type d) = Some (lo, hi)" and "get_double j = Inr f"
  shows "case f of
      FFin x \<Rightarrow>
        (if lo \<le> rne x \<and> rne x \<le> hi
         then \<exists>v. value_from_json d j = Inr v \<and> value_double v = FFin (of_int (rne x))
         else \<exists>e. value_from_json d j = Inl e \<and> err_code e = OutOfRange)
    | _ \<Rightarrow> \<exists>e. value_from_json d j = Inl e \<and> err_code e = TypeMismatch"
proof -
  obtain mk where "value_from_json d j = narrow d lo hi mk f"
    and "\<forall>i. lo \<le> i \<and> i \<le> hi \<longrightarrow> value_double (mk i) = FFin (of_int i)"
    using value_from_json_int [OF assms] by blast
  then show ?thesis
    by (cases f) (auto simp: narrow_def Let_def type_mismatch_def validation_error_def make_error_def)
qed

theorem number_read_exactly_witness:
  "\<exists>e. value_from_json (kDatapointDescriptors_1 ! 43) (JInt 300) = Inl e \<and> err_code e = OutOfRange"
proof -
  have t: "int_range (dd_type (kDatapointDescriptors_1 ! 43)) = Some (0, 255)"
    by (simp add: kDatapointDescriptors_1_def)
  have "get_double (JInt 300) = Inr (FFin (of_int 300))" by (simp del: of_int_numeral)
  from number_read_exactly [OF t this] show ?thesis by (simp del: of_int_numeral)
qed

lemma validate_iff:
  "validate d v = Inr () \<longleftrightarrow>
    value_index v = value_index_for (dd_type d) \<and>
    (\<forall>s. v = VStr s \<longrightarrow> length s \<le> 63) \<and>
    (numeric d \<longrightarrow>
       (to_float (dd_min d) \<noteq> FNaN \<longrightarrow> \<not> flt (value_double v) (to_float (dd_min d))) \<and>
       (to_float (dd_max d) \<noteq> FNaN \<longrightarrow> \<not> flt (to_float (dd_max d)) (value_double v)))"
proof (cases "\<exists>s. v = VStr s")
  case True
  then obtain s where v: "v = VStr s" by blast
  show ?thesis
    by (cases "dd_type d") (auto simp: v validate_def numeric_def kDatapointStringMax_def)
next
  case False
  then have "validate d v =
    (if value_index v \<noteq> value_index_for (dd_type d)
     then Inl (type_mismatch d (''value type does not match '' @ type_to_string (dd_type d)))
     else if \<not> numeric d then Inr ()
     else if to_float (dd_min d) \<noteq> FNaN \<and> flt (value_double v) (to_float (dd_min d))
       then Inl (out_of_range d (value_double v) '' < min '' (dd_min d))
     else if to_float (dd_max d) \<noteq> FNaN \<and> flt (to_float (dd_max d)) (value_double v)
       then Inl (out_of_range d (value_double v) '' > max '' (dd_max d))
     else Inr ())"
    by (simp add: validate_def Let_def split: datapoint_value.splits)
  with False show ?thesis by auto
qed



text \<open>A float that is not a number passes every bound: no comparison with it holds.\<close>

lemma validate_nan: "dd_type d = T_F32 \<Longrightarrow> validate d (VF32 FNaN) = Inr ()"
  by (simp add: validate_iff numeric_def)

end
