(* ===== verification/Datapoints.thy ===== *)
theory Datapoints
  imports Codec
begin

text \<open>
  Cross-field constraints, write sets and snapshots (\<open>datapoints/constraints.cpp\<close>,
  \<open>datapoints/write_set.cpp\<close>, \<open>datapoints/snapshot.hpp\<close>).
\<close>

section \<open>Cross-field constraints\<close>

definition violation :: "string \<Rightarrow> string \<Rightarrow> error" where
  "violation field rule = validation_error ConstraintViolation rule field"

text \<open>\<open>a && b && !(a < b)\<close> on two optional operands.\<close>

definition not_below :: "fp option \<Rightarrow> fp option \<Rightarrow> bool" where
  "not_below a b = (case (a, b) of (Some x, Some y) \<Rightarrow> \<not> flt x y | _ \<Rightarrow> False)"

definition check_cross_constraints :: "(string \<Rightarrow> fp option) \<Rightarrow> unit result" where
  "check_cross_constraints value_of =
    (let alert_low = value_of ''Fon_Alert_Low_Pressure'';
         min_pressure = value_of ''Fon_Min_Pressure'';
         max_pressure = value_of ''Fon_Max_Pressure'';
         alert_high = value_of ''Fon_Alert_High_Pressure'' in
     if not_below min_pressure max_pressure
     then Inl (violation ''Fon_Max_Pressure'' ''Fon_Min_Pressure must be < Fon_Max_Pressure'')
     else if not_below max_pressure alert_high
     then Inl (violation ''Fon_Alert_High_Pressure'' ''Fon_Max_Pressure must be < Fon_Alert_High_Pressure'')
     else if not_below alert_low min_pressure
     then Inl (violation ''Fon_Alert_Low_Pressure'' ''Fon_Alert_Low_Pressure must be < Fon_Min_Pressure'')
     else let max_on = value_of ''Fon_Max_On_Time'' in
     if (case max_on of Some x \<Rightarrow> flt x (FFin 10) | None \<Rightarrow> False)
     then Inl (violation ''Fon_Max_On_Time'' ''Fon_Max_On_Time must be >= 10'')
     else if not_below (value_of ''Fon_Min_On_Time'') max_on
     then Inl (violation ''Fon_Min_On_Time'' ''Fon_Min_On_Time must be < Fon_Max_On_Time'')
     else if not_below (value_of ''Fon_Dry_Run_Detect_Time'') max_on
     then Inl (violation ''Fon_Dry_Run_Detect_Time'' ''Fon_Dry_Run_Detect_Time must be < Fon_Max_On_Time'')
     else if (case value_of ''Fon_Report_Interval'' of
                Some x \<Rightarrow> flt x (FFin 1) \<or> flt (FFin 3600) x | None \<Rightarrow> False)
     then Inl (violation ''Fon_Report_Interval'' ''Fon_Report_Interval must be within 1..3600'')
     else Inr ())"

section \<open>Write sets\<close>

type_synonym write_set = "(string, datapoint_value) omap"

definition unknown_datapoint :: "string \<Rightarrow> error" where
  "unknown_datapoint n = validation_error UnknownDatapoint (''unknown datapoint '' @ CHR 0x27 # n @ [CHR 0x27]) n"

text \<open>The checks of a name and a value against the catalog, as \<open>set\<close> and \<open>stage\<close> make them.\<close>

definition check_write :: "string \<Rightarrow> datapoint_value \<Rightarrow> unit result" where
  "check_write n v =
    (case catalog_find n of
       None \<Rightarrow> Inl (unknown_datapoint n)
     | Some d \<Rightarrow>
        (if \<not> writable d then Inl (validation_error ReadOnlyDatapoint (n @ '' is read-only'') n)
         else if value_index v \<noteq> value_index_for (dd_type d)
         then Inl (validation_error TypeMismatch (n @ '' expects '' @ type_to_string (dd_type d)) n)
         else Inr ()))"

definition ws_set :: "string \<Rightarrow> datapoint_value \<Rightarrow> write_set \<Rightarrow> write_set result" where
  "ws_set n v ws = (case check_write n v of Inl e \<Rightarrow> Inl e | Inr _ \<Rightarrow> Inr (omap_put n v ws))"

text \<open>The loop over the entries: the first error wins.\<close>

fun validate_entries :: "(string \<times> datapoint_value) list \<Rightarrow> unit result" where
  "validate_entries [] = Inr ()"
| "validate_entries ((n, v) # es) =
    (case catalog_find n of
       None \<Rightarrow> Inl (unknown_datapoint n)
     | Some d \<Rightarrow> (case validate d v of Inl e \<Rightarrow> Inl e | Inr _ \<Rightarrow> validate_entries es))"

definition ws_validate :: "write_set \<Rightarrow> unit result" where
  "ws_validate ws =
    (if ws = [] then Inl (validation_error EmptySelection ''write set contains no datapoints'' [])
     else validate_entries ws)"

text \<open>The numeric value a constraint sees; a string has none.\<close>

definition numeric_of :: "datapoint_value \<Rightarrow> fp option" where
  "numeric_of v = (case v of VStr s \<Rightarrow> None | _ \<Rightarrow> Some (value_double v))"

definition check_cross_constraints_changes :: "write_set \<Rightarrow> (string \<Rightarrow> fp option) \<Rightarrow> unit result" where
  "check_cross_constraints_changes changes fallback =
     check_cross_constraints (\<lambda>n. case map_of changes n of Some v \<Rightarrow> numeric_of v | None \<Rightarrow> fallback n)"

section \<open>Snapshots\<close>

datatype datapoint_source = ExplicitRead | PeriodicPoll | UnsolicitedReport | WriteReadback

datatype data_quality = Unknown | Good | Stale | Invalid

fun source_to_string :: "datapoint_source \<Rightarrow> string" where
  "source_to_string ExplicitRead = ''explicit_read''"
| "source_to_string PeriodicPoll = ''periodic_poll''"
| "source_to_string UnsolicitedReport = ''unsolicited_report''"
| "source_to_string WriteReadback = ''write_readback''"

fun quality_to_string :: "data_quality \<Rightarrow> string" where
  "quality_to_string Unknown = ''unknown''"
| "quality_to_string Good = ''good''"
| "quality_to_string Stale = ''stale''"
| "quality_to_string Invalid = ''invalid''"

record cached_value =
  cv_value :: datapoint_value
  cv_received_at :: int
  cv_source :: datapoint_source
  cv_quality :: data_quality
  cv_report_sequence :: "32 word option"

record snapshot =
  sn_values :: "(string, datapoint_value) omap"
  sn_unknown :: "string list"

definition empty_snapshot :: snapshot where
  "empty_snapshot = \<lparr>sn_values = [], sn_unknown = []\<rparr>"

definition snapshot_set :: "string \<Rightarrow> datapoint_value \<Rightarrow> snapshot \<Rightarrow> snapshot" where
  "snapshot_set n v s = s\<lparr>sn_values := omap_put n v (sn_values s)\<rparr>"

definition add_unknown :: "string \<Rightarrow> snapshot \<Rightarrow> snapshot" where
  "add_unknown n s = s\<lparr>sn_unknown := sn_unknown s @ [n]\<rparr>"

definition snapshot_get :: "typed_datapoint \<Rightarrow> snapshot \<Rightarrow> datapoint_value result" where
  "snapshot_get td s =
    (case map_of (sn_values s) (td_name td) of
       None \<Rightarrow> Inl (validation_error UnknownDatapoint (td_name td @ '' is not part of this snapshot'') (td_name td))
     | Some v \<Rightarrow> value_cast (td_type td) v)"

record write_error =
  we_datapoint :: string
  we_reason :: string

record write_result =
  wr_status :: string
  wr_errors :: "write_error list"
  wr_warning :: "string option"
  wr_network_save :: "8 word option"
  wr_readback :: snapshot

definition applied :: "write_result \<Rightarrow> bool" where
  "applied r \<longleftrightarrow> wr_status r = ''applied''"

section \<open>Laws\<close>

lemma check_write_Inr:
  "check_write n v = Inr u \<longleftrightarrow>
    (\<exists>d. catalog_find n = Some d \<and> writable d \<and> value_index v = value_index_for (dd_type d))"
  by (auto simp: check_write_def split: option.splits)

lemma ws_set_Inr: "ws_set n v ws = Inr ws' \<longleftrightarrow> check_write n v = Inr () \<and> ws' = omap_put n v ws"
  by (auto simp: ws_set_def split: sum.splits)

lemma validate_entries_Inr:
  "validate_entries es = Inr u \<longleftrightarrow>
    (\<forall>(n, v) \<in> set es. \<exists>d. catalog_find n = Some d \<and> validate d v = Inr ())"
  by (induction es rule: validate_entries.induct) (auto split: option.splits sum.splits)

lemma ws_validate_Inr:
  "ws_validate ws = Inr u \<longleftrightarrow> ws \<noteq> [] \<and>
    (\<forall>(n, v) \<in> set ws. \<exists>d. catalog_find n = Some d \<and> validate d v = Inr ())"
  by (auto simp: ws_validate_def validate_entries_Inr)

text \<open>
  C24: A configuration passes the cross-field check exactly if every rule whose operands are known
  holds: the pressure thresholds are strictly ordered, the on-times are ordered and at least 10, and
  the report interval lies within 1 and 3600.
\<close>

theorem cross_constraints_complete:
  "check_cross_constraints f = Inr () \<longleftrightarrow>
    (\<forall>(a, b) \<in> {(''Fon_Alert_Low_Pressure'', ''Fon_Min_Pressure''), (''Fon_Min_Pressure'', ''Fon_Max_Pressure''),
                (''Fon_Max_Pressure'', ''Fon_Alert_High_Pressure''), (''Fon_Min_On_Time'', ''Fon_Max_On_Time''),
                (''Fon_Dry_Run_Detect_Time'', ''Fon_Max_On_Time'')}.
       \<forall>x y. f a = Some x \<and> f b = Some y \<longrightarrow> flt x y) \<and>
    (\<forall>x. f ''Fon_Max_On_Time'' = Some x \<longrightarrow> \<not> flt x (FFin 10)) \<and>
    (\<forall>x. f ''Fon_Report_Interval'' = Some x \<longrightarrow> \<not> flt x (FFin 1) \<and> \<not> flt (FFin 3600) x)"
proof -
  have nb: "not_below a b \<longleftrightarrow> (\<exists>x y. a = Some x \<and> b = Some y \<and> \<not> flt x y)" for a b
    by (auto simp: not_below_def split: option.splits)
  have c: "(case a of Some x \<Rightarrow> P x | None \<Rightarrow> False) \<longleftrightarrow> (\<exists>x. a = Some x \<and> P x)" for a :: "fp option" and P
    by (auto split: option.splits)
  have "check_cross_constraints f = Inr () \<longleftrightarrow>
      \<not> not_below (f ''Fon_Min_Pressure'') (f ''Fon_Max_Pressure'') \<and>
      \<not> not_below (f ''Fon_Max_Pressure'') (f ''Fon_Alert_High_Pressure'') \<and>
      \<not> not_below (f ''Fon_Alert_Low_Pressure'') (f ''Fon_Min_Pressure'') \<and>
      \<not> (\<exists>x. f ''Fon_Max_On_Time'' = Some x \<and> flt x (FFin 10)) \<and>
      \<not> not_below (f ''Fon_Min_On_Time'') (f ''Fon_Max_On_Time'') \<and>
      \<not> not_below (f ''Fon_Dry_Run_Detect_Time'') (f ''Fon_Max_On_Time'') \<and>
      \<not> (\<exists>x. f ''Fon_Report_Interval'' = Some x \<and> (flt x (FFin 1) \<or> flt (FFin 3600) x))"
    unfolding check_cross_constraints_def Let_def c by simp
  then show ?thesis unfolding nb by (simp only: ball_simps prod.case insert_iff empty_iff) blast
qed

theorem cross_constraints_complete_witness:
  "check_cross_constraints (\<lambda>n. if n = ''Fon_Min_Pressure'' then Some (FFin 2) else if n = ''Fon_Max_Pressure''
     then Some (FFin 4) else None) = Inr ()"
  unfolding cross_constraints_complete by simp

end
