(* ===== verification/Messages.thy ===== *)
theory Messages
  imports Json
begin

text \<open>
  The message table of the wire protocol (\<open>protocol/fountain_messages.hpp\<close>) and the envelope
  (\<open>protocol/envelope.cpp\<close>).
\<close>

datatype direction = C2s | S2c

datatype auth_level = Auth_None | Auth_Session | Auth_Control

record message_meta =
  mm_name :: string
  mm_direction :: direction
  mm_wire :: int
  mm_auth :: auth_level
  mm_request :: bool
  mm_responses :: "string list"
  mm_response_count :: nat

definition kMaxControlFrameBytes :: nat where
  "kMaxControlFrameBytes = 4096"

definition kAuthScheme :: string where
  "kAuthScheme = ''hmac-sha256''"

definition kAuthScope :: string where
  "kAuthScope = ''control''"

definition kSessionProofMsg :: string where
  "kSessionProofMsg = ''ota_check''"

text \<open>The loop over the first \<open>response_count\<close> entries of the fixed array of responses.\<close>

definition accepts_response :: "message_meta \<Rightarrow> string \<Rightarrow> bool" where
  "accepts_response m t = list_ex (\<lambda>r. r = t) (take (mm_response_count m) (mm_responses m))"

definition meta_row ::
  "string \<Rightarrow> direction \<Rightarrow> int \<Rightarrow> auth_level \<Rightarrow> bool \<Rightarrow> string list \<Rightarrow> nat \<Rightarrow> message_meta" where
  "meta_row n d w a q rs c =
     \<lparr>mm_name = n, mm_direction = d, mm_wire = w, mm_auth = a, mm_request = q,
      mm_responses = rs, mm_response_count = c\<rparr>"

definition kMessages :: "message_meta list" where
  "kMessages =
    [meta_row ''hello'' C2s 1 Auth_None True [''hello_ack'', ''''] 1,
     meta_row ''hello_ack'' S2c 1 Auth_None False ['''', ''''] 0,
     meta_row ''protocol_mismatch'' C2s 1 Auth_None False ['''', ''''] 0,
     meta_row ''ota_check'' C2s 2 Auth_Session True [''ota_none'', ''ota_available''] 2,
     meta_row ''ota_available'' S2c 2 Auth_Control False [''ota_status'', ''''] 1,
     meta_row ''ota_none'' S2c 2 Auth_None False ['''', ''''] 0,
     meta_row ''ota_cancel'' S2c 2 Auth_Control False [''ota_status'', ''''] 1,
     meta_row ''ota_status'' C2s 2 Auth_None False ['''', ''''] 0,
     meta_row ''heartbeat'' C2s 2 Auth_None False ['''', ''''] 0,
     meta_row ''dp_report'' C2s 2 Auth_None False ['''', ''''] 0,
     meta_row ''dp_read'' S2c 2 Auth_None True [''dp_report'', ''''] 1,
     meta_row ''dp_write'' S2c 2 Auth_Control True [''dp_write_result'', ''''] 1,
     meta_row ''dp_write_result'' C2s 2 Auth_None False ['''', ''''] 0,
     meta_row ''command'' S2c 2 Auth_Control True [''command_result'', ''''] 1,
     meta_row ''command_result'' C2s 2 Auth_None False ['''', ''''] 0,
     meta_row ''error_report'' C2s 2 Auth_None False ['''', ''''] 0,
     meta_row ''device_alert'' C2s 2 Auth_None False ['''', ''''] 0,
     meta_row ''log_read'' S2c 2 Auth_Control True [''log_batch'', ''''] 1,
     meta_row ''log_batch'' C2s 2 Auth_None False ['''', ''''] 0,
     meta_row ''log_read_prev'' S2c 2 Auth_Control True [''log_batch'', ''''] 1,
     meta_row ''log_ack_prev'' S2c 2 Auth_Control True [''log_ack_result'', ''''] 1,
     meta_row ''log_ack_result'' C2s 2 Auth_None False ['''', ''''] 0]"

definition find_meta :: "string \<Rightarrow> message_meta option" where
  "find_meta n = find (\<lambda>m. mm_name m = n) kMessages"

lemma find_meta_name: "find_meta n = Some m \<Longrightarrow> mm_name m = n \<and> m \<in> set kMessages"
  by (auto simp: find_meta_def find_Some_iff)

lemma kMessages_responses:
  "list_all (\<lambda>m. length (mm_responses m) = 2 \<and> mm_response_count m \<le> 2 \<and>
     list_all (\<lambda>r. r \<noteq> '''') (take (mm_response_count m) (mm_responses m))) kMessages"
  by (simp add: kMessages_def meta_row_def)

lemma accepts_response_nonempty:
  assumes "find_meta n = Some m"
  shows "\<not> accepts_response m ''''"
proof -
  have "m \<in> set kMessages" using find_meta_name [OF assms] by simp
  with kMessages_responses show ?thesis
    by (auto simp: accepts_response_def list_all_iff list_ex_iff)
qed

section \<open>Envelope\<close>

definition kEnvelopeFields :: "string list" where
  "kEnvelopeFields = [''v'', ''type'', ''serial'', ''ts'', ''msg_id'', ''in_reply_to'', ''auth'']"

fun put_all :: "jobj \<Rightarrow> jobj \<Rightarrow> jobj" where
  "put_all [] m = m"
| "put_all ((k, v) # kvs) m = put_all kvs (omap_put k v m)"

text \<open>
  The message object without the body: version, type, time stamp, and the ids that are not empty.
  A negative time stamp is replaced by the wall clock \<open>wall\<close> (\<open>now_ms()\<close>).
\<close>

definition envelope :: "message_meta \<Rightarrow> string \<Rightarrow> string \<Rightarrow> string \<Rightarrow> int \<Rightarrow> int \<Rightarrow> jobj" where
  "envelope meta name msg_id in_reply_to ts wall =
     (let m0 = put_all [(''v'', JInt (mm_wire meta)), (''type'', JStr name),
                        (''ts'', JInt (if 0 \<le> ts then ts else wall))] [];
          m1 = (if msg_id \<noteq> [] then omap_put ''msg_id'' (JStr msg_id) m0 else m0)
      in if in_reply_to \<noteq> [] then omap_put ''in_reply_to'' (JStr in_reply_to) m1 else m1)"

definition build_message ::
  "string \<Rightarrow> json \<Rightarrow> string \<Rightarrow> string \<Rightarrow> int \<Rightarrow> int \<Rightarrow> jobj exec" where
  "build_message name body msg_id in_reply_to ts wall =
     (case find_meta name of
        None \<Rightarrow> Inl (Runtime_error (''unknown message type: '' @ name))
      | Some meta \<Rightarrow>
          (let m = envelope meta name msg_id in_reply_to ts wall
           in Inr (case body of JObj b \<Rightarrow> put_all b m | _ \<Rightarrow> m)))"

lemma put_all_ok: "omap_ok m \<Longrightarrow> omap_ok (put_all kvs m)"
  by (induction kvs m rule: put_all.induct) (auto simp: omap_simps)

lemma map_of_put_all:
  "distinct (map fst kvs) \<Longrightarrow>
    map_of (put_all kvs m) k = (case map_of kvs k of None \<Rightarrow> map_of m k | Some v \<Rightarrow> Some v)"
proof (induction kvs m rule: put_all.induct)
  case (2 l v kvs m)
  then have "map_of kvs l = None" by (simp add: map_of_eq_None_iff)
  with 2 show ?case by (auto simp: omap_simps split: option.splits)
qed simp

lemma envelope_ok: "omap_ok (envelope meta name i r ts wall)"
  by (simp add: envelope_def Let_def omap_simps)

lemma map_of_envelope:
  "map_of (envelope meta name msg_id in_reply_to ts wall) k =
     (if k = ''v'' then Some (JInt (mm_wire meta))
      else if k = ''type'' then Some (JStr name)
      else if k = ''ts'' then Some (JInt (if 0 \<le> ts then ts else wall))
      else if k = ''msg_id'' \<and> msg_id \<noteq> [] then Some (JStr msg_id)
      else if k = ''in_reply_to'' \<and> in_reply_to \<noteq> [] then Some (JStr in_reply_to)
      else None)"
  by (simp add: envelope_def Let_def omap_simps)

lemma envelope_keys: "map_of (envelope meta name i r ts wall) k \<noteq> None \<Longrightarrow> k \<in> set kEnvelopeFields"
  by (auto simp: map_of_envelope kEnvelopeFields_def split: if_splits)

lemma build_message_Inr:
  "build_message name body i r ts wall = Inr msg \<longleftrightarrow>
    (\<exists>meta. find_meta name = Some meta \<and>
      msg = (case body of JObj b \<Rightarrow> put_all b (envelope meta name i r ts wall)
                        | _ \<Rightarrow> envelope meta name i r ts wall))"
  by (auto simp: build_message_def Let_def split: option.splits)

lemma build_message_total:
  "find_meta name = Some meta \<Longrightarrow> \<exists>m. build_message name body i r ts wall = Inr m \<and> omap_ok m"
  by (cases body) (auto simp: build_message_def Let_def intro: put_all_ok envelope_ok)

text \<open>The accessors on the members of a message, which is always an object.\<close>

definition msg_value :: "(json \<Rightarrow> 'a exec) \<Rightarrow> jobj \<Rightarrow> string \<Rightarrow> 'a \<Rightarrow> 'a exec" where
  "msg_value g m k d = json_value g (JObj m) k d"

lemma msg_value_absent: "map_of m k = None \<Longrightarrow> msg_value g m k d = Inr d"
  by (simp add: msg_value_def)

lemma msg_value_present: "map_of m k = Some v \<Longrightarrow> msg_value g m k d = g v"
  by (simp add: msg_value_def)

end
