(* ===== verification/Dispatcher.thy ===== *)
theory Dispatcher
  imports Messages Errors "HOL-Library.Product_Lexorder"
begin

text \<open>
  The request dispatcher (\<open>protocol/dispatcher.hpp\<close>, \<open>protocol/dispatcher.cpp\<close>): waiting requests
  with priority and deadline, open requests by message id, the token bucket, coalescing, correlation
  of responses. Times are nanoseconds of the steady clock; the encoder \<open>send\<close> is the operation of
  the session that owns the dispatcher and acts on the state \<open>'s\<close> of that session. A response
  handler is a name of type \<open>'h\<close> (\<open>None\<close> is an empty \<open>std::function\<close>); calling it is the
  output \<open>Done\<close>, and it does not call back into the dispatcher before the operation returns.
\<close>

section \<open>Data\<close>

datatype operation_priority =
  SafetyControl | InteractiveControl | InteractiveRead | LogTransfer | Polling | Background

fun prio_rank :: "operation_priority \<Rightarrow> nat" where
  "prio_rank SafetyControl = 0"
| "prio_rank InteractiveControl = 1"
| "prio_rank InteractiveRead = 2"
| "prio_rank LogTransfer = 3"
| "prio_rank Polling = 4"
| "prio_rank Background = 5"

lemma prio_rank_inject [simp]: "prio_rank a = prio_rank b \<longleftrightarrow> a = b"
  by (cases a; cases b) simp_all

instantiation operation_priority :: linorder
begin

definition less_eq_operation_priority :: "operation_priority \<Rightarrow> operation_priority \<Rightarrow> bool" where
  "a \<le> b \<longleftrightarrow> prio_rank a \<le> prio_rank b"

definition less_operation_priority :: "operation_priority \<Rightarrow> operation_priority \<Rightarrow> bool" where
  "a < b \<longleftrightarrow> prio_rank a < prio_rank b"

instance
  by standard (auto simp: less_eq_operation_priority_def less_operation_priority_def)

end

fun priority_to_string :: "operation_priority \<Rightarrow> string" where
  "priority_to_string SafetyControl = ''safety_control''"
| "priority_to_string InteractiveControl = ''interactive_control''"
| "priority_to_string InteractiveRead = ''interactive_read''"
| "priority_to_string LogTransfer = ''log_transfer''"
| "priority_to_string Polling = ''polling''"
| "priority_to_string Background = ''background''"

text \<open>The timeout is in milliseconds, \<open>None\<close> the dispatcher's default.\<close>

record request_spec =
  rs_type :: string
  rs_body :: json
  rs_timeout :: "int option"
  rs_priority :: operation_priority
  rs_coalesce_key :: string

record rate_budget =
  rb_requests_per_second :: fp
  rb_burst :: fp
  rb_max_in_flight :: nat

definition default_budget :: rate_budget where
  "default_budget =
     \<lparr>rb_requests_per_second = FFin 4, rb_burst = FFin 8, rb_max_in_flight = 4\<rparr>"

record dispatcher_metrics =
  dm_submitted :: nat
  dm_sent :: nat
  dm_completed :: nat
  dm_timeouts :: nat
  dm_send_failures :: nat
  dm_disconnect_failures :: nat
  dm_coalesced :: nat
  dm_rate_limit_deferrals :: nat
  dm_unexpected_responses :: nat
  dm_in_flight :: nat
  dm_queued :: nat

record 'h waiting =
  wt_spec :: request_spec
  wt_handlers :: "'h option list"
  wt_deadline :: int
  wt_sequence :: nat

record 'h pending =
  pd_type :: string
  pd_handlers :: "'h option list"
  pd_deadline :: int

record 'h dispatcher =
  dq_budget :: rate_budget
  dq_default_timeout :: int
  dq_warning :: bool
  dq_queue :: "'h waiting list"
  dq_pending :: "(string, 'h pending) omap"
  dq_sequence :: nat
  dq_tokens :: fp
  dq_last_refill :: int
  dq_refill_initialised :: bool
  dq_sending_enabled :: bool
  dq_draining :: bool
  dq_metrics :: dispatcher_metrics

datatype ('h, 'o) dout = Done 'h "jobj result" | Warned string string | Emitted 'o

type_synonym ('s, 'o) encode_and_send = "request_spec \<Rightarrow> 's \<Rightarrow> (string result \<times> 's \<times> 'o list) exec"

type_synonym ('h, 's, 'o) dstep = "('h dispatcher \<times> 's \<times> ('h, 'o) dout list) exec"

definition ns_of_ms :: "int \<Rightarrow> int" where
  "ns_of_ms t = t * 1000000"

section \<open>Operations\<close>

definition zero_metrics :: dispatcher_metrics where
  "zero_metrics =
     \<lparr>dm_submitted = 0, dm_sent = 0, dm_completed = 0, dm_timeouts = 0, dm_send_failures = 0,
      dm_disconnect_failures = 0, dm_coalesced = 0, dm_rate_limit_deferrals = 0,
      dm_unexpected_responses = 0, dm_in_flight = 0, dm_queued = 0\<rparr>"

definition make_dispatcher :: "rate_budget \<Rightarrow> int \<Rightarrow> 'h dispatcher" where
  "make_dispatcher budget timeout =
     \<lparr>dq_budget = budget, dq_default_timeout = timeout, dq_warning = False, dq_queue = [],
      dq_pending = [], dq_sequence = 0, dq_tokens = rb_burst budget, dq_last_refill = 0,
      dq_refill_initialised = False, dq_sending_enabled = True, dq_draining = False,
      dq_metrics = zero_metrics\<rparr>"

definition live :: "'h option list \<Rightarrow> 'h list" where
  "live hs = concat (map (\<lambda>h. case h of None \<Rightarrow> [] | Some x \<Rightarrow> [x]) hs)"

definition complete :: "'h option list \<Rightarrow> jobj result \<Rightarrow> ('h, 'o) dout list" where
  "complete hs r = map (\<lambda>h. Done h r) (live hs)"

text \<open>\<open>std::chrono::duration<double>\<close> of a number of nanoseconds.\<close>

definition seconds_of :: "int \<Rightarrow> fp" where
  "seconds_of ns = (case fp_of_int ns of FFin x \<Rightarrow> fround64 (x / 1000000000) | f \<Rightarrow> f)"

definition refill :: "int \<Rightarrow> 'h dispatcher \<Rightarrow> 'h dispatcher" where
  "refill now d =
    (if \<not> dq_refill_initialised d then d\<lparr>dq_last_refill := now, dq_refill_initialised := True\<rparr>
     else let elapsed = seconds_of (now - dq_last_refill d) in
       if fle elapsed (FFin 0) then d
       else d\<lparr>dq_last_refill := now,
              dq_tokens := fmin (rb_burst (dq_budget d))
                (fadd (dq_tokens d) (fmul elapsed (rb_requests_per_second (dq_budget d))))\<rparr>)"

definition wt_key :: "'h waiting \<Rightarrow> operation_priority \<times> nat" where
  "wt_key w = (rs_priority (wt_spec w), wt_sequence w)"

definition before :: "'h waiting \<Rightarrow> 'h waiting \<Rightarrow> bool" where
  "before a b =
     (if rs_priority (wt_spec a) \<noteq> rs_priority (wt_spec b)
      then rs_priority (wt_spec a) < rs_priority (wt_spec b)
      else wt_sequence a < wt_sequence b)"

text \<open>\<open>std::min_element\<close> (the first of the smallest) together with the \<open>erase\<close> of its position.\<close>

fun take_min :: "'h waiting \<Rightarrow> 'h waiting list \<Rightarrow> 'h waiting \<times> 'h waiting list" where
  "take_min x [] = (x, [])"
| "take_min x (y # ys) =
     (let (m, r) = take_min y ys in if before m x then (m, x # r) else (x, y # ys))"

text \<open>\<open>std::map::emplace\<close> keeps the entry that is already there.\<close>

definition emplace_pending ::
  "string \<Rightarrow> 'h waiting \<Rightarrow> (string, 'h pending) omap \<Rightarrow> (string, 'h pending) omap" where
  "emplace_pending i w m =
     (if map_of m i \<noteq> None then m
      else omap_put i \<lparr>pd_type = rs_type (wt_spec w), pd_handlers = wt_handlers w,
                       pd_deadline = wt_deadline w\<rparr> m)"

definition count_metric ::
  "((nat \<Rightarrow> nat) \<Rightarrow> dispatcher_metrics \<Rightarrow> dispatcher_metrics) \<Rightarrow> nat \<Rightarrow> 'h dispatcher \<Rightarrow> 'h dispatcher"
  where "count_metric upd n d = d\<lparr>dq_metrics := upd (\<lambda>k. k + n) (dq_metrics d)\<rparr>"

lemma take_min_length: "take_min x xs = (m, r) \<Longrightarrow> length r = length xs"
  by (induction xs arbitrary: x m r) (auto split: prod.splits if_splits)

lemma count_metric_simps [simp]:
  "dq_queue (count_metric u n d) = dq_queue d" "dq_pending (count_metric u n d) = dq_pending d"
  "dq_budget (count_metric u n d) = dq_budget d" "dq_tokens (count_metric u n d) = dq_tokens d"
  "dq_draining (count_metric u n d) = dq_draining d" "dq_sequence (count_metric u n d) = dq_sequence d"
  "dq_sending_enabled (count_metric u n d) = dq_sending_enabled d"
  by (simp_all add: count_metric_def)

text \<open>What happens to the request taken from the queue, once \<open>send\<close> has answered.\<close>

definition after_send ::
  "'h waiting \<Rightarrow> string result \<Rightarrow> 'h dispatcher \<Rightarrow> 'h dispatcher \<times> ('h, 'o) dout list" where
  "after_send w sent d =
    (case sent of
       Inl e \<Rightarrow> (count_metric dm_send_failures_update 1 d, complete (wt_handlers w) (Inl e))
     | Inr i \<Rightarrow>
        ((count_metric dm_sent_update 1 d)
           \<lparr>dq_tokens := fsub (dq_tokens d) (FFin 1),
            dq_pending := emplace_pending i w (dq_pending d)\<rparr>, []))"

function (sequential) drain_loop ::
  "('s, 'o) encode_and_send \<Rightarrow> 'h dispatcher \<Rightarrow> 's \<Rightarrow> ('h, 's, 'o) dstep" where
  "drain_loop send d s =
    (case dq_queue d of
       [] \<Rightarrow> Inr (d, s, [])
     | w0 # ws \<Rightarrow>
        if rb_max_in_flight (dq_budget d) \<le> length (dq_pending d) then Inr (d, s, [])
        else if flt (dq_tokens d) (FFin 1)
        then Inr (count_metric dm_rate_limit_deferrals_update 1 d, s, [])
        else let (w, rest) = take_min w0 ws in
          bindE (send (wt_spec w) s) (\<lambda>(sent, s1, os).
            let (d1, outs1) = after_send w sent (d\<lparr>dq_queue := rest\<rparr>) in
            bindE (drain_loop send d1 s1) (\<lambda>(d2, s2, outs2).
              Inr (d2, s2, map Emitted os @ outs1 @ outs2))))"
  by pat_completeness auto
termination
  by (relation "measure (\<lambda>(_, d, _). length (dq_queue d))")
    (auto simp: after_send_def count_metric_def dest!: take_min_length [OF sym] split: sum.splits)

declare drain_loop.simps [simp del]

definition drain ::
  "('s, 'o) encode_and_send \<Rightarrow> 'h dispatcher \<Rightarrow> 's \<Rightarrow> ('h, 's, 'o) dstep" where
  "drain send d s =
    (if \<not> dq_sending_enabled d \<or> dq_draining d then Inr (d, s, [])
     else bindE (drain_loop send (d\<lparr>dq_draining := True\<rparr>) s)
            (\<lambda>(d', s', outs). Inr (d'\<lparr>dq_draining := False\<rparr>, s', outs)))"

definition expire_queue :: "int \<Rightarrow> 'h dispatcher \<Rightarrow> 'h dispatcher \<times> ('h, 'o) dout list" where
  "expire_queue now d =
    (let late = filter (\<lambda>w. wt_deadline w \<le> now) (dq_queue d) in
     ((count_metric dm_timeouts_update (length late) d)
        \<lparr>dq_queue := filter (\<lambda>w. \<not> wt_deadline w \<le> now) (dq_queue d)\<rparr>,
      concat (map (\<lambda>w. complete (wt_handlers w) (Inl (timeout_error (rs_type (wt_spec w))))) late)))"

definition expire_pending :: "int \<Rightarrow> 'h dispatcher \<Rightarrow> 'h dispatcher \<times> ('h, 'o) dout list" where
  "expire_pending now d =
    (let late = filter (\<lambda>(i, p). pd_deadline p \<le> now) (dq_pending d) in
     ((count_metric dm_timeouts_update (length late) d)
        \<lparr>dq_pending := filter (\<lambda>(i, p). \<not> pd_deadline p \<le> now) (dq_pending d)\<rparr>,
      concat (map (\<lambda>(i, p). complete (pd_handlers p) (Inl (timeout_error (pd_type p)))) late)))"

definition tick ::
  "('s, 'o) encode_and_send \<Rightarrow> int \<Rightarrow> 'h dispatcher \<Rightarrow> 's \<Rightarrow> ('h, 's, 'o) dstep" where
  "tick send now d s =
    (let (d1, outs1) = expire_queue now (refill now d);
         (d2, outs2) = expire_pending now d1
     in bindE (drain send d2 s) (\<lambda>(d3, s', outs3). Inr (d3, s', outs1 @ outs2 @ outs3)))"

text \<open>The first waiting request with the same key takes the handler over.\<close>

fun coalesce ::
  "request_spec \<Rightarrow> 'h option \<Rightarrow> int \<Rightarrow> 'h waiting list \<Rightarrow> 'h waiting list option" where
  "coalesce spec h deadline [] = None"
| "coalesce spec h deadline (w # ws) =
    (if rs_coalesce_key (wt_spec w) = rs_coalesce_key spec
     then Some (w\<lparr>wt_handlers := wt_handlers w @ [h],
                  wt_spec := (if rs_priority spec < rs_priority (wt_spec w)
                              then (wt_spec w)\<lparr>rs_priority := rs_priority spec\<rparr> else wt_spec w),
                  wt_deadline := max (wt_deadline w) deadline\<rparr> # ws)
     else map_option (\<lambda>ws'. w # ws') (coalesce spec h deadline ws))"

definition new_waiting :: "request_spec \<Rightarrow> 'h option \<Rightarrow> int \<Rightarrow> nat \<Rightarrow> 'h waiting" where
  "new_waiting spec h deadline sq =
     \<lparr>wt_spec = spec, wt_handlers = [h], wt_deadline = deadline, wt_sequence = sq\<rparr>"

definition submit ::
  "('s, 'o) encode_and_send \<Rightarrow> request_spec \<Rightarrow> 'h option \<Rightarrow> int \<Rightarrow> 'h dispatcher \<Rightarrow> 's \<Rightarrow> ('h, 's, 'o) dstep"
  where
  "submit send spec h now d s =
    (let d1 = count_metric dm_submitted_update 1 d;
         timeout = (case rs_timeout spec of None \<Rightarrow> dq_default_timeout d | Some t \<Rightarrow> t);
         deadline = now + ns_of_ms timeout
     in case (if rs_coalesce_key spec = [] then None else coalesce spec h deadline (dq_queue d1)) of
          Some q \<Rightarrow> Inr (count_metric dm_coalesced_update 1 (d1\<lparr>dq_queue := q\<rparr>), s, [])
        | None \<Rightarrow>
            tick send now
              (d1\<lparr>dq_sequence := dq_sequence d1 + 1,
                  dq_queue := dq_queue d1 @ [new_waiting spec h deadline (dq_sequence d1 + 1)]\<rparr>) s)"

definition warn_out :: "'h dispatcher \<Rightarrow> string \<Rightarrow> string \<Rightarrow> ('h, 'o) dout list" where
  "warn_out d why ty = (if dq_warning d then [Warned why ty] else [])"

definition unexpected_type_error :: "string \<Rightarrow> string \<Rightarrow> error" where
  "unexpected_type_error request_type ty =
     (protocol_error UnexpectedResponseType (request_type @ '' was answered with '' @ CHR 0x27 # ty @ [CHR 0x27]))
       \<lparr>err_operation := Some request_type\<rparr>"

definition on_message ::
  "jobj \<Rightarrow> 'h dispatcher \<Rightarrow> (bool \<times> 'h dispatcher \<times> ('h, 'o) dout list) exec" where
  "on_message message d =
     bindE (msg_value get_string message ''in_reply_to'' []) (\<lambda>in_reply_to.
     if in_reply_to = [] then Inr (False, d, [])
     else case map_of (dq_pending d) in_reply_to of
       None \<Rightarrow>
         (if dq_warning d
          then bindE (msg_value get_string message ''type'' []) (\<lambda>ty.
                 Inr (True, d, [Warned ''response for an unknown or expired request'' ty]))
          else Inr (True, d, []))
     | Some p \<Rightarrow>
         bindE (msg_value get_string message ''type'' []) (\<lambda>ty.
         let d1 = d\<lparr>dq_pending := omap_erase in_reply_to (dq_pending d)\<rparr> in
         if (case find_meta (pd_type p) of None \<Rightarrow> False | Some m \<Rightarrow> \<not> accepts_response m ty)
         then Inr (True, count_metric dm_unexpected_responses_update 1 d1,
                warn_out d (''unexpected response type for '' @ pd_type p) ty @
                complete (pd_handlers p) (Inl (unexpected_type_error (pd_type p) ty)))
         else Inr (True, count_metric dm_completed_update 1 d1,
                complete (pd_handlers p) (Inr message))))"

definition fail_all :: "error \<Rightarrow> 'h dispatcher \<Rightarrow> 'h dispatcher \<times> ('h, 'o) dout list" where
  "fail_all e d =
     ((count_metric dm_disconnect_failures_update (length (dq_pending d) + length (dq_queue d)) d)
        \<lparr>dq_pending := [], dq_queue := []\<rparr>,
      concat (map (\<lambda>(i, p). complete (pd_handlers p) (Inl e)) (dq_pending d)) @
      concat (map (\<lambda>w. complete (wt_handlers w) (Inl e)) (dq_queue d)))"

definition metrics :: "'h dispatcher \<Rightarrow> dispatcher_metrics" where
  "metrics d = (dq_metrics d)\<lparr>dm_in_flight := length (dq_pending d), dm_queued := length (dq_queue d)\<rparr>"

section \<open>The choice of the next request\<close>

lemma before_iff: "before a b \<longleftrightarrow> wt_key a < wt_key b"
  by (auto simp: before_def wt_key_def less_prod_def' order_less_le)

lemma take_min_props:
  assumes "take_min x xs = (m, r)"
  shows "mset (x # xs) = add_mset m (mset r)" and "\<forall>y \<in> set (x # xs). wt_key m \<le> wt_key y"
proof -
  have "mset (x # xs) = add_mset m (mset r) \<and> (\<forall>y \<in> set (x # xs). wt_key m \<le> wt_key y)"
    using assms
  proof (induction xs arbitrary: x m r)
    case Nil
    then show ?case by simp
  next
    case (Cons y ys)
    obtain m' r' where m': "take_min y ys = (m', r')" by fastforce
    from Cons.IH [OF m'] Cons.prems m' show ?case
      by (auto simp: before_iff not_less split: if_splits intro: order.strict_implies_order order.trans)
  qed
  then show "mset (x # xs) = add_mset m (mset r)" and "\<forall>y \<in> set (x # xs). wt_key m \<le> wt_key y"
    by blast+
qed

section \<open>Induction over the send loop\<close>

lemma after_send_simps:
  assumes "after_send w sent d = (d1, outs1)"
  shows "dq_queue d1 = dq_queue d" and "dq_budget d1 = dq_budget d"
    and "dq_sequence d1 = dq_sequence d" and "dq_draining d1 = dq_draining d"
    and "dq_sending_enabled d1 = dq_sending_enabled d" and "dq_warning d1 = dq_warning d"
  using assms by (auto simp: after_send_def count_metric_def split: sum.splits)

lemma drain_loop_step:
  assumes "dq_queue d = w0 # ws" and "take_min w0 ws = (w, rest)"
    and "length (dq_pending d) < rb_max_in_flight (dq_budget d)" and "\<not> flt (dq_tokens d) (FFin 1)"
  shows "drain_loop send d s =
    bindE (send (wt_spec w) s) (\<lambda>(sent, s1, os).
      let (d1, outs1) = after_send w sent (d\<lparr>dq_queue := rest\<rparr>) in
      bindE (drain_loop send d1 s1) (\<lambda>(d2, s2, outs2). Inr (d2, s2, map Emitted os @ outs1 @ outs2)))"
  using assms by (subst drain_loop.simps) simp

lemma drain_loop_rule:
  fixes d :: "'h dispatcher" and outs :: "('h, 'o) dout list"
  assumes "drain_loop send d s = Inr (d', s', outs)"
    and stop: "\<And>d s. P d s d s []"
    and wait: "\<And>d s. P d s (count_metric dm_rate_limit_deferrals_update 1 d) s []"
    and step: "\<And>d s w w0 ws rest sent s1 os d1 outs1 d2 s2 outs2.
      dq_queue d = w0 # ws \<Longrightarrow> take_min w0 ws = (w, rest) \<Longrightarrow>
      length (dq_pending d) < rb_max_in_flight (dq_budget d) \<Longrightarrow> \<not> flt (dq_tokens d) (FFin 1) \<Longrightarrow>
      send (wt_spec w) s = Inr (sent, s1, os) \<Longrightarrow>
      after_send w sent (d\<lparr>dq_queue := rest\<rparr>) = (d1, outs1) \<Longrightarrow>
      P d1 s1 d2 s2 outs2 \<Longrightarrow> P d s d2 s2 (map Emitted os @ outs1 @ outs2)"
  shows "P d s d' s' outs"
  using assms(1)
proof (induction "length (dq_queue d)" arbitrary: d s d' s' outs rule: less_induct)
  case less
  show ?case
  proof (cases "dq_queue d")
    case Nil
    with less.prems show ?thesis by (simp add: drain_loop.simps stop)
  next
    case (Cons w0 ws)
    obtain w rest where w: "take_min w0 ws = (w, rest)" by fastforce
    show ?thesis
    proof (cases "length (dq_pending d) < rb_max_in_flight (dq_budget d) \<and> \<not> flt (dq_tokens d) (FFin 1)")
      case False
      with less.prems Cons show ?thesis
        by (subst (asm) drain_loop.simps) (auto simp: stop wait [unfolded One_nat_def] split: if_splits)
    next
      case True
      then have room: "length (dq_pending d) < rb_max_in_flight (dq_budget d)"
        and tok: "\<not> flt (dq_tokens d) (FFin 1)" by auto
      note unfold = drain_loop_step [OF Cons w room tok, of send s]
      from less.prems obtain sent s1 os where sent: "send (wt_spec w) s = Inr (sent, s1, os)"
        by (auto simp: unfold exec_simps)
      obtain d1 and outs1 :: "('h, 'o) dout list"
        where d1: "after_send w sent (d\<lparr>dq_queue := rest\<rparr>) = (d1, outs1)"
        by fastforce
      from less.prems obtain outs2 where rec: "drain_loop send d1 s1 = Inr (d', s', outs2)"
        and outs: "outs = map Emitted os @ outs1 @ outs2"
        by (auto simp: unfold exec_simps sent d1)
      have "length (dq_queue d1) < length (dq_queue d)"
        using after_send_simps(1) [OF d1] take_min_length [OF w] Cons by simp
      from less.hyps [OF this rec] show ?thesis
        unfolding outs by (rule step [OF Cons w room tok sent d1])
    qed
  qed
qed

section \<open>Bounds\<close>

lemma length_omap_put: "length (omap_put k v m) \<le> Suc (length m)"
  by (induction k v m rule: omap_put.induct) auto

lemma length_emplace_pending: "length (emplace_pending i w m) \<le> Suc (length m)"
  by (simp add: emplace_pending_def length_omap_put)

lemma after_send_pending_length:
  "after_send w sent d = (d1, outs1) \<Longrightarrow> length (dq_pending d1) \<le> Suc (length (dq_pending d))"
  using length_emplace_pending [of _ w "dq_pending d"]
  by (cases sent) (auto simp: after_send_def)

lemma drain_loop_in_flight:
  assumes "drain_loop send d s = Inr (d', s', outs)"
  shows "dq_budget d' = dq_budget d \<and>
    length (dq_pending d') \<le> max (length (dq_pending d)) (rb_max_in_flight (dq_budget d))"
  by (rule drain_loop_rule [OF assms]) (auto simp: after_send_simps dest: after_send_pending_length)

lemma drain_in_flight:
  assumes "drain send d s = Inr (d', s', outs)"
  shows "dq_budget d' = dq_budget d \<and>
    length (dq_pending d') \<le> max (length (dq_pending d)) (rb_max_in_flight (dq_budget d))"
  using assms
  by (auto simp: drain_def exec_simps split: if_splits prod.splits dest!: drain_loop_in_flight)

lemma expire_simps [simp]:
  "dq_budget (fst (expire_queue now d)) = dq_budget d"
  "dq_budget (fst (expire_pending now d)) = dq_budget d"
  "dq_pending (fst (expire_queue now d)) = dq_pending d"
  "dq_queue (fst (expire_pending now d)) = dq_queue d"
  "dq_queue (fst (expire_queue now d)) = filter (\<lambda>w. now < wt_deadline w) (dq_queue d)"
  "dq_pending (fst (expire_pending now d)) = filter (\<lambda>(i, p). now < pd_deadline p) (dq_pending d)"
  "dq_draining (fst (expire_queue now d)) = dq_draining d"
  "dq_draining (fst (expire_pending now d)) = dq_draining d"
  "dq_sending_enabled (fst (expire_queue now d)) = dq_sending_enabled d"
  "dq_sending_enabled (fst (expire_pending now d)) = dq_sending_enabled d"
  by (auto simp: expire_queue_def expire_pending_def Let_def not_le)

lemma refill_simps [simp]:
  "dq_budget (refill now d) = dq_budget d" "dq_pending (refill now d) = dq_pending d"
  "dq_queue (refill now d) = dq_queue d" "dq_draining (refill now d) = dq_draining d"
  "dq_sending_enabled (refill now d) = dq_sending_enabled d"
  by (auto simp: refill_def Let_def)

text \<open>\<open>tick\<close> is the send loop on the state left by the two expiry passes.\<close>

definition expired_state :: "int \<Rightarrow> 'h dispatcher \<Rightarrow> 'h dispatcher" where
  "expired_state now d =
     fst (expire_pending now (fst (expire_queue now (refill now d) :: 'h dispatcher \<times> ('h, unit) dout list))
       :: 'h dispatcher \<times> ('h, unit) dout list)"

definition expiry_outs :: "int \<Rightarrow> 'h dispatcher \<Rightarrow> ('h, 'o) dout list" where
  "expiry_outs now d =
     concat (map (\<lambda>w. complete (wt_handlers w) (Inl (timeout_error (rs_type (wt_spec w)))))
               (filter (\<lambda>w. wt_deadline w \<le> now) (dq_queue d))) @
     concat (map (\<lambda>(i, p). complete (pd_handlers p) (Inl (timeout_error (pd_type p))))
               (filter (\<lambda>(i, p). pd_deadline p \<le> now) (dq_pending d)))"

lemma tick_iff:
  "tick send now d s = Inr (d', s', outs) \<longleftrightarrow>
    (\<exists>outs3. drain send (expired_state now d) s = Inr (d', s', outs3) \<and> outs = expiry_outs now d @ outs3)"
  by (auto simp: tick_def expired_state_def expiry_outs_def expire_queue_def expire_pending_def Let_def
      exec_simps count_metric_def)

lemma expired_state_simps [simp]:
  "dq_budget (expired_state now d) = dq_budget d"
  "dq_queue (expired_state now d) = filter (\<lambda>w. now < wt_deadline w) (dq_queue d)"
  "dq_pending (expired_state now d) = filter (\<lambda>(i, p). now < pd_deadline p) (dq_pending d)"
  "dq_draining (expired_state now d) = dq_draining d"
  "dq_sending_enabled (expired_state now d) = dq_sending_enabled d"
  by (simp_all add: expired_state_def)

lemma tick_in_flight:
  assumes "tick send now d s = Inr (d', s', outs)"
  shows "dq_budget d' = dq_budget d \<and>
    length (dq_pending d') \<le> max (length (dq_pending d)) (rb_max_in_flight (dq_budget d))"
proof -
  from assms obtain outs3 where "drain send (expired_state now d) s = Inr (d', s', outs3)"
    by (auto simp: tick_iff)
  from drain_in_flight [OF this] show ?thesis
    using length_filter_le [of "\<lambda>(i, p). now < pd_deadline p" "dq_pending d"]
    by (auto simp: le_max_iff_disj intro: le_trans)
qed

lemma submit_in_flight:
  assumes "submit send spec h now d s = Inr (d', s', outs)"
  shows "dq_budget d' = dq_budget d \<and>
    length (dq_pending d') \<le> max (length (dq_pending d)) (rb_max_in_flight (dq_budget d))"
  using assms
  by (auto simp: submit_def Let_def dest!: tick_in_flight split: if_splits option.splits)

section \<open>What sending leaves alone\<close>

definition frame_kept :: "'h dispatcher \<Rightarrow> 'h dispatcher \<Rightarrow> bool" where
  "frame_kept d d' \<longleftrightarrow>
     dq_sending_enabled d' = dq_sending_enabled d \<and> dq_draining d' = dq_draining d \<and>
     dq_budget d' = dq_budget d \<and> (omap_ok (dq_pending d) \<longrightarrow> omap_ok (dq_pending d'))"

lemma omap_ok_filter: "omap_ok m \<Longrightarrow> omap_ok (filter P m)"
  by (simp add: omap_ok_def sorted_wrt_map sorted_wrt_filter)

lemma after_send_frame: "after_send w sent d = (d1, outs) \<Longrightarrow> frame_kept d d1"
  by (auto simp: after_send_def frame_kept_def emplace_pending_def omap_simps split: sum.splits)

lemma drain_loop_frame:
  assumes "drain_loop send d s = Inr (d', s', outs)"
  shows "frame_kept d d'"
  by (rule drain_loop_rule [OF assms]) (auto simp: frame_kept_def dest!: after_send_frame)

lemma drain_frame:
  "drain send d s = Inr (d', s', outs) \<Longrightarrow> frame_kept d d'"
  by (auto simp: drain_def frame_kept_def exec_simps dest!: drain_loop_frame split: if_splits)

lemma expired_state_frame: "frame_kept d (expired_state now d)"
  by (simp add: frame_kept_def omap_ok_filter)

lemma tick_frame: "tick send now d s = Inr (d', s', outs) \<Longrightarrow> frame_kept d d'"
  using expired_state_frame [of d now] by (auto simp: tick_iff frame_kept_def dest!: drain_frame)

lemma submit_frame: "submit send spec h now d s = Inr (d', s', outs) \<Longrightarrow> frame_kept d d'"
  by (auto simp: submit_def Let_def frame_kept_def dest!: tick_frame split: if_splits option.splits)

text \<open>A function of the owner's state that every call of \<open>send\<close> moves along a preorder.\<close>

lemma drain_loop_owner:
  assumes "drain_loop send d s = Inr (d', s', outs)"
    and "\<And>s. R s s" and "\<And>a b c. R a b \<Longrightarrow> R b c \<Longrightarrow> R a c"
    and "\<And>spec s r s1 os. send spec s = Inr (r, s1, os) \<Longrightarrow> R s s1"
  shows "R s s'"
  by (rule drain_loop_rule [OF assms(1)]) (use assms in blast)+

lemma tick_owner:
  assumes "tick send now d s = Inr (d', s', outs)"
    and R: "\<And>s. R s s" "\<And>a b c. R a b \<Longrightarrow> R b c \<Longrightarrow> R a c"
      "\<And>spec s r s1 os. send spec s = Inr (r, s1, os) \<Longrightarrow> R s s1"
  shows "R s s'"
proof -
  have "R t t'" if "drain_loop send e t = Inr (e', t', os)" for e t e' t' os
    using that by (rule drain_loop_owner) (fact R)+
  with assms(1) R(1) show ?thesis
    by (fastforce simp: tick_iff drain_def exec_simps split: if_splits)
qed

lemma submit_owner:
  assumes "submit send spec h now d s = Inr (d', s', outs)"
    and R: "\<And>s. R s s" "\<And>a b c. R a b \<Longrightarrow> R b c \<Longrightarrow> R a c"
      "\<And>spec s r s1 os. send spec s = Inr (r, s1, os) \<Longrightarrow> R s s1"
  shows "R s s'"
proof -
  have "R t t'" if "tick send now e t = Inr (e', t', os)" for e t e' t' os
    using that by (rule tick_owner) (fact R)+
  with assms(1) R(1) show ?thesis
    by (fastforce simp: submit_def Let_def split: if_splits option.splits)
qed

text \<open>With sending disabled nothing leaves the dispatcher.\<close>

lemma tick_disabled:
  assumes "\<not> dq_sending_enabled d" and "tick send now d s = Inr (d', s', outs)"
  shows "s' = s \<and> set (dq_pending d') \<subseteq> set (dq_pending d) \<and> (\<forall>x. Emitted x \<notin> set outs)"
  using assms by (auto simp: tick_iff drain_def expiry_outs_def complete_def)

lemma submit_disabled:
  assumes "\<not> dq_sending_enabled d" and "submit send spec h now d s = Inr (d', s', outs)"
  shows "s' = s \<and> set (dq_pending d') \<subseteq> set (dq_pending d) \<and> (\<forall>x. Emitted x \<notin> set outs)"
  using assms
  by (auto simp: submit_def Let_def split: if_splits option.splits dest!: tick_disabled [rotated])

section \<open>Order of sending\<close>

text \<open>
  The send loop takes requests off the queue in ascending order of (priority, arrival), and whatever
  it leaves in the queue comes after all of them.
\<close>

lemma drain_loop_order:
  assumes "drain_loop send d s = Inr (d', s', outs)"
  shows "\<exists>taken. mset (dq_queue d) = mset taken + mset (dq_queue d') \<and>
    sorted (map wt_key (taken)) \<and> (\<forall>w \<in> set taken. \<forall>v \<in> set (dq_queue d'). wt_key w \<le> wt_key v)"
proof (rule drain_loop_rule [OF assms])
  fix d s w w0 ws rest sent s1 os d1 outs1 d2 s2 outs2
  assume q: "dq_queue d = w0 # ws" and m: "take_min w0 ws = (w, rest)"
    and a: "after_send w sent (d\<lparr>dq_queue := rest\<rparr>) = (d1, outs1)"
    and "\<exists>taken. mset (dq_queue d1) = mset taken + mset (dq_queue d2) \<and> sorted (map wt_key taken) \<and>
      (\<forall>w \<in> set taken. \<forall>v \<in> set (dq_queue d2). wt_key w \<le> wt_key v)"
  then obtain taken where t: "mset rest = mset taken + mset (dq_queue d2)" "sorted (map wt_key taken)"
    "\<forall>w \<in> set taken. \<forall>v \<in> set (dq_queue d2). wt_key w \<le> wt_key v"
    using after_send_simps [OF a] by auto
  have "set rest = set taken \<union> set (dq_queue d2)"
    using arg_cong [OF t(1), of set_mset] by simp
  moreover have "set rest \<subseteq> set (w0 # ws)"
    using arg_cong [OF take_min_props(1) [OF m], of set_mset] by auto
  ultimately have "\<forall>v \<in> set taken \<union> set (dq_queue d2). wt_key w \<le> wt_key v"
    using take_min_props(2) [OF m] by blast
  then show "\<exists>taken. mset (dq_queue d) = mset taken + mset (dq_queue d2) \<and> sorted (map wt_key taken) \<and>
      (\<forall>w \<in> set taken. \<forall>v \<in> set (dq_queue d2). wt_key w \<le> wt_key v)"
    using t q take_min_props(1) [OF m] by (intro exI [of _ "w # taken"]) auto
qed (auto intro: exI [of _ "[]"])

section \<open>Deadlines\<close>

lemma set_emplace_pending:
  "snd ` set (emplace_pending i w m) \<subseteq>
     insert \<lparr>pd_type = rs_type (wt_spec w), pd_handlers = wt_handlers w, pd_deadline = wt_deadline w\<rparr> (snd ` set m)"
proof -
  have "set (omap_put i v m) \<subseteq> insert (i, v) (set m)" for v :: "'a pending"
    by (induction i v m rule: omap_put.induct) auto
  then have "snd ` set (omap_put i v m) \<subseteq> insert v (snd ` set m)" for v :: "'a pending"
    by (metis image_insert image_mono snd_conv)
  then show ?thesis by (auto simp: emplace_pending_def)
qed

definition all_after :: "int \<Rightarrow> 'h dispatcher \<Rightarrow> bool" where
  "all_after now d \<longleftrightarrow>
     (\<forall>w \<in> set (dq_queue d). now < wt_deadline w) \<and> (\<forall>p \<in> snd ` set (dq_pending d). now < pd_deadline p)"

lemma after_send_all_after:
  assumes "after_send w sent d = (d1, outs)" and "all_after now d" and "now < wt_deadline w"
  shows "all_after now d1"
  using assms set_emplace_pending [of _ w "dq_pending d"]
  by (cases sent) (fastforce simp: after_send_def all_after_def)+

lemma take_min_set:
  assumes "take_min x xs = (m, r)"
  shows "set (x # xs) = insert m (set r)"
  using arg_cong [OF take_min_props(1) [OF assms], of set_mset] by simp

lemma drain_loop_all_after:
  assumes "drain_loop send d s = Inr (d', s', outs)"
  shows "all_after now d \<longrightarrow> all_after now d'"
proof (rule drain_loop_rule [OF assms])
  fix d s w w0 ws rest sent s1 os d1 outs1 d2 s2 outs2
  assume q: "dq_queue d = w0 # ws" and m: "take_min w0 ws = (w, rest)"
    and a: "after_send w sent (d\<lparr>dq_queue := rest\<rparr>) = (d1, outs1)"
    and IH: "all_after now d1 \<longrightarrow> all_after now d2"
  have "all_after now (d\<lparr>dq_queue := rest\<rparr>) \<and> now < wt_deadline w" if "all_after now d"
    using that take_min_set [OF m] q by (auto simp: all_after_def)
  then show "all_after now d \<longrightarrow> all_after now d2"
    using IH after_send_all_after [OF a, of now] by blast
qed (auto simp: all_after_def)

lemma tick_all_after:
  assumes "tick send now d s = Inr (d', s', outs)"
  shows "all_after now d'"
proof -
  from assms obtain outs3 where "drain send (expired_state now d) s = Inr (d', s', outs3)"
    by (auto simp: tick_iff)
  then show ?thesis
    using drain_loop_all_after [of send "(expired_state now d)\<lparr>dq_draining := True\<rparr>" s _ s' outs3 now]
    by (fastforce simp: drain_def exec_simps all_after_def split: if_splits)
qed

section \<open>Conservation of handlers\<close>

text \<open>The handlers a dispatcher still owes an answer, and the handlers an output answers.\<close>

definition held :: "'h dispatcher \<Rightarrow> 'h multiset" where
  "held d = (\<Sum>w \<in># mset (dq_queue d). mset (live (wt_handlers w))) +
            (\<Sum>ip \<in># mset (dq_pending d). mset (live (pd_handlers (snd ip))))"

definition answered :: "('h, 'o) dout list \<Rightarrow> 'h multiset" where
  "answered outs = mset (concat (map (\<lambda>x. case x of Done h r \<Rightarrow> [h] | _ \<Rightarrow> []) outs))"

lemma answered_simps [simp]:
  "answered [] = {#}" "answered (xs @ ys) = answered xs + answered ys"
  "answered (map Emitted os) = {#}" "answered (complete hs r) = mset (live hs)"
  "answered (warn_out d a b) = {#}"
  by (auto simp: answered_def complete_def warn_out_def comp_def)

lemma answered_concat: "answered (concat (map f xs)) = (\<Sum>x \<in># mset xs. answered (f x))"
  by (induction xs) auto

lemma live_append [simp]: "live (xs @ ys) = live xs @ live ys"
  by (simp add: live_def)

lemma live_simps [simp]: "live [] = []" "live [Some h] = [h]" "live [None] = []"
  by (simp_all add: live_def)

lemma mset_omap_put_new: "map_of m k = None \<Longrightarrow> mset (omap_put k v m) = add_mset (k, v) (mset m)"
  by (induction k v m rule: omap_put.induct) (auto split: if_splits)

lemma mset_omap_erase:
  assumes "omap_ok m" and "map_of m k = Some v"
  shows "mset m = add_mset (k, v) (mset (omap_erase k m))"
  using assms
proof (induction m)
  case Nil
  then show ?case by simp
next
  case (Cons kv m)
  obtain l w where kv: "kv = (l, w)" by (cases kv)
  show ?case
  proof (cases "l = k")
    case True
    with Cons.prems kv have "map_of m k = None" by (auto simp: map_of_eq_None_iff)
    then show ?thesis using True Cons.prems kv omap_erase_absent by (fastforce simp: omap_erase_def)
  next
    case False
    with Cons kv show ?thesis by (simp add: omap_erase_def)
  qed
qed

lemma sum_filter_partition:
  "(\<Sum>x \<in># filter_mset P M. f x) + (\<Sum>x \<in># filter_mset (\<lambda>x. \<not> P x) M. f x) = (\<Sum>x \<in># M. f x)"
  for f :: "'a \<Rightarrow> 'b multiset"
  by (induction M) (auto simp: ac_simps)

lemma expiry_conserves: "held (expired_state now d) + answered (expiry_outs now d) = held d"
  using sum_filter_partition [where P = "\<lambda>w. wt_deadline w \<le> now" and M = "mset (dq_queue d)"
      and f = "\<lambda>w. mset (live (wt_handlers w))"]
    sum_filter_partition [where P = "\<lambda>ip. pd_deadline (snd ip) \<le> now" and M = "mset (dq_pending d)"
      and f = "\<lambda>ip. mset (live (pd_handlers (snd ip)))"]
  by (simp add: held_def expiry_outs_def answered_concat case_prod_beta not_le ac_simps)

lemma coalesce_held:
  assumes "coalesce spec h deadline q = Some q'"
  shows "(\<Sum>w \<in># mset q'. mset (live (wt_handlers w))) =
    (\<Sum>w \<in># mset q. mset (live (wt_handlers w))) + mset (live [h])"
  using assms by (induction q arbitrary: q') (auto simp: ac_simps split: if_splits)

text \<open>What \<open>on_message\<close> can do: nothing, a warning, or answering one open request and forgetting it.\<close>

lemma on_message_cases:
  fixes outs :: "('h, 'o) dout list"
  assumes "on_message message d = Inr (b, d', outs)"
  shows "(d' = d \<and> answered outs = {#}) \<or>
    (\<exists>i p. b \<and> map_of (dq_pending d) i = Some p \<and>
       dq_pending d' = omap_erase i (dq_pending d) \<and> dq_queue d' = dq_queue d \<and>
       dq_budget d' = dq_budget d \<and> dq_sending_enabled d' = dq_sending_enabled d \<and>
       dq_draining d' = dq_draining d \<and> answered outs = mset (live (pd_handlers p)))"
proof -
  from assms obtain i where i: "msg_value get_string message ''in_reply_to'' [] = Inr i"
    by (auto simp: on_message_def exec_simps)
  consider "i = []" | "i \<noteq> []" "map_of (dq_pending d) i = None"
    | p where "i \<noteq> []" "map_of (dq_pending d) i = Some p" by fastforce
  then show ?thesis
  proof cases
    case 1
    with assms i show ?thesis by (auto simp: on_message_def)
  next
    case 2
    with assms i show ?thesis
      by (auto simp: on_message_def exec_simps answered_def split: if_splits)
  next
    case 3
    with assms i show ?thesis
      by (auto simp: on_message_def exec_simps Let_def simp del: split_paired_Ex
          intro!: exI [of _ i] split: if_splits)
  qed
qed

text \<open>
  The contract between the dispatcher and the encoder of the session that owns it: a message id that
  \<open>send\<close> returns was not in use before, and ids once used stay used. Under it every handler is
  answered exactly once: what was owed and what is added equals what is owed afterwards and what was
  answered meanwhile.
\<close>

locale request_channel =
  fixes send :: "('s, 'o) encode_and_send"
    and used :: "'s \<Rightarrow> string \<Rightarrow> bool"
  assumes send_fresh: "send spec s = Inr (Inr i, s', os) \<Longrightarrow> \<not> used s i \<and> used s' i"
    and send_keeps: "send spec s = Inr (r, s', os) \<Longrightarrow> used s i \<Longrightarrow> used s' i"
begin

definition tracked :: "'h dispatcher \<Rightarrow> 's \<Rightarrow> bool" where
  "tracked d s \<longleftrightarrow> (\<forall>i \<in> fst ` set (dq_pending d). used s i)"

lemma tracked_sub:
  "tracked d s \<Longrightarrow> set (dq_pending d') \<subseteq> set (dq_pending d) \<Longrightarrow> tracked d' s"
  by (auto simp: tracked_def)

lemma after_send_conserves:
  assumes "tracked d s" and sent: "send spec s = Inr (sent, s1, os)"
    and a: "after_send w sent d = (d1, outs1)"
  shows "tracked d1 s1 \<and> held d1 + answered outs1 = held d + mset (live (wt_handlers w))"
proof (cases sent)
  case (Inl e)
  with a assms(1) send_keeps [OF sent] show ?thesis
    by (fastforce simp: after_send_def tracked_def held_def)
next
  case (Inr i)
  then have "\<not> used s i" and "used s1 i" using send_fresh [of spec s i s1 os] sent by auto
  then have new: "map_of (dq_pending d) i = None"
    using assms(1) by (auto simp: tracked_def map_of_eq_None_iff)
  then have *: "dq_queue d1 = dq_queue d" "outs1 = []"
    "dq_pending d1 = omap_put i \<lparr>pd_type = rs_type (wt_spec w), pd_handlers = wt_handlers w,
       pd_deadline = wt_deadline w\<rparr> (dq_pending d)"
    using Inr a by (auto simp: after_send_def emplace_pending_def)
  have "fst ` set (dq_pending d1) = insert i (fst ` set (dq_pending d))"
    by (simp add: * set_omap_put_keys)
  then have "tracked d1 s1"
    using assms(1) \<open>used s1 i\<close> send_keeps [OF sent] by (simp add: tracked_def)
  moreover have "held d1 + answered outs1 = held d + mset (live (wt_handlers w))"
    by (simp add: * held_def mset_omap_put_new [OF new] ac_simps)
  ultimately show ?thesis ..
qed

lemma drain_loop_conserves:
  fixes d :: "'h dispatcher" and outs :: "('h, 'o) dout list"
  assumes "drain_loop send d s = Inr (d', s', outs)"
  shows "tracked d s \<longrightarrow> tracked d' s' \<and> held d' + answered outs = held d"
proof (rule drain_loop_rule [OF assms])
  fix d :: "'h dispatcher" and s w w0 ws rest sent s1 os d1 d2 s2
    and outs1 outs2 :: "('h, 'o) dout list"
  assume q: "dq_queue d = w0 # ws" and m: "take_min w0 ws = (w, rest)"
    and sent: "send (wt_spec w) s = Inr (sent, s1, os)"
    and a: "after_send w sent (d\<lparr>dq_queue := rest\<rparr>) = (d1, outs1)"
    and IH: "tracked d1 s1 \<longrightarrow> tracked d2 s2 \<and> held d2 + answered outs2 = held d1"
  show "tracked d s \<longrightarrow> tracked d2 s2 \<and> held d2 + answered (map Emitted os @ outs1 @ outs2) = held d"
  proof
    assume "tracked d s"
    then have "tracked (d\<lparr>dq_queue := rest\<rparr>) s" by (simp add: tracked_def)
    from after_send_conserves [OF this sent a]
    have *: "tracked d1 s1" "held d1 + answered outs1 = held (d\<lparr>dq_queue := rest\<rparr>) + mset (live (wt_handlers w))"
      by auto
    have "held d = held (d\<lparr>dq_queue := rest\<rparr>) + mset (live (wt_handlers w))"
      using take_min_props(1) [OF m] q by (simp add: held_def)
    then show "tracked d2 s2 \<and> held d2 + answered (map Emitted os @ outs1 @ outs2) = held d"
      using IH * by (auto simp: ac_simps)
  qed
qed (auto simp: tracked_def held_def)

lemma drain_conserves:
  assumes "drain send d s = Inr (d', s', outs)" and "tracked d s"
  shows "tracked d' s' \<and> held d' + answered outs = held d"
  using assms drain_loop_conserves [of "d\<lparr>dq_draining := True\<rparr>" s]
  by (fastforce simp: drain_def exec_simps tracked_def held_def split: if_splits)

lemma tick_conserves:
  assumes "tick send now d s = Inr (d', s', outs)" and "tracked d s"
  shows "tracked d' s' \<and> held d' + answered outs = held d"
proof -
  from assms(1) obtain outs3 where d: "drain send (expired_state now d) s = Inr (d', s', outs3)"
    and outs: "outs = expiry_outs now d @ outs3"
    by (auto simp: tick_iff)
  have "tracked (expired_state now d) s" using assms(2) by (rule tracked_sub) auto
  from drain_conserves [OF d this]
  have "tracked d' s'" and "held d' + answered outs3 = held (expired_state now d)" by auto
  moreover have "held d' + answered outs = (held d' + answered outs3) + answered (expiry_outs now d :: ('a, 'o) dout list)"
    by (simp add: outs ac_simps)
  ultimately show ?thesis using expiry_conserves [of now d] by simp
qed

lemma submit_conserves:
  assumes "submit send spec h now d s = Inr (d', s', outs)" and "tracked d s"
  shows "tracked d' s' \<and> held d' + answered outs = held d + mset (live [h])"
proof (cases "if rs_coalesce_key spec = [] then None
    else coalesce spec h (now + ns_of_ms (case rs_timeout spec of None \<Rightarrow> dq_default_timeout d | Some t \<Rightarrow> t))
      (dq_queue d)")
  case None
  let ?w = "new_waiting spec h
    (now + ns_of_ms (case rs_timeout spec of None \<Rightarrow> dq_default_timeout d | Some t \<Rightarrow> t)) (dq_sequence d + 1)"
  let ?d = "(count_metric dm_submitted_update 1 d)
    \<lparr>dq_sequence := dq_sequence d + 1, dq_queue := dq_queue d @ [?w]\<rparr>"
  have t: "tick send now ?d s = Inr (d', s', outs)"
    using None assms(1) by (auto simp: submit_def Let_def split: if_splits)
  have "tracked ?d s" and "held ?d = held d + mset (live [h])"
    using assms(2) by (simp_all add: tracked_def held_def new_waiting_def ac_simps)
  with tick_conserves [OF t] show ?thesis by simp
next
  case (Some q)
  with assms show ?thesis
    using coalesce_held [of spec h _ "dq_queue d" q]
    by (auto simp: submit_def Let_def tracked_def held_def ac_simps split: if_splits)
qed

lemma on_message_conserves:
  assumes "on_message message d = Inr (b, d', outs)" and "omap_ok (dq_pending d)" and "tracked d s"
  shows "tracked d' s \<and> held d' + answered outs = held d"
proof -
  have *: "held (d\<lparr>dq_pending := omap_erase i (dq_pending d)\<rparr>) + mset (live (pd_handlers p)) = held d"
    if "map_of (dq_pending d) i = Some p" for i p
    using mset_omap_erase [OF assms(2) that] by (simp add: held_def ac_simps)
  have "tracked (d\<lparr>dq_pending := omap_erase i (dq_pending d)\<rparr>) s" for i
    using assms(3) by (rule tracked_sub) (auto simp: omap_erase_def)
  with on_message_cases [OF assms(1)] * assms(3) show ?thesis
    by (fastforce simp: tracked_def held_def)
qed

lemma fail_all_conserves:
  assumes "fail_all e d = (d', outs)"
  shows "tracked d' s \<and> held d' = {#} \<and> answered outs = held d"
  using assms by (auto simp: fail_all_def tracked_def held_def answered_concat case_prod_beta)

end

section \<open>The token bucket\<close>

definition at_most :: "nat \<Rightarrow> fp \<Rightarrow> bool" where
  "at_most n t \<longleftrightarrow> fle t (FFin (of_nat n))"

lemma at_most_fsub:
  assumes "at_most (Suc n) t" and "n < 2 ^ 53"
  shows "at_most n (fsub t (FFin 1))"
proof (cases t)
  case (FFin x)
  then have "x - 1 \<le> of_int (int n)" using assms(1) by (auto simp: at_most_def fle_def)
  with fround64_le_int [OF this] assms(2) show ?thesis
    by (simp add: FFin fsub_def at_most_def)
qed (use assms in \<open>auto simp: at_most_def fsub_def fle_def\<close>)

lemma after_send_sent:
  assumes "after_send w sent d = (d1, outs)"
  shows "(dq_tokens d1 = dq_tokens d \<and> dm_sent (dq_metrics d1) = dm_sent (dq_metrics d)) \<or>
    (dq_tokens d1 = fsub (dq_tokens d) (FFin 1) \<and> dm_sent (dq_metrics d1) = dm_sent (dq_metrics d) + 1)"
  using assms by (auto simp: after_send_def count_metric_def split: sum.splits)

lemma not_flt_one: "at_most n t \<Longrightarrow> \<not> flt t (FFin 1) \<Longrightarrow> 0 < n"
  by (cases t) (auto simp: at_most_def fle_def intro: gr0I)

lemma drain_loop_tokens:
  assumes "drain_loop send d s = Inr (d', s', outs)"
  shows "\<forall>n < 2 ^ 53. at_most n (dq_tokens d) \<longrightarrow>
    dm_sent (dq_metrics d) \<le> dm_sent (dq_metrics d') \<and>
    dm_sent (dq_metrics d') \<le> dm_sent (dq_metrics d) + n \<and>
    at_most (n - (dm_sent (dq_metrics d') - dm_sent (dq_metrics d))) (dq_tokens d')"
proof (rule drain_loop_rule [OF assms])
  fix d :: "'a dispatcher" and s w w0 ws rest sent s1 os d1 d2 s2 and outs1 outs2 :: "('a, 'c) dout list"
  assume tok: "\<not> flt (dq_tokens d) (FFin 1)" and a: "after_send w sent (d\<lparr>dq_queue := rest\<rparr>) = (d1, outs1)"
    and IH: "\<forall>n < 2 ^ 53. at_most n (dq_tokens d1) \<longrightarrow>
      dm_sent (dq_metrics d1) \<le> dm_sent (dq_metrics d2) \<and>
      dm_sent (dq_metrics d2) \<le> dm_sent (dq_metrics d1) + n \<and>
      at_most (n - (dm_sent (dq_metrics d2) - dm_sent (dq_metrics d1))) (dq_tokens d2)"
  show "\<forall>n < 2 ^ 53. at_most n (dq_tokens d) \<longrightarrow>
      dm_sent (dq_metrics d) \<le> dm_sent (dq_metrics d2) \<and>
      dm_sent (dq_metrics d2) \<le> dm_sent (dq_metrics d) + n \<and>
      at_most (n - (dm_sent (dq_metrics d2) - dm_sent (dq_metrics d))) (dq_tokens d2)"
  proof (intro allI impI)
    fix n :: nat
    assume n: "n < 2 ^ 53" "at_most n (dq_tokens d)"
    then obtain m where m: "n = Suc m" using not_flt_one [OF n(2) tok] by (cases n) auto
    from after_send_sent [OF a]
    show "dm_sent (dq_metrics d) \<le> dm_sent (dq_metrics d2) \<and>
      dm_sent (dq_metrics d2) \<le> dm_sent (dq_metrics d) + n \<and>
      at_most (n - (dm_sent (dq_metrics d2) - dm_sent (dq_metrics d))) (dq_tokens d2)"
    proof
      assume "dq_tokens d1 = dq_tokens (d\<lparr>dq_queue := rest\<rparr>) \<and>
        dm_sent (dq_metrics d1) = dm_sent (dq_metrics (d\<lparr>dq_queue := rest\<rparr>))"
      with IH n show ?thesis by auto
    next
      assume *: "dq_tokens d1 = fsub (dq_tokens (d\<lparr>dq_queue := rest\<rparr>)) (FFin 1) \<and>
        dm_sent (dq_metrics d1) = dm_sent (dq_metrics (d\<lparr>dq_queue := rest\<rparr>)) + 1"
      have "m < 2 ^ 53" using n(1) m by simp
      moreover have "at_most m (dq_tokens d1)" using at_most_fsub [of m "dq_tokens d"] n m * by simp
      ultimately have "dm_sent (dq_metrics d1) \<le> dm_sent (dq_metrics d2) \<and>
        dm_sent (dq_metrics d2) \<le> dm_sent (dq_metrics d1) + m \<and>
        at_most (m - (dm_sent (dq_metrics d2) - dm_sent (dq_metrics d1))) (dq_tokens d2)"
        using IH by blast
      moreover from this have "n - (dm_sent (dq_metrics d2) - dm_sent (dq_metrics d)) =
          m - (dm_sent (dq_metrics d2) - dm_sent (dq_metrics d1))"
        using * m by auto
      ultimately show ?thesis using * m by simp
    qed
  qed
qed (auto simp: count_metric_def)

lemma at_most_mono: "at_most m t \<Longrightarrow> m \<le> n \<Longrightarrow> at_most n t"
  by (cases t) (auto simp: at_most_def fle_def intro: order.trans)

lemma expired_state_metrics [simp]:
  "dq_tokens (expired_state now d) = dq_tokens (refill now d)"
  "dm_sent (dq_metrics (expired_state now d)) = dm_sent (dq_metrics d)"
  by (simp_all add: expired_state_def expire_queue_def expire_pending_def Let_def count_metric_def refill_def)

lemma refill_at_most:
  assumes "rb_burst (dq_budget d) = FFin (of_nat n)" and "at_most n (dq_tokens d)"
  shows "at_most n (dq_tokens (refill now d))"
  using assms fmin_le [of "FFin (of_nat n)"] by (simp add: refill_def Let_def at_most_def)

lemma drain_tokens:
  assumes "drain send d s = Inr (d', s', outs)" and "n < 2 ^ 53" and "at_most n (dq_tokens d)"
  shows "dm_sent (dq_metrics d') \<le> dm_sent (dq_metrics d) + n \<and> at_most n (dq_tokens d')"
proof (cases "\<not> dq_sending_enabled d \<or> dq_draining d")
  case True
  with assms show ?thesis by (auto simp: drain_def)
next
  case False
  with assms(1) obtain e where e: "drain_loop send (d\<lparr>dq_draining := True\<rparr>) s = Inr (e, s', outs)"
    and d': "d' = e\<lparr>dq_draining := False\<rparr>"
    by (auto simp: drain_def exec_simps)
  from drain_loop_tokens [OF e, rule_format, of n] assms(2,3) show ?thesis
    by (auto simp: d' intro: at_most_mono)
qed

section \<open>Properties\<close>

definition demo_send :: "(nat, string) encode_and_send" where
  "demo_send spec n = Inr (Inr (nat_dec n), n + 1, [rs_type spec])"

definition demo_spec :: "string \<Rightarrow> operation_priority \<Rightarrow> request_spec" where
  "demo_spec ty p = \<lparr>rs_type = ty, rs_body = JObj [], rs_timeout = None, rs_priority = p, rs_coalesce_key = []\<rparr>"

definition demo_dispatcher :: "nat dispatcher" where
  "demo_dispatcher = (make_dispatcher default_budget 10000)
     \<lparr>dq_queue := [new_waiting (demo_spec ''dp_read'' Polling) (Some 1) 5 1,
                   new_waiting (demo_spec ''command'' SafetyControl) (Some 2) 50 2]\<rparr>"

text \<open>
  C9: When a tick returns, no request whose deadline has passed is left, waiting or open, and every
  handler of such a request has been told about the timeout.
\<close>

theorem tick_settles_deadlines:
  assumes "tick send now d s = Inr (d', s', outs)"
  shows "(\<forall>w \<in> set (dq_queue d'). now < wt_deadline w) \<and>
    (\<forall>p \<in> snd ` set (dq_pending d'). now < pd_deadline p) \<and>
    (\<forall>w \<in> set (dq_queue d). wt_deadline w \<le> now \<longrightarrow>
       (\<forall>h \<in> set (live (wt_handlers w)). Done h (Inl (timeout_error (rs_type (wt_spec w)))) \<in> set outs)) \<and>
    (\<forall>p \<in> snd ` set (dq_pending d). pd_deadline p \<le> now \<longrightarrow>
       (\<forall>h \<in> set (live (pd_handlers p)). Done h (Inl (timeout_error (pd_type p))) \<in> set outs))"
proof -
  from assms obtain outs3 where outs: "outs = expiry_outs now d @ outs3" by (auto simp: tick_iff)
  have "all_after now d'" by (rule tick_all_after [OF assms])
  moreover have "\<forall>w \<in> set (dq_queue d). wt_deadline w \<le> now \<longrightarrow>
      (\<forall>h \<in> set (live (wt_handlers w)). Done h (Inl (timeout_error (rs_type (wt_spec w)))) \<in> set outs)"
    by (fastforce simp: outs expiry_outs_def complete_def)
  moreover have "\<forall>p \<in> snd ` set (dq_pending d). pd_deadline p \<le> now \<longrightarrow>
      (\<forall>h \<in> set (live (pd_handlers p)). Done h (Inl (timeout_error (pd_type p))) \<in> set outs)"
    by (fastforce simp: outs expiry_outs_def complete_def)
  ultimately show ?thesis by (simp add: all_after_def)
qed

theorem tick_settles_deadlines_witness:
  "case tick demo_send 5 demo_dispatcher 0 of
     Inr (d', s', outs) \<Rightarrow> Done 1 (Inl (timeout_error ''dp_read'')) \<in> set outs | Inl e \<Rightarrow> False"
proof -
  have "\<not> isl (tick demo_send 5 demo_dispatcher 0)" by code_simp
  then obtain d' s' outs where r: "tick demo_send 5 demo_dispatcher 0 = Inr (d', s', outs)"
    by (cases "tick demo_send 5 demo_dispatcher 0") auto
  from tick_settles_deadlines [OF r] show ?thesis
    unfolding r by (simp add: demo_dispatcher_def new_waiting_def demo_spec_def)
qed



text \<open>
  C12: The token bucket bounds bursts: with a burst of n tokens no tick sends more than n requests,
  and the bucket never holds more than n tokens, whatever the elapsed times round to.
\<close>

theorem tick_respects_burst:
  assumes "tick send now d s = Inr (d', s', outs)" and "rb_burst (dq_budget d) = FFin (of_nat n)"
    and "n < 2 ^ 53" and "at_most n (dq_tokens d)"
  shows "dm_sent (dq_metrics d') \<le> dm_sent (dq_metrics d) + n \<and> at_most n (dq_tokens d')"
proof -
  from assms(1) obtain outs3 where d: "drain send (expired_state now d) s = Inr (d', s', outs3)"
    by (auto simp: tick_iff)
  have "at_most n (dq_tokens (expired_state now d))"
    using refill_at_most [OF assms(2,4), of now] by simp
  from drain_tokens [OF d assms(3) this] show ?thesis by simp
qed

theorem tick_respects_burst_witness:
  "case tick demo_send 0 demo_dispatcher 0 of
     Inr (d', s', outs) \<Rightarrow> dm_sent (dq_metrics d') \<le> 8 \<and> at_most 8 (dq_tokens d') | Inl e \<Rightarrow> False"
proof -
  have "\<not> isl (tick demo_send 0 demo_dispatcher 0)" by code_simp
  then obtain d' s' outs where r: "tick demo_send 0 demo_dispatcher 0 = Inr (d', s', outs)"
    by (cases "tick demo_send 0 demo_dispatcher 0") auto
  have "dm_sent (dq_metrics demo_dispatcher) = 0" "rb_burst (dq_budget demo_dispatcher) = FFin (of_nat 8)"
    "at_most 8 (dq_tokens demo_dispatcher)"
    by (simp_all add: demo_dispatcher_def make_dispatcher_def zero_metrics_def default_budget_def at_most_def fle_def)
  with tick_respects_burst [OF r, of 8] show ?thesis by (simp add: r)
qed

text \<open>
  C13: The answer to an open request: with a type the request allows, its handlers get the message;
  with any other type they get an error that names both; in either case the request is closed and
  nothing else changes its owner.
\<close>

theorem response_correlation:
  assumes "map_of message ''in_reply_to'' = Some (JStr i)" and "i \<noteq> []"
    and "map_of message ''type'' = Some (JStr ty)" and "map_of (dq_pending d) i = Some p"
    and "find_meta (pd_type p) = Some m"
  shows "\<exists>d' ws. on_message message d = Inr (True, d', ws @ complete (pd_handlers p)
      (if ty \<in> set (take (mm_response_count m) (mm_responses m)) then Inr message
       else Inl (unexpected_type_error (pd_type p) ty))) \<and>
    answered ws = {#} \<and> dq_pending d' = omap_erase i (dq_pending d) \<and> dq_queue d' = dq_queue d"
proof -
  have acc: "accepts_response m ty \<longleftrightarrow> ty \<in> set (take (mm_response_count m) (mm_responses m))"
    by (auto simp: accepts_response_def list_ex_iff)
  show ?thesis
  proof (cases "accepts_response m ty")
    case True
    with assms acc show ?thesis by (auto simp: on_message_def msg_value_present Let_def)
  next
    case False
    with assms acc show ?thesis
      by (auto simp: on_message_def msg_value_present Let_def intro!: exI [of _ "warn_out d _ ty"])
  qed
qed

theorem response_correlation_witness:
  "\<exists>d' ws. on_message [(''in_reply_to'', JStr ''s-1''), (''type'', JStr ''dp_report'')]
      ((make_dispatcher default_budget 10000)\<lparr>dq_pending := [(''s-1'', \<lparr>pd_type = ''dp_read'',
        pd_handlers = [Some (3 :: nat)], pd_deadline = 9\<rparr>)]\<rparr>) =
     Inr (True, d', ws @ [Done 3 (Inr [(''in_reply_to'', JStr ''s-1''), (''type'', JStr ''dp_report'')])
        :: (nat, nat) dout])"
proof -
  let ?m = "[(''in_reply_to'', JStr ''s-1''), (''type'', JStr ''dp_report'')]"
  let ?p = "\<lparr>pd_type = ''dp_read'', pd_handlers = [Some (3 :: nat)], pd_deadline = 9\<rparr>"
  have "find_meta (pd_type ?p) = Some (meta_row ''dp_read'' S2c 2 Auth_None True [''dp_report'', []] 1)"
    by (simp add: find_meta_def kMessages_def meta_row_def)
  from response_correlation [of ?m "''s-1''" "''dp_report''"
      "(make_dispatcher default_budget 10000)\<lparr>dq_pending := [(''s-1'', ?p)]\<rparr>" ?p, OF _ _ _ _ this]
  show ?thesis by (auto simp: meta_row_def complete_def)
qed

end
