(* ===== verification/Blocking.thy ===== *)
theory Blocking
  imports Dispatcher
begin

text \<open>
  The synchronous wrapper \<open>detail::sync_wait\<close> (\<open>detail/sync_wait.hpp\<close>) that manager, commands,
  logs and raw access share. What a blocking call depends on is a record: the runner's status
  (\<open>None\<close>: the service is not bound to a client), the answer the session eventually gives to a
  request (every submitted request is answered exactly once, see \<open>Session_Safety\<close>), the steady clock
  at the answer, and the library conversions. An exception that leaves a continuation is \<open>Inl\<close>.
\<close>

record service_env =
  sv_runner :: "unit result option"
  sv_device :: "request_spec \<Rightarrow> jobj result"
  sv_now :: int
  sv_dump :: "json \<Rightarrow> string exec"
  sv_fcast :: "fp \<Rightarrow> int"

definition sync_wait ::
  "service_env \<Rightarrow> ('s \<Rightarrow> ('a result \<times> 's \<times> 'n list) exec) \<Rightarrow> 's \<Rightarrow> ('a result \<times> 's \<times> 'n list) exec" where
  "sync_wait sv start s =
    (case sv_runner sv of
       None \<Rightarrow> Inr (Inl (internal_error ''service is not bound to a client''), s, [])
     | Some (Inl e) \<Rightarrow> Inr (Inl e, s, [])
     | Some (Inr _) \<Rightarrow> start s)"

lemma sync_wait_bound [simp]: "sv_runner sv = Some (Inr u) \<Longrightarrow> sync_wait sv start s = start s"
  by (simp add: sync_wait_def)

lemma sync_wait_refused: "sv_runner sv = Some (Inl e) \<Longrightarrow> sync_wait sv start s = Inr (Inl e, s, [])"
  by (simp add: sync_wait_def)

end
