(* ===== verification/Events.thy ===== *)
theory Events
  imports Json Errors
begin

text \<open>
  Domain events and their distribution (\<open>connection.hpp\<close>, \<open>events.hpp\<close>, \<open>events.cpp\<close>). A handler
  is a name; emitting an event lists the handlers it calls, in order. Slot tokens are natural numbers
  (64-bit in the source, which a process cannot exhaust). Times are nanoseconds of the steady clock.
\<close>

section \<open>Event types\<close>

datatype client_state =
    Disconnected_state | Resolving | TcpConnecting | TlsHandshaking | WebSocketHandshaking
  | FountainHandshaking | Ready | Reconnecting | Closing

fun client_state_to_string :: "client_state \<Rightarrow> string" where
  "client_state_to_string Disconnected_state = ''disconnected''"
| "client_state_to_string Resolving = ''resolving''"
| "client_state_to_string TcpConnecting = ''tcp_connecting''"
| "client_state_to_string TlsHandshaking = ''tls_handshaking''"
| "client_state_to_string WebSocketHandshaking = ''websocket_handshaking''"
| "client_state_to_string FountainHandshaking = ''fountain_handshaking''"
| "client_state_to_string Ready = ''ready''"
| "client_state_to_string Reconnecting = ''reconnecting''"
| "client_state_to_string Closing = ''closing''"

record connection_info =
  ci_device_id :: string
  ci_serial :: string
  ci_firmware_version :: string
  ci_hardware_revision :: string
  ci_boot_reason :: string
  ci_protocol_version :: "8 word"
  ci_auth_scheme :: string
  ci_auth_scope :: string
  ci_auth_kid :: string
  ci_established_at :: int

definition empty_info :: connection_info where
  "empty_info =
     \<lparr>ci_device_id = [], ci_serial = [], ci_firmware_version = [], ci_hardware_revision = [],
      ci_boot_reason = [], ci_protocol_version = 0, ci_auth_scheme = [], ci_auth_scope = [],
      ci_auth_kid = [], ci_established_at = 0\<rparr>"

record heartbeat =
  hb_uptime_s :: "32 word"
  hb_firmware_version :: string
  hb_fault_active :: bool
  hb_received_at :: int

record device_alert =
  da_code :: string
  da_severity :: string
  da_datapoint :: string
  da_value :: "fp option"
  da_threshold :: "fp option"
  da_detail :: string
  da_received_at :: int

record ota_status =
  os_target_version :: string
  os_state :: string
  os_attempt :: "8 word"
  os_progress_pct :: "8 word"
  os_error :: string
  os_error_detail :: string

record error_report =
  er_status :: string
  er_active_faults :: json
  er_log :: json

record connection_state_change =
  sc_previous :: client_state
  sc_current :: client_state
  sc_info :: "connection_info option"
  sc_cause :: "error option"

record protocol_warning =
  pw_reason :: string
  pw_message_type :: string
  pw_in_reply_to :: "string option"

datatype event =
    Ev_state connection_state_change
  | Ev_heartbeat heartbeat
  | Ev_alert device_alert
  | Ev_ota ota_status
  | Ev_error_report error_report
  | Ev_warning protocol_warning
  | Ev_unknown string jobj

section \<open>Slot registries\<close>

text \<open>
  What a subscriber relies on: a registry hands out a token no present slot has, calls every present
  slot once and in the order of subscription, and removing a token removes that slot alone.
\<close>

locale slot_registry =
  fixes radd :: "'h \<Rightarrow> 'r \<Rightarrow> nat \<times> 'r"
    and rremove :: "nat \<Rightarrow> 'r \<Rightarrow> 'r"
    and rslots :: "'r \<Rightarrow> (nat \<times> 'h) list"
    and rok :: "'r \<Rightarrow> bool"
  assumes radd_ok: "rok r \<Longrightarrow> rok (snd (radd h r))"
    and rremove_ok: "rok r \<Longrightarrow> rok (rremove t r)"
    and radd_fresh: "rok r \<Longrightarrow> fst (radd h r) \<notin> fst ` set (rslots r)"
    and radd_slots: "rok r \<Longrightarrow> rslots (snd (radd h r)) = rslots r @ [(fst (radd h r), h)]"
    and rremove_slots: "rok r \<Longrightarrow> rslots (rremove t r) = filter (\<lambda>s. fst s \<noteq> t) (rslots r)"
    and rslots_distinct: "rok r \<Longrightarrow> distinct (map fst (rslots r))"
begin

lemma unsubscribe_restores:
  assumes "rok r"
  shows "rslots (rremove (fst (radd h r)) (snd (radd h r))) = rslots r"
proof -
  have "filter (\<lambda>s. fst s \<noteq> fst (radd h r)) (rslots r) = rslots r"
    using radd_fresh [OF assms, of h] by (force simp: filter_id_conv)
  then show ?thesis
    by (simp add: rremove_slots [OF radd_ok [OF assms]] radd_slots [OF assms])
qed

lemma unsubscribe_twice:
  "rok r \<Longrightarrow> rslots (rremove t (rremove t r)) = rslots (rremove t r)"
  by (simp add: rremove_slots rremove_ok)

lemma others_still_called:
  "rok r \<Longrightarrow> (u, h) \<in> set (rslots r) \<Longrightarrow> u \<noteq> t \<Longrightarrow> (u, h) \<in> set (rslots (rremove t r))"
  by (simp add: rremove_slots)

end

text \<open>\<open>SlotList\<close>: \<open>emit\<close> iterates over a copy of the slots, so a handler may unsubscribe meanwhile.\<close>

record 'h slot_list =
  sl_slots :: "(nat, 'h) omap"
  sl_next_token :: nat

definition empty_slots :: "'h slot_list" where
  "empty_slots = \<lparr>sl_slots = [], sl_next_token = 0\<rparr>"

definition slot_add :: "'h \<Rightarrow> 'h slot_list \<Rightarrow> nat \<times> 'h slot_list" where
  "slot_add h sl =
     (let token = sl_next_token sl + 1 in
      (token, sl\<lparr>sl_next_token := token,
                 sl_slots := (if map_of (sl_slots sl) token \<noteq> None then sl_slots sl
                              else omap_put token h (sl_slots sl))\<rparr>))"

definition slot_remove :: "nat \<Rightarrow> 'h slot_list \<Rightarrow> 'h slot_list" where
  "slot_remove token sl = sl\<lparr>sl_slots := omap_erase token (sl_slots sl)\<rparr>"

definition slot_emit :: "'e \<Rightarrow> 'h slot_list \<Rightarrow> ('h \<times> 'e) list" where
  "slot_emit e sl = map (\<lambda>(token, h). (h, e)) (sl_slots sl)"

definition slots_ok :: "'h slot_list \<Rightarrow> bool" where
  "slots_ok sl \<longleftrightarrow> omap_ok (sl_slots sl) \<and> (\<forall>t \<in> fst ` set (sl_slots sl). t \<le> sl_next_token sl)"

lemma omap_put_last:
  "\<forall>l \<in> fst ` set m. l < k \<Longrightarrow> omap_put k v m = m @ [(k, v)]"
  by (induction m) auto

lemma slot_add_slots:
  assumes "slots_ok sl"
  shows "sl_slots (snd (slot_add h sl)) = sl_slots sl @ [(sl_next_token sl + 1, h)]"
proof -
  have "\<forall>t \<in> fst ` set (sl_slots sl). t < sl_next_token sl + 1"
    using assms by (auto simp: slots_ok_def less_Suc_eq_le)
  then have "map_of (sl_slots sl) (sl_next_token sl + 1) = None"
    and "omap_put (sl_next_token sl + 1) h (sl_slots sl) = sl_slots sl @ [(sl_next_token sl + 1, h)]"
    by (auto simp: map_of_eq_None_iff omap_put_last)
  then show ?thesis by (simp add: slot_add_def Let_def)
qed

interpretation slots: slot_registry slot_add slot_remove sl_slots slots_ok
proof unfold_locales
  fix r :: "'a slot_list" and h t
  assume ok: "slots_ok r"
  then have *: "\<forall>t \<in> fst ` set (sl_slots r). t \<le> sl_next_token r" "omap_ok (sl_slots r)"
    by (auto simp: slots_ok_def)
  show "fst (slot_add h r) \<notin> fst ` set (sl_slots r)"
    using *(1) by (fastforce simp: slot_add_def Let_def)
  show "sl_slots (snd (slot_add h r)) = sl_slots r @ [(fst (slot_add h r), h)]"
    by (simp add: slot_add_slots [OF ok]) (simp add: slot_add_def Let_def)
  show "slots_ok (snd (slot_add h r))"
    using * unfolding slots_ok_def slot_add_slots [OF ok]
    by (fastforce simp: omap_ok_def sorted_wrt_append slot_add_def Let_def less_Suc_eq_le)
  show "sl_slots (slot_remove t r) = filter (\<lambda>s. fst s \<noteq> t) (sl_slots r)"
    by (simp add: slot_remove_def omap_erase_def)
  show "slots_ok (slot_remove t r)"
    using * by (auto simp: slots_ok_def slot_remove_def omap_simps) (auto simp: omap_erase_def)
  show "distinct (map fst (sl_slots r))" using *(2) by (rule omap_ok_distinct)
qed

section \<open>Event bus\<close>

text \<open>The slots of the bus, one list per kind of event.\<close>

record 'h event_bus =
  eb_connection_state :: "'h slot_list"
  eb_heartbeat :: "'h slot_list"
  eb_device_alert :: "'h slot_list"
  eb_ota_status :: "'h slot_list"
  eb_error_report :: "'h slot_list"
  eb_protocol_warning :: "'h slot_list"
  eb_unknown :: "'h slot_list"

definition make_event_bus :: "'h event_bus" where
  "make_event_bus =
     \<lparr>eb_connection_state = empty_slots, eb_heartbeat = empty_slots, eb_device_alert = empty_slots,
      eb_ota_status = empty_slots, eb_error_report = empty_slots, eb_protocol_warning = empty_slots,
      eb_unknown = empty_slots\<rparr>"

datatype channel = Ch_state | Ch_heartbeat | Ch_alert | Ch_ota | Ch_error_report | Ch_warning | Ch_unknown

fun bus_slots :: "channel \<Rightarrow> 'h event_bus \<Rightarrow> 'h slot_list" where
  "bus_slots Ch_state b = eb_connection_state b"
| "bus_slots Ch_heartbeat b = eb_heartbeat b"
| "bus_slots Ch_alert b = eb_device_alert b"
| "bus_slots Ch_ota b = eb_ota_status b"
| "bus_slots Ch_error_report b = eb_error_report b"
| "bus_slots Ch_warning b = eb_protocol_warning b"
| "bus_slots Ch_unknown b = eb_unknown b"

fun bus_update :: "channel \<Rightarrow> ('h slot_list \<Rightarrow> 'h slot_list) \<Rightarrow> 'h event_bus \<Rightarrow> 'h event_bus" where
  "bus_update Ch_state f b = b\<lparr>eb_connection_state := f (eb_connection_state b)\<rparr>"
| "bus_update Ch_heartbeat f b = b\<lparr>eb_heartbeat := f (eb_heartbeat b)\<rparr>"
| "bus_update Ch_alert f b = b\<lparr>eb_device_alert := f (eb_device_alert b)\<rparr>"
| "bus_update Ch_ota f b = b\<lparr>eb_ota_status := f (eb_ota_status b)\<rparr>"
| "bus_update Ch_error_report f b = b\<lparr>eb_error_report := f (eb_error_report b)\<rparr>"
| "bus_update Ch_warning f b = b\<lparr>eb_protocol_warning := f (eb_protocol_warning b)\<rparr>"
| "bus_update Ch_unknown f b = b\<lparr>eb_unknown := f (eb_unknown b)\<rparr>"

text \<open>
  A \<open>Subscription\<close> holds the channel and the token of its slot while it is active. The bus is \<open>None\<close>
  once it is destroyed; a subscription that outlives it has nothing to remove.
\<close>

type_synonym subscription = "(channel \<times> nat) option"

definition attach :: "channel \<Rightarrow> 'h \<Rightarrow> 'h event_bus \<Rightarrow> subscription \<times> 'h event_bus" where
  "attach c h b =
     (let (token, sl) = slot_add h (bus_slots c b) in (Some (c, token), bus_update c (\<lambda>_. sl) b))"

definition subscription_reset ::
  "subscription \<Rightarrow> 'h event_bus option \<Rightarrow> subscription \<times> 'h event_bus option" where
  "subscription_reset sub bus =
     (None, case sub of None \<Rightarrow> bus
            | Some (c, token) \<Rightarrow> map_option (bus_update c (slot_remove token)) bus)"

fun event_channel :: "event \<Rightarrow> channel" where
  "event_channel (Ev_state _) = Ch_state"
| "event_channel (Ev_heartbeat _) = Ch_heartbeat"
| "event_channel (Ev_alert _) = Ch_alert"
| "event_channel (Ev_ota _) = Ch_ota"
| "event_channel (Ev_error_report _) = Ch_error_report"
| "event_channel (Ev_warning _) = Ch_warning"
| "event_channel (Ev_unknown _ _) = Ch_unknown"

definition publish :: "event \<Rightarrow> 'h event_bus \<Rightarrow> ('h \<times> event) list" where
  "publish e b = slot_emit e (bus_slots (event_channel e) b)"

definition bus_ok :: "'h event_bus \<Rightarrow> bool" where
  "bus_ok b \<longleftrightarrow> (\<forall>c. slots_ok (bus_slots c b))"

lemma bus_slots_update [simp]:
  "bus_slots c (bus_update c' f b) = (if c = c' then f (bus_slots c b) else bus_slots c b)"
  by (cases c; cases c') simp_all

lemma attach_eq:
  "attach c h b = (Some (c, fst (slot_add h (bus_slots c b))),
     bus_update c (\<lambda>_. snd (slot_add h (bus_slots c b))) b)"
  by (simp add: attach_def case_prod_beta)

lemma bus_ok_attach: "bus_ok b \<Longrightarrow> bus_ok (snd (attach c h b))"
  by (simp add: bus_ok_def attach_eq slots.radd_ok)

lemma bus_ok_make [simp]: "bus_ok make_event_bus"
proof -
  have "slots_ok (empty_slots :: 'a slot_list)" by (simp add: slots_ok_def empty_slots_def)
  moreover have "bus_slots c make_event_bus = (empty_slots :: 'a slot_list)" for c
    by (cases c) (simp_all add: make_event_bus_def)
  ultimately show ?thesis by (simp add: bus_ok_def)
qed

text \<open>
  A subscription adds exactly one call, at the end and on its own channel only, and resetting it
  takes exactly that call away again, whatever else is subscribed.
\<close>

theorem subscribe_publish_reset:
  assumes "bus_ok b"
  shows "publish e (snd (attach c h b)) = publish e b @ (if event_channel e = c then [(h, e)] else []) \<and>
    (\<exists>b'. subscription_reset (fst (attach c h b)) (Some (snd (attach c h b))) = (None, Some b') \<and>
       (\<forall>e'. publish e' b' = publish e' b))"
proof
  have ok: "slots_ok (bus_slots c b)" for c using assms by (simp add: bus_ok_def)
  show "publish e (snd (attach c h b)) = publish e b @ (if event_channel e = c then [(h, e)] else [])"
    by (simp add: publish_def attach_eq slot_emit_def slots.radd_slots [OF ok])
  show "\<exists>b'. subscription_reset (fst (attach c h b)) (Some (snd (attach c h b))) = (None, Some b') \<and>
           (\<forall>e'. publish e' b' = publish e' b)"
    by (auto simp: subscription_reset_def attach_eq publish_def slot_emit_def
        slots.unsubscribe_restores [OF ok])
qed

theorem subscribe_publish_reset_witness:
  "publish (Ev_unknown ''x'' []) (snd (attach Ch_unknown (7 :: nat) make_event_bus)) = [(7, Ev_unknown ''x'' [])]"
  using subscribe_publish_reset [OF bus_ok_make, of "Ev_unknown ''x'' []" Ch_unknown "7 :: nat"]
  by (simp add: publish_def slot_emit_def make_event_bus_def empty_slots_def)

end
