(* ===== verification/Manager.thy ===== *)
theory Manager
  imports Datapoints Blocking Events
begin

text \<open>
  The datapoint manager and the restore guard (\<open>datapoints/manager.hpp\<close>, \<open>datapoints/manager.cpp\<close>,
  \<open>datapoints/restore_guard.cpp\<close>): cache, staging, subscriptions, read and write requests and what
  their responses do. A request is returned as the value handed to the bound submit function together
  with the continuation it is given; the response is applied by the continuation's operation.
  Callbacks are names, and a notification is the pair of a callback and the change it gets.
\<close>

section \<open>State\<close>

record change =
  ch_descriptor :: datapoint_descriptor
  ch_value :: datapoint_value
  ch_old_value :: "datapoint_value option"
  ch_source :: datapoint_source
  ch_received_at :: int

record 'h sub_slot =
  sb_token :: nat
  sb_name :: string
  sb_callback :: 'h

record 'h manager =
  mg_cache :: "(string, cached_value) omap"
  mg_staged :: write_set
  mg_subs :: "'h sub_slot list"
  mg_next_token :: nat

definition make_manager :: "'h manager" where
  "make_manager = \<lparr>mg_cache = [], mg_staged = [], mg_subs = [], mg_next_token = 0\<rparr>"

section \<open>Decoding and caching\<close>

fun decode_items :: "(string \<times> json) list \<Rightarrow> snapshot \<Rightarrow> snapshot" where
  "decode_items [] s = s"
| "decode_items ((n, raw) # items) s =
    decode_items items
      (case catalog_find n of
         None \<Rightarrow> add_unknown n s
       | Some d \<Rightarrow>
          (case value_from_json d raw of
             Inl _ \<Rightarrow> add_unknown n s
           | Inr v \<Rightarrow> snapshot_set n v s))"

definition decode_dp_object :: "json \<Rightarrow> snapshot" where
  "decode_dp_object obj = (case obj of JObj items \<Rightarrow> decode_items items empty_snapshot | _ \<Rightarrow> empty_snapshot)"

text \<open>Equality of the variant: floats compare as IEEE numbers.\<close>

fun value_eq :: "datapoint_value \<Rightarrow> datapoint_value \<Rightarrow> bool" where
  "value_eq (VF32 a) (VF32 b) = feq a b"
| "value_eq v w = (v = w)"

definition default_cached :: cached_value where
  "default_cached = \<lparr>cv_value = VBool False, cv_received_at = 0, cv_source = ExplicitRead,
     cv_quality = Unknown, cv_report_sequence = None\<rparr>"

fun update_entries ::
  "int \<Rightarrow> datapoint_source \<Rightarrow> 32 word option \<Rightarrow> (string \<times> datapoint_value) list \<Rightarrow> 'h sub_slot list \<Rightarrow>
    (string, cached_value) omap \<Rightarrow> (string, cached_value) omap \<times> ('h \<times> change) list" where
  "update_entries now src sq [] subs cache = (cache, [])"
| "update_entries now src sq ((n, v) # vs) subs cache =
    (case catalog_find n of
       None \<Rightarrow> update_entries now src sq vs subs cache
     | Some d \<Rightarrow>
        (let entry = (case map_of cache n of None \<Rightarrow> default_cached | Some e \<Rightarrow> e);
             had_value = (cv_quality entry \<noteq> Unknown);
             old = (if had_value then Some (cv_value entry) else None);
             changed = (\<not> had_value \<or> \<not> value_eq (cv_value entry) v);
             cache' = omap_put n \<lparr>cv_value = v, cv_received_at = now, cv_source = src, cv_quality = Good,
                                  cv_report_sequence = sq\<rparr> cache;
             ch = \<lparr>ch_descriptor = d, ch_value = v, ch_old_value = old, ch_source = src, ch_received_at = now\<rparr>;
             here = (if changed
                     then map (\<lambda>s. (sb_callback s, ch)) (filter (\<lambda>s. sb_name s = [] \<or> sb_name s = n) subs)
                     else []);
             (cache'', rest) = update_entries now src sq vs subs cache'
         in (cache'', here @ rest)))"

definition update_cache ::
  "int \<Rightarrow> snapshot \<Rightarrow> datapoint_source \<Rightarrow> 32 word option \<Rightarrow> 'h manager \<Rightarrow> 'h manager \<times> ('h \<times> change) list" where
  "update_cache now snap src sq m =
     (let (cache, notes) = update_entries now src sq (sn_values snap) (mg_subs m) (mg_cache m)
      in (m\<lparr>mg_cache := cache\<rparr>, notes))"

section \<open>Reading\<close>

text \<open>
  The checks before a request; \<open>Inl e\<close> means the completion is called with \<open>e\<close> at once.
  On success the request goes to the submit function, and \<open>read_response\<close> is its continuation.
\<close>

fun check_names :: "string list \<Rightarrow> unit result" where
  "check_names [] = Inr ()"
| "check_names (n # ns) = (if catalog_find n = None then Inl (unknown_datapoint n) else check_names ns)"

definition read_needs_names :: error where
  "read_needs_names = validation_error EmptySelection
     (''read() needs explicit names '' @ [CHR 0xE2, CHR 0x80, CHR 0x94] @
      '' an empty dp_read would only return the volatile datapoints on the local transport'') []"

definition async_read :: "string list \<Rightarrow> operation_priority \<Rightarrow> string \<Rightarrow> request_spec result" where
  "async_read names prio key =
    (if names = [] then Inl read_needs_names
     else case check_names names of
       Inl e \<Rightarrow> Inl e
     | Inr _ \<Rightarrow> Inr \<lparr>rs_type = ''dp_read'', rs_body = JObj [(''names'', JArr (map JStr names))],
                     rs_timeout = None, rs_priority = prio, rs_coalesce_key = key\<rparr>)"

definition async_read_all :: "request_spec result" where
  "async_read_all = async_read (map dd_name kDatapointDescriptors) InteractiveRead ''read_all''"

fun add_unknowns :: "json list \<Rightarrow> snapshot \<Rightarrow> snapshot" where
  "add_unknowns [] s = s"
| "add_unknowns (JStr n # js) s = add_unknowns js (add_unknown n s)"
| "add_unknowns (j # js) s = add_unknowns js s"

definition read_response ::
  "int \<Rightarrow> datapoint_source \<Rightarrow> jobj result \<Rightarrow> 'h manager \<Rightarrow>
    (snapshot result \<times> 'h manager \<times> ('h \<times> change) list) exec" where
  "read_response now src response m =
    (case response of
       Inl e \<Rightarrow> Inr (Inl e, m, [])
     | Inr msg \<Rightarrow>
        bindE (msg_value get_json msg ''dp'' (JObj [])) (\<lambda>obj.
        bindE (msg_value get_json msg ''unknown'' (JArr [])) (\<lambda>unknown.
          let snap = add_unknowns (json_elements unknown) (decode_dp_object obj);
              (m', notes) = update_cache now snap src None m
          in Inr (Inr snap, m', notes))))"

section \<open>Writing\<close>

fun encode_entries :: "(string \<times> datapoint_value) list \<Rightarrow> jobj \<Rightarrow> jobj exec" where
  "encode_entries [] o1 = Inr o1"
| "encode_entries ((n, v) # es) o1 =
    (case catalog_find n of
       None \<Rightarrow> Inl (Runtime_error ''null descriptor'')
     | Some d \<Rightarrow> bindE (value_to_json d v) (\<lambda>j. encode_entries es (omap_put n j o1)))"

definition write_request :: "jobj \<Rightarrow> operation_priority \<Rightarrow> request_spec" where
  "write_request obj prio =
     \<lparr>rs_type = ''dp_write'', rs_body = JObj [(''dp'', JObj obj)], rs_timeout = None,
      rs_priority = prio, rs_coalesce_key = []\<rparr>"

definition async_write :: "write_set \<Rightarrow> request_spec result exec" where
  "async_write changes =
    (case ws_validate changes of
       Inl e \<Rightarrow> Inr (Inl e)
     | Inr _ \<Rightarrow> bindE (encode_entries changes []) (\<lambda>obj. Inr (Inr (write_request obj InteractiveControl))))"

fun parse_errors :: "(json \<Rightarrow> string exec) \<Rightarrow> (string \<times> json) list \<Rightarrow> write_error list exec" where
  "parse_errors dump [] = Inr []"
| "parse_errors dump ((n, reason) # es) =
     bindE (case reason of JStr s \<Rightarrow> Inr s | _ \<Rightarrow> dump reason) (\<lambda>text.
     bindE (parse_errors dump es) (\<lambda>rest. Inr (\<lparr>we_datapoint = n, we_reason = text\<rparr> # rest)))"

definition readback_of :: "jobj \<Rightarrow> snapshot option" where
  "readback_of msg =
    (case map_of msg ''readback'' of Some (JObj r) \<Rightarrow> Some (decode_dp_object (JObj r)) | _ \<Rightarrow> None)"

definition parse_write_result ::
  "(json \<Rightarrow> string exec) \<Rightarrow> (fp \<Rightarrow> int) \<Rightarrow> int \<Rightarrow> jobj \<Rightarrow> 'h manager \<Rightarrow>
    (write_result \<times> 'h manager \<times> ('h \<times> change) list) exec" where
  "parse_write_result dump fc now msg m =
     bindE (msg_value get_string msg ''status'' []) (\<lambda>status.
     bindE (case map_of msg ''errors'' of Some (JObj es) \<Rightarrow> parse_errors dump es | _ \<Rightarrow> Inr []) (\<lambda>errors.
     let single = (case map_of msg ''error'' of Some (JStr s) \<Rightarrow> [\<lparr>we_datapoint = [], we_reason = s\<rparr>] | _ \<Rightarrow> []);
         warning = (case map_of msg ''warning'' of Some (JStr s) \<Rightarrow> Some s | _ \<Rightarrow> None) in
     bindE (case map_of msg ''network_save'' of
              Some v \<Rightarrow> if is_number v then bindE (get_word fc v) (\<lambda>w. Inr (Some w)) else Inr None
            | None \<Rightarrow> Inr None) (\<lambda>save.
     let (m', notes) = (case readback_of msg of
                          None \<Rightarrow> (m, []) | Some r \<Rightarrow> update_cache now r WriteReadback None m)
     in Inr (\<lparr>wr_status = status, wr_errors = errors @ single, wr_warning = warning, wr_network_save = save,
              wr_readback = (case readback_of msg of None \<Rightarrow> empty_snapshot | Some r \<Rightarrow> r)\<rparr>, m', notes))))"

definition write_response ::
  "(json \<Rightarrow> string exec) \<Rightarrow> (fp \<Rightarrow> int) \<Rightarrow> int \<Rightarrow> jobj result \<Rightarrow> 'h manager \<Rightarrow>
    (write_result result \<times> 'h manager \<times> ('h \<times> change) list) exec" where
  "write_response dump fc now response m =
    (case response of
       Inl e \<Rightarrow> Inr (Inl e, m, [])
     | Inr msg \<Rightarrow> bindE (parse_write_result dump fc now msg m) (\<lambda>(r, m', notes). Inr (Inr r, m', notes)))"

section \<open>Blocking calls\<close>

definition read_names ::
  "service_env \<Rightarrow> string list \<Rightarrow> 'h manager \<Rightarrow> (snapshot result \<times> 'h manager \<times> ('h \<times> change) list) exec" where
  "read_names sv names =
     sync_wait sv (\<lambda>m. case async_read names InteractiveRead [] of
         Inl e \<Rightarrow> Inr (Inl e, m, [])
       | Inr spec \<Rightarrow> read_response (sv_now sv) ExplicitRead (sv_device sv spec) m)"

definition read_all ::
  "service_env \<Rightarrow> 'h manager \<Rightarrow> (snapshot result \<times> 'h manager \<times> ('h \<times> change) list) exec" where
  "read_all sv =
     sync_wait sv (\<lambda>m. case async_read_all of
         Inl e \<Rightarrow> Inr (Inl e, m, [])
       | Inr spec \<Rightarrow> read_response (sv_now sv) ExplicitRead (sv_device sv spec) m)"

definition read_one ::
  "service_env \<Rightarrow> string \<Rightarrow> 'h manager \<Rightarrow> (datapoint_value result \<times> 'h manager \<times> ('h \<times> change) list) exec" where
  "read_one sv n m =
     bindE (read_names sv [n] m) (\<lambda>(r, m', notes).
       Inr (case r of
              Inl e \<Rightarrow> Inl e
            | Inr snap \<Rightarrow>
               (case map_of (sn_values snap) n of
                  None \<Rightarrow> Inl (validation_error UnknownDatapoint
                            (''device did not return '' @ CHR 0x27 # n @ [CHR 0x27]) n)
                | Some v \<Rightarrow> Inr v), m', notes))"

definition write_blocking ::
  "service_env \<Rightarrow> write_set \<Rightarrow> 'h manager \<Rightarrow> (write_result result \<times> 'h manager \<times> ('h \<times> change) list) exec" where
  "write_blocking sv changes =
     sync_wait sv (\<lambda>m.
       bindE (async_write changes) (\<lambda>r.
         case r of
           Inl e \<Rightarrow> Inr (Inl e, m, [])
         | Inr spec \<Rightarrow> write_response (sv_dump sv) (sv_fcast sv) (sv_now sv) (sv_device sv spec) m))"

definition write_one ::
  "service_env \<Rightarrow> string \<Rightarrow> datapoint_value \<Rightarrow> 'h manager \<Rightarrow>
    (write_result result \<times> 'h manager \<times> ('h \<times> change) list) exec" where
  "write_one sv n v m =
    (case ws_set n v [] of
       Inl e \<Rightarrow> Inr (Inl e, m, [])
     | Inr changes \<Rightarrow> write_blocking sv changes m)"

section \<open>Cache access\<close>

definition cached_raw :: "string \<Rightarrow> 'h manager \<Rightarrow> cached_value option" where
  "cached_raw n m =
    (case map_of (mg_cache m) n of
       None \<Rightarrow> None
     | Some e \<Rightarrow> if cv_quality e = Unknown then None else Some e)"

definition cached_snapshot :: "'h manager \<Rightarrow> snapshot" where
  "cached_snapshot m =
     foldl (\<lambda>s (n, e). if cv_quality e \<noteq> Unknown then snapshot_set n (cv_value e) s else s)
       empty_snapshot (mg_cache m)"

definition ingest_report ::
  "int \<Rightarrow> json \<Rightarrow> datapoint_source \<Rightarrow> 32 word option \<Rightarrow> 'h manager \<Rightarrow> snapshot \<times> 'h manager \<times> ('h \<times> change) list"
  where
  "ingest_report now obj src sq m =
     (let snap = decode_dp_object obj; (m', notes) = update_cache now snap src sq m in (snap, m', notes))"

definition mark_all_stale :: "'h manager \<Rightarrow> 'h manager" where
  "mark_all_stale m = m\<lparr>mg_cache := map (\<lambda>(n, e).
     (n, if cv_quality e = Good then e\<lparr>cv_quality := Stale\<rparr> else e)) (mg_cache m)\<rparr>"

section \<open>Staging\<close>

definition stage :: "string \<Rightarrow> datapoint_value \<Rightarrow> 'h manager \<Rightarrow> unit result \<times> 'h manager" where
  "stage n v m =
    (case check_write n v of
       Inl e \<Rightarrow> (Inl e, m)
     | Inr _ \<Rightarrow> (Inr (), m\<lparr>mg_staged := omap_put n v (mg_staged m)\<rparr>))"

definition has_staged_changes :: "'h manager \<Rightarrow> bool" where
  "has_staged_changes m \<longleftrightarrow> mg_staged m \<noteq> []"

definition cached_number :: "'h manager \<Rightarrow> string \<Rightarrow> fp option" where
  "cached_number m n = (case cached_raw n m of None \<Rightarrow> None | Some e \<Rightarrow> numeric_of (cv_value e))"

definition validate_staged :: "'h manager \<Rightarrow> unit result" where
  "validate_staged m =
    (case validate_entries (mg_staged m) of
       Inl e \<Rightarrow> Inl e
     | Inr _ \<Rightarrow> check_cross_constraints (\<lambda>n. case map_of (mg_staged m) n of
                  Some v \<Rightarrow> numeric_of v | None \<Rightarrow> cached_number m n))"

definition validate_constraints :: "write_set \<Rightarrow> 'h manager \<Rightarrow> unit result" where
  "validate_constraints changes m = check_cross_constraints_changes changes (cached_number m)"

definition discard_staged :: "'h manager \<Rightarrow> 'h manager" where
  "discard_staged m = m\<lparr>mg_staged := []\<rparr>"

fun collect_changes :: "(string \<times> datapoint_value) list \<Rightarrow> write_set \<Rightarrow> write_set result" where
  "collect_changes [] ws = Inr ws"
| "collect_changes ((n, v) # es) ws = (case ws_set n v ws of Inl e \<Rightarrow> Inl e | Inr ws' \<Rightarrow> collect_changes es ws')"

text \<open>
  \<open>commit\<close> in two halves: the lock is released while the blocking write is under way, so other
  threads may act in between.
\<close>

definition commit_begin :: "'h manager \<Rightarrow> write_set result" where
  "commit_begin m =
    (if mg_staged m = [] then Inl (validation_error EmptySelection ''no staged changes to commit'' [])
     else collect_changes (mg_staged m) [])"

definition commit_end :: "write_result result \<Rightarrow> 'h manager \<Rightarrow> 'h manager" where
  "commit_end result m = (case result of Inr r \<Rightarrow> if applied r then discard_staged m else m | Inl e \<Rightarrow> m)"

definition commit ::
  "service_env \<Rightarrow> 'h manager \<Rightarrow> (write_result result \<times> 'h manager \<times> ('h \<times> change) list) exec" where
  "commit sv m =
    (case commit_begin m of
       Inl e \<Rightarrow> Inr (Inl e, m, [])
     | Inr changes \<Rightarrow>
        bindE (write_blocking sv changes m) (\<lambda>(result, m', notes).
          Inr (result, commit_end result m', notes)))"

section \<open>Subscriptions\<close>

definition subscribe_raw :: "string \<times> 'h \<Rightarrow> 'h manager \<Rightarrow> nat \<times> 'h manager" where
  "subscribe_raw nh m =
     (let token = mg_next_token m + 1 in
      (token, m\<lparr>mg_next_token := token,
                mg_subs := mg_subs m @ [\<lparr>sb_token = token, sb_name = fst nh, sb_callback = snd nh\<rparr>]\<rparr>))"

definition subscribe_all :: "'h \<Rightarrow> 'h manager \<Rightarrow> nat \<times> 'h manager" where
  "subscribe_all h m = subscribe_raw ([], h) m"

definition unsubscribe :: "nat \<Rightarrow> 'h manager \<Rightarrow> 'h manager" where
  "unsubscribe token m = m\<lparr>mg_subs := filter (\<lambda>s. sb_token s \<noteq> token) (mg_subs m)\<rparr>"

section \<open>Restore guard\<close>

record restore_guard =
  rg_baseline :: snapshot
  rg_armed :: bool

fun check_restorable :: "string list \<Rightarrow> unit result" where
  "check_restorable [] = Inr ()"
| "check_restorable (n # ns) =
    (case catalog_find n of
       None \<Rightarrow> Inl (unknown_datapoint n)
     | Some d \<Rightarrow>
        (if dd_access d \<noteq> ReadWrite
         then Inl (validation_error ReadOnlyDatapoint
                (n @ '' is not read-write '' @ [CHR 0xE2, CHR 0x80, CHR 0x94] @ '' baseline cannot be restored'') n)
         else check_restorable ns))"

text \<open>The guard refers to its manager; the operations take the manager's state.\<close>

definition capture ::
  "service_env \<Rightarrow> string list \<Rightarrow> 'h manager \<Rightarrow> (restore_guard result \<times> 'h manager \<times> ('h \<times> change) list) exec" where
  "capture sv names m =
    (if names = []
     then Inr (Inl (validation_error EmptySelection ''restore guard needs at least one datapoint'' []), m, [])
     else case check_restorable names of
       Inl e \<Rightarrow> Inr (Inl e, m, [])
     | Inr _ \<Rightarrow>
        bindE (read_names sv names m) (\<lambda>(r, m', notes).
          Inr (case r of Inl e \<Rightarrow> Inl e | Inr baseline \<Rightarrow> Inr \<lparr>rg_baseline = baseline, rg_armed = True\<rparr>, m', notes)))"

definition writable_names :: "string list \<Rightarrow> string list" where
  "writable_names exclude =
     map dd_name (filter (\<lambda>d. dd_access d = ReadWrite \<and> dd_name d \<notin> set exclude) kDatapointDescriptors)"

definition capture_all_writable ::
  "service_env \<Rightarrow> string list \<Rightarrow> 'h manager \<Rightarrow> (restore_guard result \<times> 'h manager \<times> ('h \<times> change) list) exec" where
  "capture_all_writable sv exclude m = capture sv (writable_names exclude) m"

text \<open>The guard is disarmed before anything else happens.\<close>

definition restore ::
  "service_env \<Rightarrow> restore_guard \<Rightarrow> 'h manager \<Rightarrow>
    (write_result result \<times> restore_guard \<times> 'h manager \<times> ('h \<times> change) list) exec" where
  "restore sv g m =
    (let g' = g\<lparr>rg_armed := False\<rparr> in
     case collect_changes (sn_values (rg_baseline g)) [] of
       Inl e \<Rightarrow> Inr (Inl e, g', m, [])
     | Inr changes \<Rightarrow> bindE (write_blocking sv changes m) (\<lambda>(r, m', notes). Inr (r, g', m', notes)))"

definition dismiss :: "restore_guard \<Rightarrow> restore_guard" where
  "dismiss g = g\<lparr>rg_armed := False\<rparr>"

text \<open>The destructor: a failed restore is only logged.\<close>

definition guard_destroy ::
  "service_env \<Rightarrow> restore_guard \<Rightarrow> 'h manager \<Rightarrow> ('h manager \<times> ('h \<times> change) list) exec" where
  "guard_destroy sv g m =
    (if rg_armed g then bindE (restore sv g m) (\<lambda>(r, g', m', notes). Inr (m', notes)) else Inr (m, []))"

text \<open>Move construction and move assignment from \<open>other\<close>; the results are the new guard and what is left of \<open>other\<close>.\<close>

definition guard_move :: "restore_guard \<Rightarrow> restore_guard \<times> restore_guard" where
  "guard_move other = (other, \<lparr>rg_baseline = empty_snapshot, rg_armed = False\<rparr>)"

definition guard_assign ::
  "service_env \<Rightarrow> restore_guard \<Rightarrow> restore_guard \<Rightarrow> 'h manager \<Rightarrow>
    (restore_guard \<times> restore_guard \<times> 'h manager \<times> ('h \<times> change) list) exec" where
  "guard_assign sv g other m =
     bindE (guard_destroy sv g m) (\<lambda>(m', notes).
       Inr (fst (guard_move other), snd (guard_move other), m', notes))"

end
