(* ===== verification/Poller.thy ===== *)
theory Poller
  imports Manager "HOL-Library.Signed_Division"
begin

text \<open>
  The datapoint poller (\<open>datapoints/poller.hpp\<close>, \<open>datapoints/poller.cpp\<close>): intervals on a fixed grid,
  points read once per connection, packing of due points into requests, keepalive. Time points are
  nanoseconds, intervals milliseconds, the keepalive seconds, as in the sources. A read goes to the
  manager's \<open>async_read\<close>; \<open>poll_response\<close> is the completion it is given.
\<close>

section \<open>State\<close>

record poll_entry =
  pe_interval :: int
  pe_next_due :: int
  pe_in_flight :: bool
  pe_once :: bool
  pe_once_done :: bool

record poll_stats =
  ps_cycles :: "64 word"
  ps_requests :: "64 word"
  ps_coalesced_points :: "64 word"
  ps_skipped_inflight :: "64 word"
  ps_missed_deadlines :: "64 word"
  ps_keepalives :: "64 word"
  ps_failures :: "64 word"

record poller =
  po_entries :: "(string, poll_entry) omap"
  po_class_intervals :: "poll_class \<Rightarrow> int"
  po_keepalive :: int
  po_running :: bool
  po_paused :: bool
  po_raster_dirty :: bool
  po_stats :: poll_stats

definition kMaxNamesPerRequest :: nat where
  "kMaxNamesPerRequest = 100"

definition time_max :: int where
  "time_max = 2 ^ 63 - 1"

definition default_entry :: poll_entry where
  "default_entry = \<lparr>pe_interval = 0, pe_next_due = 0, pe_in_flight = False, pe_once = False, pe_once_done = False\<rparr>"

definition zero_stats :: poll_stats where
  "zero_stats = \<lparr>ps_cycles = 0, ps_requests = 0, ps_coalesced_points = 0, ps_skipped_inflight = 0,
     ps_missed_deadlines = 0, ps_keepalives = 0, ps_failures = 0\<rparr>"

text \<open>A class without an entry in the map reads as zero, as \<open>operator[]\<close> creates it.\<close>

fun default_interval :: "poll_class \<Rightarrow> int" where
  "default_interval Poll_Realtime = 1000"
| "default_interval Poll_Status = 5000"
| "default_interval Poll_Config = 60000"
| "default_interval _ = 0"

definition make_poller :: poller where
  "make_poller = \<lparr>po_entries = [], po_class_intervals = default_interval, po_keepalive = 240,
     po_running = False, po_paused = False, po_raster_dirty = True, po_stats = zero_stats\<rparr>"

section \<open>Configuration\<close>

definition entry_of :: "string \<Rightarrow> poller \<Rightarrow> poll_entry" where
  "entry_of n p = (case map_of (po_entries p) n of None \<Rightarrow> default_entry | Some e \<Rightarrow> e)"

definition poll_add :: "string \<Rightarrow> int \<Rightarrow> poller \<Rightarrow> poller" where
  "poll_add n interval p =
     p\<lparr>po_entries := omap_put n ((entry_of n p)\<lparr>pe_interval := interval, pe_once := False\<rparr>) (po_entries p),
       po_raster_dirty := True\<rparr>"

definition poll_add_once :: "string \<Rightarrow> poller \<Rightarrow> poller" where
  "poll_add_once n p =
     p\<lparr>po_entries := omap_put n ((entry_of n p)\<lparr>pe_once := True, pe_once_done := False\<rparr>) (po_entries p),
       po_raster_dirty := True\<rparr>"

definition poll_remove :: "string \<Rightarrow> poller \<Rightarrow> poller" where
  "poll_remove n p = p\<lparr>po_entries := omap_erase n (po_entries p)\<rparr>"

fun every :: "int \<Rightarrow> string list \<Rightarrow> poller \<Rightarrow> unit result \<times> poller" where
  "every interval [] p = (Inr (), p)"
| "every interval (n # ns) p =
    (case catalog_find n of
       None \<Rightarrow> (Inl (unknown_datapoint n), p)
     | Some d \<Rightarrow>
        (if \<not> readable d then (Inl (validation_error ReadOnlyDatapoint (n @ '' is not readable'') n), p)
         else every interval ns (poll_add n interval p)))"

definition set_class_interval :: "poll_class \<Rightarrow> int \<Rightarrow> poller \<Rightarrow> poller" where
  "set_class_interval c interval p = p\<lparr>po_class_intervals := (po_class_intervals p)(c := interval)\<rparr>"

definition set_keepalive :: "int \<Rightarrow> poller \<Rightarrow> poller" where
  "set_keepalive interval p = p\<lparr>po_keepalive := interval\<rparr>"

definition poll_start :: "poller \<Rightarrow> poller" where
  "poll_start p = p\<lparr>po_running := True, po_paused := False, po_raster_dirty := True\<rparr>"

definition add_default :: "datapoint_descriptor \<Rightarrow> poller \<Rightarrow> poller" where
  "add_default d p =
    (case dd_poll_class d of
       Poll_Disabled \<Rightarrow> p
     | Poll_OnConnect \<Rightarrow>
         p\<lparr>po_entries := omap_put (dd_name d)
             ((entry_of (dd_name d) p)\<lparr>pe_once := True, pe_once_done := False\<rparr>) (po_entries p)\<rparr>
     | c \<Rightarrow>
         p\<lparr>po_entries := omap_put (dd_name d)
             ((entry_of (dd_name d) p)\<lparr>pe_interval := po_class_intervals p c, pe_once := False\<rparr>) (po_entries p)\<rparr>)"

definition start_defaults :: "poller \<Rightarrow> poller" where
  "start_defaults p = poll_start ((fold add_default kDatapointDescriptors p)\<lparr>po_raster_dirty := True\<rparr>)"

section \<open>Lifecycle\<close>

definition poll_pause :: "poller \<Rightarrow> poller" where
  "poll_pause p = p\<lparr>po_paused := True\<rparr>"

definition poll_resume :: "poller \<Rightarrow> poller" where
  "poll_resume p = p\<lparr>po_paused := False, po_raster_dirty := True\<rparr>"

definition poll_stop :: "poller \<Rightarrow> poller" where
  "poll_stop p = p\<lparr>po_running := False\<rparr>"

definition poll_active :: "poller \<Rightarrow> bool" where
  "poll_active p \<longleftrightarrow> po_running p \<and> \<not> po_paused p"

definition on_reconnected :: "poller \<Rightarrow> poller" where
  "on_reconnected p = p\<lparr>po_raster_dirty := True\<rparr>"

definition reset_entry :: "int \<Rightarrow> poll_entry \<Rightarrow> poll_entry" where
  "reset_entry now e = e\<lparr>pe_next_due := now, pe_in_flight := False,
     pe_once_done := (if pe_once e then False else pe_once_done e)\<rparr>"

definition reset_raster :: "int \<Rightarrow> poller \<Rightarrow> poller" where
  "reset_raster now p =
     p\<lparr>po_entries := map (\<lambda>(n, e). (n, reset_entry now e)) (po_entries p), po_raster_dirty := False\<rparr>"

definition next_deadline :: "int \<Rightarrow> poller \<Rightarrow> int" where
  "next_deadline now p =
    (if \<not> po_running p \<or> po_paused p then time_max
     else foldl (\<lambda>next (n, e).
            if pe_once e \<and> pe_once_done e then next
            else min next (if po_raster_dirty p then now else pe_next_due e)) time_max (po_entries p))"

section \<open>Tick\<close>

text \<open>
  One entry of the loop: whether the point is due, its new state and the statistics. The quotient of
  two durations truncates; by a zero interval it is undefined.
\<close>

definition advance :: "int \<Rightarrow> poll_entry \<Rightarrow> poll_stats \<Rightarrow> (int \<times> poll_stats) exec" where
  "advance now e st =
    (let interval = ns_of_ms (pe_interval e); next = pe_next_due e + interval in
     if next \<le> now
     then if interval = 0 then Inl (Undefined_behaviour ''division by zero'')
          else let skipped = (now - pe_next_due e) sdiv interval
               in Inr (pe_next_due e + (skipped + 1) * interval,
                       st\<lparr>ps_missed_deadlines := ps_missed_deadlines st + word_of_int skipped\<rparr>)
     else Inr (next, st))"

definition tick_entry :: "int \<Rightarrow> poll_entry \<Rightarrow> poll_stats \<Rightarrow> (bool \<times> poll_entry \<times> poll_stats) exec" where
  "tick_entry now e st =
    (if pe_once e
     then Inr (if \<not> pe_once_done e \<and> \<not> pe_in_flight e
               then (True, e\<lparr>pe_in_flight := True, pe_once_done := True\<rparr>, st) else (False, e, st))
     else if now < pe_next_due e then Inr (False, e, st)
     else let st' = (if pe_in_flight e then st\<lparr>ps_skipped_inflight := ps_skipped_inflight st + 1\<rparr> else st) in
       bindE (advance now e st') (\<lambda>(next, st'').
         Inr (\<not> pe_in_flight e, e\<lparr>pe_in_flight := True, pe_next_due := next\<rparr>, st'')))"

fun tick_entries ::
  "int \<Rightarrow> (string \<times> poll_entry) list \<Rightarrow> poll_stats \<Rightarrow> (string list \<times> (string \<times> poll_entry) list \<times> poll_stats) exec" where
  "tick_entries now [] st = Inr ([], [], st)"
| "tick_entries now ((n, e) # es) st =
     bindE (tick_entry now e st) (\<lambda>(is_due, e', st').
     bindE (tick_entries now es st') (\<lambda>(due, es', st'').
       Inr (if is_due then n # due else due, (n, e') # es', st'')))"

text \<open>The completion of a poll read.\<close>

definition poll_response :: "string list \<Rightarrow> 'a result \<Rightarrow> poller \<Rightarrow> poller" where
  "poll_response chunk r p =
    (let p' = p\<lparr>po_entries := map (\<lambda>(n, e). (n, if n \<in> set chunk then e\<lparr>pe_in_flight := False\<rparr> else e)) (po_entries p)\<rparr>
     in case r of
          Inr _ \<Rightarrow> p'
        | Inl _ \<Rightarrow> p'\<lparr>po_stats := (po_stats p')\<lparr>ps_failures := ps_failures (po_stats p') + 1\<rparr>\<rparr>)"

text \<open>The requests of a tick: what the manager is asked to read, and for whom.\<close>

datatype poll_request = Poll_read "string list" request_spec | Poll_keepalive request_spec

function chunks_from :: "nat \<Rightarrow> 'a list \<Rightarrow> 'a list list" where
  "chunks_from offset due =
    (if offset < length due
     then drop offset (take (min (length due) (offset + kMaxNamesPerRequest)) due) #
          chunks_from (offset + kMaxNamesPerRequest) due
     else [])"
  by auto
termination
  by (relation "measure (\<lambda>(offset, due). length due - offset)") (auto simp: kMaxNamesPerRequest_def)

declare chunks_from.simps [simp del]

fun send_chunks :: "string list list \<Rightarrow> poller \<Rightarrow> poller \<times> poll_request list" where
  "send_chunks [] p = (p, [])"
| "send_chunks (c # cs) p =
    (let p' = p\<lparr>po_stats := (po_stats p)\<lparr>ps_requests := ps_requests (po_stats p) + 1\<rparr>\<rparr> in
     case async_read c Polling [] of
       Inl e \<Rightarrow> send_chunks cs (poll_response c (Inl e :: snapshot result) p')
     | Inr spec \<Rightarrow> (let (p'', rest) = send_chunks cs p' in (p'', Poll_read c spec # rest)))"

definition poll_tick :: "int \<Rightarrow> int \<Rightarrow> poller \<Rightarrow> (poller \<times> poll_request list) exec" where
  "poll_tick now last_tx p =
    (if \<not> po_running p \<or> po_paused p then Inr (p, [])
     else
       let p0 = (if po_raster_dirty p then reset_raster now p else p) in
       bindE (tick_entries now (po_entries p0) (po_stats p0)) (\<lambda>(due, es, st).
         let p1 = p0\<lparr>po_entries := es, po_stats := st\<rparr> in
         if due = [] \<and> 0 < po_keepalive p0 \<and> ns_of_ms (po_keepalive p0 * 1000) \<le> now - last_tx
         then Inr (p1\<lparr>po_stats := st\<lparr>ps_keepalives := ps_keepalives st + 1\<rparr>\<rparr>,
                   case async_read [''System_Uptime''] Background ''keepalive'' of
                     Inl e \<Rightarrow> [] | Inr spec \<Rightarrow> [Poll_keepalive spec])
         else if due = [] then Inr (p1, [])
         else
           let st1 = st\<lparr>ps_cycles := ps_cycles st + 1\<rparr>;
               st2 = (if 1 < length due
                      then st1\<lparr>ps_coalesced_points := ps_coalesced_points st1 + word_of_nat (length due)\<rparr> else st1)
           in Inr (send_chunks (chunks_from 0 due) (p1\<lparr>po_stats := st2\<rparr>))))"

end
