(* ===== verification/Poller_Safety.thy ===== *)
theory Poller_Safety
  imports Poller
begin

text \<open>
  Laws of the poller: the grid of deadlines, what a tick requests, that nothing piles up while a
  request is under way, when a tick has nothing to do, and the interval for which it has no meaning.
\<close>

section \<open>The grid\<close>

definition periods :: "int \<Rightarrow> poll_entry \<Rightarrow> int" where
  "periods now e = (now - pe_next_due e) div ns_of_ms (pe_interval e) + 1"

lemma advance_grid:
  assumes "0 < pe_interval e" "pe_next_due e \<le> now"
  shows "advance now e st = Inr (pe_next_due e + periods now e * ns_of_ms (pe_interval e),
      st\<lparr>ps_missed_deadlines := ps_missed_deadlines st + word_of_int (periods now e - 1)\<rparr>)"
proof -
  let ?i = "ns_of_ms (pe_interval e)"
  have i: "0 < ?i" using assms(1) by (simp add: ns_of_ms_def)
  show ?thesis
  proof (cases "pe_next_due e + ?i \<le> now")
    case True
    have "(now - pe_next_due e) sdiv ?i = (now - pe_next_due e) div ?i"
      using i assms(2) by (simp add: signed_divide_int_def sgn_if)
    then show ?thesis using True i by (simp add: advance_def Let_def periods_def)
  next
    case False
    then have "(now - pe_next_due e) div ?i = 0" using assms(2) i by (simp add: div_pos_pos_trivial)
    then show ?thesis using False by (simp add: advance_def Let_def periods_def)
  qed
qed

lemma periods_bounds:
  assumes "0 < pe_interval e"
  shows "now < pe_next_due e + periods now e * ns_of_ms (pe_interval e) \<and>
    pe_next_due e + periods now e * ns_of_ms (pe_interval e) \<le> now + ns_of_ms (pe_interval e)"
proof -
  let ?i = "ns_of_ms (pe_interval e)" and ?b = "now - pe_next_due e"
  have i: "0 < ?i" using assms by (simp add: ns_of_ms_def)
  have "?b div ?i * ?i + ?b mod ?i = ?b" by simp
  moreover have "0 \<le> ?b mod ?i" "?b mod ?i < ?i" using i by simp_all
  moreover have "periods now e * ?i = ?b div ?i * ?i + ?i" by (simp add: periods_def algebra_simps)
  ultimately show ?thesis by linarith
qed

section \<open>The loop over the entries\<close>

definition entry_due :: "int \<Rightarrow> poll_entry \<Rightarrow> bool" where
  "entry_due now e \<longleftrightarrow> \<not> pe_in_flight e \<and> (if pe_once e then \<not> pe_once_done e else pe_next_due e \<le> now)"

definition ticked :: "int \<Rightarrow> poll_entry \<Rightarrow> poll_entry" where
  "ticked now e =
    (if pe_once e then (if entry_due now e then e\<lparr>pe_in_flight := True, pe_once_done := True\<rparr> else e)
     else if now < pe_next_due e then e
     else e\<lparr>pe_in_flight := True,
            pe_next_due := pe_next_due e + periods now e * ns_of_ms (pe_interval e)\<rparr>)"

definition entry_ok :: "poll_entry \<Rightarrow> bool" where
  "entry_ok e \<longleftrightarrow> pe_once e \<or> 0 < pe_interval e"

definition poller_ok :: "poller \<Rightarrow> bool" where
  "poller_ok p \<longleftrightarrow> omap_ok (po_entries p) \<and>
     (\<forall>n e. map_of (po_entries p) n = Some e \<longrightarrow> catalog_find n \<noteq> None \<and> entry_ok e)"

lemma tick_entry_eq:
  assumes "entry_ok e"
  shows "\<exists>st'. tick_entry now e st = Inr (entry_due now e, ticked now e, st')"
  using assms
  by (auto simp: tick_entry_def entry_due_def ticked_def entry_ok_def advance_grid Let_def not_less)

lemma tick_entries_eq:
  assumes "\<forall>(n, e) \<in> set es. entry_ok e"
  shows "\<exists>st'. tick_entries now es st =
    Inr (map fst (filter (\<lambda>(n, e). entry_due now e) es), map (\<lambda>(n, e). (n, ticked now e)) es, st')"
  using assms
proof (induction es arbitrary: st)
  case (Cons ne es)
  obtain n e where ne: "ne = (n, e)" by (cases ne)
  have "entry_ok e" using Cons.prems by (auto simp: ne)
  from tick_entry_eq [OF this] obtain st1 where
    1: "tick_entry now e st = Inr (entry_due now e, ticked now e, st1)" by blast
  from Cons.IH [of st1] Cons.prems obtain st2 where
    "tick_entries now es st1 = Inr (map fst (filter (\<lambda>(n, e). entry_due now e) es),
       map (\<lambda>(n, e). (n, ticked now e)) es, st2)" by auto
  then show ?case by (simp add: ne 1)
qed simp

section \<open>Packing\<close>

lemma concat_chunks: "concat (chunks_from k xs) = drop k xs"
proof (induction k xs rule: chunks_from.induct)
  case (1 k xs)
  show ?case
  proof (cases "k < length xs")
    case True
    have "drop k (take (min (length xs) (k + kMaxNamesPerRequest)) xs) @ drop (k + kMaxNamesPerRequest) xs = drop k xs"
      by (cases "length xs \<le> k + kMaxNamesPerRequest")
        (simp_all add: min_def drop_take, metis append_take_drop_id drop_drop add.commute)
    with 1 True show ?thesis by (subst chunks_from.simps) simp
  qed (subst chunks_from.simps, simp)
qed

lemma chunks_size: "c \<in> set (chunks_from k xs) \<Longrightarrow> 0 < length c \<and> length c \<le> 100"
proof (induction k xs rule: chunks_from.induct)
  case (1 k xs)
  from 1(2) show ?case
    by (subst (asm) chunks_from.simps) (auto split: if_splits simp: kMaxNamesPerRequest_def dest: 1(1))
qed

lemma length_chunks: "length (chunks_from k xs) = (length xs - k + 99) div 100"
proof (induction k xs rule: chunks_from.induct)
  case (1 k xs)
  show ?case
  proof (cases "k < length xs")
    case True
    have "(length xs - (k + 100) + 99) div 100 + 1 = (length xs - k + 99) div 100"
    proof (cases "k + 100 \<le> length xs")
      case True
      then obtain m where "length xs = k + 100 + m" using le_Suc_ex by blast
      then show ?thesis by simp
    next
      case False
      define m where "m = length xs - k - 1"
      have "length xs = k + 1 + m" "m < 99" using False \<open>k < length xs\<close> by (auto simp: m_def)
      then show ?thesis by simp
    qed
    with 1 True show ?thesis by (subst chunks_from.simps) (simp add: kMaxNamesPerRequest_def)
  qed (subst chunks_from.simps, simp)
qed

definition read_spec :: "string list \<Rightarrow> request_spec" where
  "read_spec c = \<lparr>rs_type = ''dp_read'', rs_body = JObj [(''names'', JArr (map JStr c))], rs_timeout = None,
     rs_priority = Polling, rs_coalesce_key = []\<rparr>"

lemma check_names_known: "\<forall>n \<in> set ns. catalog_find n \<noteq> None \<Longrightarrow> check_names ns = Inr ()"
  by (induction ns) auto

lemma send_chunks_eq:
  assumes "\<forall>c \<in> set cs. c \<noteq> [] \<and> (\<forall>n \<in> set c. catalog_find n \<noteq> None)"
  shows "\<exists>st. send_chunks cs p = (p\<lparr>po_stats := st\<rparr>, map (\<lambda>c. Poll_read c (read_spec c)) cs)"
  using assms
proof (induction cs arbitrary: p)
  case Nil
  show ?case by (simp add: exI [of _ "po_stats p"])
next
  case (Cons c cs)
  let ?p = "p\<lparr>po_stats := (po_stats p)\<lparr>ps_requests := ps_requests (po_stats p) + 1\<rparr>\<rparr>"
  have "async_read c Polling [] = Inr (read_spec c)"
    using Cons.prems by (simp add: async_read_def check_names_known read_spec_def)
  moreover obtain st where "send_chunks cs ?p = (?p\<lparr>po_stats := st\<rparr>, map (\<lambda>c. Poll_read c (read_spec c)) cs)"
    using Cons.IH [of ?p] Cons.prems by auto
  ultimately show ?case by (simp add: exI [of _ st])
qed

section \<open>A tick\<close>

text \<open>The poller a tick works on: the grid is rebuilt first when it is marked so.\<close>

definition rastered :: "int \<Rightarrow> poller \<Rightarrow> poller" where
  "rastered now p = (if po_raster_dirty p then reset_raster now p else p)"

definition due_names :: "int \<Rightarrow> poller \<Rightarrow> string list" where
  "due_names now p = map fst (filter (\<lambda>(n, e). entry_due now e) (po_entries (rastered now p)))"

definition ticked_entries :: "int \<Rightarrow> poller \<Rightarrow> (string, poll_entry) omap" where
  "ticked_entries now p = map (\<lambda>(n, e). (n, ticked now e)) (po_entries (rastered now p))"

fun request_names :: "poll_request \<Rightarrow> string list" where
  "request_names (Poll_read c spec) = c"
| "request_names (Poll_keepalive spec) = []"

lemma map_of_map_keyed: "map_of (map (\<lambda>(n, e). (n, f n e)) c) n = map_option (f n) (map_of c n)"
  by (induction c) auto

lemmas map_of_map_entries = map_of_map_keyed [of "\<lambda>n. f"] for f

lemma omap_ok_map: "omap_ok (map (\<lambda>(n, e). (n, f n e)) c) = omap_ok c"
  by (simp add: omap_ok_def case_prod_beta o_def)

lemma reset_entry_ok [simp]: "entry_ok (reset_entry now e) = entry_ok e"
  by (simp add: reset_entry_def entry_ok_def)

lemma rastered_ok: "poller_ok p \<Longrightarrow> poller_ok (rastered now p)"
  by (auto simp: poller_ok_def rastered_def reset_raster_def map_of_map_entries omap_ok_map)

lemma poller_entries_ok: "poller_ok p \<Longrightarrow> \<forall>(n, e) \<in> set (po_entries p). catalog_find n \<noteq> None \<and> entry_ok e"
  by (auto simp: poller_ok_def omap.mitems_mfind)

definition keepalive_due :: "int \<Rightarrow> int \<Rightarrow> poller \<Rightarrow> bool" where
  "keepalive_due now last_tx p \<longleftrightarrow> due_names now p = [] \<and> 0 < po_keepalive p \<and>
     po_keepalive p * 1000000000 \<le> now - last_tx"

lemma rastered_sel [simp]:
  "po_keepalive (rastered now p) = po_keepalive p" "po_running (rastered now p) = po_running p"
  "po_paused (rastered now p) = po_paused p" "\<not> po_raster_dirty (rastered now p)"
  by (simp_all add: rastered_def reset_raster_def)

lemma find_uptime:
  "catalog_find ''System_Uptime'' = Some (kDatapointDescriptors_1 ! 11)" "readable (kDatapointDescriptors_1 ! 11)"
proof -
  have "kDatapointDescriptors_1 ! 11 \<in> set kDatapointDescriptors"
    by (simp add: kDatapointDescriptors_def kDatapointDescriptors_1_def)
  from catalog_find_member [OF this]
  show "catalog_find ''System_Uptime'' = Some (kDatapointDescriptors_1 ! 11)" "readable (kDatapointDescriptors_1 ! 11)"
    by (simp_all add: kDatapointDescriptors_1_def readable_def)
qed

definition keepalive_spec :: request_spec where
  "keepalive_spec = \<lparr>rs_type = ''dp_read'', rs_body = JObj [(''names'', JArr [JStr ''System_Uptime''])],
     rs_timeout = None, rs_priority = Background, rs_coalesce_key = ''keepalive''\<rparr>"

lemma keepalive_read: "async_read [''System_Uptime''] Background ''keepalive'' = Inr keepalive_spec"
  by (simp add: async_read_def keepalive_spec_def find_uptime)

lemma chunks_Nil [simp]: "chunks_from k [] = []"
  by (subst chunks_from.simps) simp

lemma due_chunks:
  assumes "poller_ok p"
  shows "\<forall>c \<in> set (chunks_from 0 (due_names now p)). c \<noteq> [] \<and> (\<forall>n \<in> set c. catalog_find n \<noteq> None)"
proof
  fix c
  assume c: "c \<in> set (chunks_from 0 (due_names now p))"
  have "set c \<subseteq> set (due_names now p)" using c concat_chunks [of 0 "due_names now p"] by (metis UN_upper drop0 set_concat)
  moreover have "\<forall>n \<in> set (due_names now p). catalog_find n \<noteq> None"
    using poller_entries_ok [OF rastered_ok [OF assms], of now] by (auto simp: due_names_def)
  ultimately show "c \<noteq> [] \<and> (\<forall>n \<in> set c. catalog_find n \<noteq> None)" using chunks_size [OF c] by auto
qed

definition tick_requests :: "int \<Rightarrow> int \<Rightarrow> poller \<Rightarrow> poll_request list" where
  "tick_requests now last_tx p =
    (if keepalive_due now last_tx p then [Poll_keepalive keepalive_spec]
     else map (\<lambda>c. Poll_read c (read_spec c)) (chunks_from 0 (due_names now p)))"

lemma poll_tick_eq:
  assumes ok: "poller_ok p" and act: "poll_active p"
  shows "\<exists>st. poll_tick now last_tx p =
    Inr ((rastered now p)\<lparr>po_entries := ticked_entries now p, po_stats := st\<rparr>, tick_requests now last_tx p)"
proof -
  let ?p = "rastered now p"
  have "\<forall>(n, e) \<in> set (po_entries ?p). entry_ok e"
    using poller_entries_ok [OF rastered_ok [OF ok], of now] by auto
  from tick_entries_eq [OF this, of now "po_stats ?p"] obtain st where
    st: "tick_entries now (po_entries ?p) (po_stats ?p) = Inr (due_names now p, ticked_entries now p, st)"
    by (auto simp: due_names_def ticked_entries_def)
  let ?p1 = "\<lambda>st. ?p\<lparr>po_entries := ticked_entries now p, po_stats := st\<rparr>"
  have k: "keepalive_due now last_tx p \<longleftrightarrow>
    due_names now p = [] \<and> 0 < po_keepalive p \<and> ns_of_ms (po_keepalive p * 1000) \<le> now - last_tx"
    by (simp add: keepalive_due_def ns_of_ms_def mult.commute)
  note tick = poll_tick_def [of now last_tx p, folded rastered_def]
  show ?thesis
  proof (cases "keepalive_due now last_tx p \<or> due_names now p = []")
    case True
    then show ?thesis
      using act k by (auto simp: tick st poll_active_def Let_def keepalive_read tick_requests_def)
  next
    case False
    define st2 where "st2 = (let st1 = st\<lparr>ps_cycles := ps_cycles st + 1\<rparr> in
        if 1 < length (due_names now p) then st1\<lparr>ps_coalesced_points := ps_coalesced_points st1 +
          word_of_nat (length (due_names now p))\<rparr> else st1)"
    from send_chunks_eq [OF due_chunks [OF ok, of now], of "?p1 st2"] obtain st' where
      "send_chunks (chunks_from 0 (due_names now p)) (?p1 st2) =
        (?p1 st', map (\<lambda>c. Poll_read c (read_spec c)) (chunks_from 0 (due_names now p)))"
      by auto
    with False act show ?thesis by (simp add: tick st poll_active_def Let_def tick_requests_def st2_def exI [of _ st'])
  qed
qed

section \<open>Reachable pollers\<close>

text \<open>The operations of the interface, with the restriction that intervals are positive.\<close>

inductive poller_reach :: "poller \<Rightarrow> bool" where
  start: "poller_reach make_poller"
| every: "poller_reach p \<Longrightarrow> 0 < interval \<Longrightarrow> poller_reach (snd (every interval names p))"
| once: "poller_reach p \<Longrightarrow> catalog_find n \<noteq> None \<Longrightarrow> poller_reach (poll_add_once n p)"
| remove: "poller_reach p \<Longrightarrow> poller_reach (poll_remove n p)"
| class_interval: "poller_reach p \<Longrightarrow> 0 < interval \<Longrightarrow> poller_reach (set_class_interval c interval p)"
| keepalive: "poller_reach p \<Longrightarrow> poller_reach (set_keepalive interval p)"
| defaults: "poller_reach p \<Longrightarrow> poller_reach (start_defaults p)"
| run: "poller_reach p \<Longrightarrow> poller_reach (poll_start p)"
| pause: "poller_reach p \<Longrightarrow> poller_reach (poll_pause p)"
| resume: "poller_reach p \<Longrightarrow> poller_reach (poll_resume p)"
| stop: "poller_reach p \<Longrightarrow> poller_reach (poll_stop p)"
| reconnected: "poller_reach p \<Longrightarrow> poller_reach (on_reconnected p)"
| tick: "poller_reach p \<Longrightarrow> poll_tick now last_tx p = Inr (p', reqs) \<Longrightarrow> poller_reach p'"
| response: "poller_reach p \<Longrightarrow> poller_reach (poll_response c (r :: snapshot result) p)"

definition poller_inv :: "poller \<Rightarrow> bool" where
  "poller_inv p \<longleftrightarrow> poller_ok p \<and> (\<forall>c \<in> {Poll_Realtime, Poll_Status, Poll_Config}. 0 < po_class_intervals p c)"

lemma poller_inv_put:
  "poller_inv p \<Longrightarrow> catalog_find n \<noteq> None \<Longrightarrow> entry_ok e \<Longrightarrow>
     poller_inv (p\<lparr>po_entries := omap_put n e (po_entries p)\<rparr>)"
  by (auto simp: poller_inv_def poller_ok_def omap_simps)

lemma poller_inv_flags [simp]:
  "poller_inv (p\<lparr>po_raster_dirty := b\<rparr>) = poller_inv p" "poller_inv (p\<lparr>po_running := b\<rparr>) = poller_inv p"
  "poller_inv (p\<lparr>po_paused := b\<rparr>) = poller_inv p" "poller_inv (p\<lparr>po_keepalive := k\<rparr>) = poller_inv p"
  "poller_inv (p\<lparr>po_stats := st\<rparr>) = poller_inv p"
  by (simp_all add: poller_inv_def poller_ok_def)

lemma poller_inv_map:
  assumes "poller_inv p" "\<And>n e. entry_ok (f n e) = entry_ok e"
  shows "poller_inv (p\<lparr>po_entries := map (\<lambda>(n, e). (n, f n e)) (po_entries p)\<rparr>)"
  using assms by (auto simp: poller_inv_def poller_ok_def omap_ok_map map_of_map_keyed)

lemma entry_ok_ticked [simp]: "entry_ok (ticked now e) = entry_ok e"
  by (simp add: ticked_def entry_ok_def)

lemma poller_inv_add: "poller_inv p \<Longrightarrow> 0 < i \<Longrightarrow> catalog_find n \<noteq> None \<Longrightarrow> poller_inv (poll_add n i p)"
  using poller_inv_put [of p n "(entry_of n p)\<lparr>pe_interval := i, pe_once := False\<rparr>"]
  by (simp add: poll_add_def entry_ok_def)

lemma poller_inv_once: "poller_inv p \<Longrightarrow> catalog_find n \<noteq> None \<Longrightarrow> poller_inv (poll_add_once n p)"
  using poller_inv_put [of p n "(entry_of n p)\<lparr>pe_once := True, pe_once_done := False\<rparr>"]
  by (simp add: poll_add_once_def entry_ok_def)

lemma poller_inv_every: "0 < i \<Longrightarrow> poller_inv p \<Longrightarrow> poller_inv (snd (every i names p))"
  by (induction i names p rule: every.induct) (auto simp: poller_inv_add split: option.split)

lemma poller_inv_default:
  assumes "poller_inv p" "d \<in> set kDatapointDescriptors"
  shows "poller_inv (add_default d p)"
proof -
  have n: "catalog_find (dd_name d) \<noteq> None" using catalog_find_member [OF assms(2)] by simp
  have pos: "0 < po_class_intervals p Poll_Realtime" "0 < po_class_intervals p Poll_Status"
    "0 < po_class_intervals p Poll_Config"
    using assms(1) by (simp_all add: poller_inv_def)
  have put: "poller_inv (p\<lparr>po_entries := omap_put (dd_name d) e (po_entries p)\<rparr>)" if "entry_ok e" for e
    using poller_inv_put [OF assms(1) n that] .
  show ?thesis
    by (cases "dd_poll_class d") (simp_all add: add_default_def put entry_ok_def pos assms(1))
qed

lemma poller_inv_fold:
  "set ds \<subseteq> set kDatapointDescriptors \<Longrightarrow> poller_inv p \<Longrightarrow> poller_inv (fold add_default ds p)"
  by (induction ds arbitrary: p) (auto simp: poller_inv_default)

lemma poller_inv_tick:
  assumes "poller_inv p" "poll_tick now last_tx p = Inr (p', reqs)"
  shows "poller_inv p'"
proof (cases "poll_active p")
  case True
  have ok: "poller_ok p" using assms(1) by (simp add: poller_inv_def)
  have "poller_inv (rastered now p)"
    using poller_inv_map [OF assms(1), of "\<lambda>n. reset_entry now"] assms(1)
    by (simp add: rastered_def reset_raster_def)
  from poller_inv_map [OF this, of "\<lambda>n. ticked now"] poll_tick_eq [OF ok True, of now last_tx] assms(2)
  show ?thesis by (auto simp: ticked_entries_def)
qed (use assms in \<open>simp add: poll_tick_def poll_active_def\<close>)

lemma poller_inv_response: "poller_inv p \<Longrightarrow> poller_inv (poll_response c r p)"
  using poller_inv_map [of p "\<lambda>n e. if n \<in> set c then e\<lparr>pe_in_flight := False\<rparr> else e"]
  by (auto simp: poll_response_def Let_def entry_ok_def split: sum.split)

lemma poller_reach_inv: "poller_reach p \<Longrightarrow> poller_inv p"
proof (induction rule: poller_reach.induct)
  case (remove p n)
  then show ?case by (auto simp: poll_remove_def poller_inv_def poller_ok_def omap_simps)
next
  case (class_interval p i c)
  then show ?case by (auto simp: set_class_interval_def poller_inv_def poller_ok_def)
next
  case (defaults p)
  from poller_inv_fold [OF subset_refl this(2)] show ?case by (simp add: start_defaults_def poll_start_def)
next
  case start
  show ?case by (simp add: make_poller_def poller_inv_def poller_ok_def)
next
  case (tick p now last_tx p' reqs)
  from this(3,2) show ?case by (rule poller_inv_tick)
qed (simp_all add: poller_inv_every poller_inv_once set_keepalive_def poll_start_def poll_pause_def poll_resume_def
    poll_stop_def on_reconnected_def poller_inv_response)

lemma poller_reach_ok: "poller_reach p \<Longrightarrow> poller_ok p"
  using poller_reach_inv by (simp add: poller_inv_def)

section \<open>What a tick does\<close>

text \<open>
  C25: A tick of an active poller whose intervals are positive always completes. It requests every due
  point that is not already being read exactly once, in the order of the names, in as few requests as
  the limit of 100 names allows; and it sends the keepalive exactly when nothing is due, the keepalive
  is enabled and nothing was sent for that long.
\<close>

theorem tick_requests_due:
  assumes "poller_reach p" "poll_active p"
  shows "\<exists>p' reqs. poll_tick now last_tx p = Inr (p', reqs) \<and>
    concat (map request_names reqs) = due_names now p \<and>
    (\<forall>c spec. Poll_read c spec \<in> set reqs \<longrightarrow> 0 < length c \<and> length c \<le> 100) \<and>
    ((\<exists>spec. Poll_keepalive spec \<in> set reqs) \<longleftrightarrow> keepalive_due now last_tx p) \<and>
    (\<not> keepalive_due now last_tx p \<longrightarrow> length reqs = (length (due_names now p) + 99) div 100)"
proof -
  from poll_tick_eq [OF poller_reach_ok [OF assms(1)] assms(2), of now last_tx] obtain st where
    t: "poll_tick now last_tx p =
      Inr ((rastered now p)\<lparr>po_entries := ticked_entries now p, po_stats := st\<rparr>, tick_requests now last_tx p)" by blast
  have "concat (map (request_names \<circ> (\<lambda>c. Poll_read c (read_spec c))) (chunks_from 0 (due_names now p))) = due_names now p"
    using concat_chunks [of 0 "due_names now p"] by (simp add: o_def)
  then show ?thesis
    using chunks_size [of _ 0 "due_names now p"]
    unfolding t by (auto simp: tick_requests_def keepalive_due_def length_chunks)
qed

text \<open>
  Deadlines stay on their grid: after a tick the deadline of a periodic point has moved by a whole
  number of its intervals, it lies in the future, and if it moved, by no more than one interval: cycles
  that were missed are skipped and not caught up.
\<close>

theorem deadline_on_grid:
  assumes "poller_reach p" "poll_active p" "\<not> po_raster_dirty p"
    and "map_of (po_entries p) n = Some e" "\<not> pe_once e"
  shows "\<exists>p' reqs e' k. poll_tick now last_tx p = Inr (p', reqs) \<and> map_of (po_entries p') n = Some e' \<and>
    pe_next_due e' = pe_next_due e + k * ns_of_ms (pe_interval e) \<and> 0 \<le> k \<and> now < pe_next_due e' \<and>
    (k \<noteq> 0 \<longrightarrow> pe_next_due e' \<le> now + ns_of_ms (pe_interval e))"
proof -
  have ok: "poller_ok p" using assms(1) by (rule poller_reach_ok)
  from poll_tick_eq [OF ok assms(2), of now last_tx] obtain st where
    t: "poll_tick now last_tx p =
      Inr ((rastered now p)\<lparr>po_entries := ticked_entries now p, po_stats := st\<rparr>, tick_requests now last_tx p)" by blast
  have pos: "0 < pe_interval e" using ok assms(4,5) by (auto simp: poller_ok_def entry_ok_def)
  have e': "map_of (ticked_entries now p) n = Some (ticked now e)"
    using assms(3,4) by (simp add: ticked_entries_def rastered_def map_of_map_entries)
  have "\<exists>k. pe_next_due (ticked now e) = pe_next_due e + k * ns_of_ms (pe_interval e) \<and> 0 \<le> k \<and>
    now < pe_next_due (ticked now e) \<and> (k \<noteq> 0 \<longrightarrow> pe_next_due (ticked now e) \<le> now + ns_of_ms (pe_interval e))"
  proof (cases "now < pe_next_due e")
    case True
    then show ?thesis using assms(5) by (intro exI [of _ 0]) (simp add: ticked_def)
  next
    case False
    then have "0 \<le> periods now e"
      using pos by (simp add: periods_def ns_of_ms_def pos_imp_zdiv_nonneg_iff)
    with False show ?thesis
      using assms(5) periods_bounds [OF pos, of now]
      by (intro exI [of _ "periods now e"]) (simp add: ticked_def)
  qed
  with t e' show ?thesis by auto
qed

section \<open>No piling up\<close>

text \<open>
  Ticks on one grid, with the reads under way: a tick adds the reads it requests, an answer of any
  kind removes one.
\<close>

inductive poll_run :: "poller \<Rightarrow> string list list \<Rightarrow> bool" where
  start: "poller_ok p \<Longrightarrow> \<not> po_raster_dirty p \<Longrightarrow> \<forall>(n, e) \<in> set (po_entries p). \<not> pe_in_flight e \<Longrightarrow> poll_run p []"
| tick: "poll_run p out \<Longrightarrow> poll_tick now last_tx p = Inr (p', reqs) \<Longrightarrow>
    poll_run p' (out @ map request_names reqs)"
| answer: "poll_run p (xs @ c # ys) \<Longrightarrow> poll_run (poll_response c (r :: snapshot result) p) (xs @ ys)"

definition flying :: "poller \<Rightarrow> string set" where
  "flying p = {n. \<exists>e. map_of (po_entries p) n = Some e \<and> pe_in_flight e}"

definition run_ok :: "poller \<Rightarrow> string list list \<Rightarrow> bool" where
  "run_ok p out \<longleftrightarrow> poller_ok p \<and> \<not> po_raster_dirty p \<and> distinct (concat out) \<and> set (concat out) \<subseteq> flying p"

lemma ticked_flying: "pe_in_flight (ticked now e) \<longleftrightarrow> pe_in_flight e \<or> entry_due now e"
  by (auto simp: ticked_def entry_due_def not_less)

lemma due_names_distinct: "poller_ok p \<Longrightarrow> distinct (due_names now p)"
  using rastered_ok [of p now]
  by (auto simp: due_names_def poller_ok_def intro: distinct_map_filter dest: omap_ok_distinct)

lemma due_not_flying:
  "poller_ok p \<Longrightarrow> \<not> po_raster_dirty p \<Longrightarrow> set (due_names now p) \<inter> flying p = {}"
  by (auto simp: due_names_def rastered_def flying_def entry_due_def poller_ok_def omap.mitems_mfind)

lemma ticked_entries_flying:
  assumes "poller_ok p" "\<not> po_raster_dirty p" "po_entries q = ticked_entries now p"
  shows "flying q = flying p \<union> set (due_names now p)"
  using assms
  by (auto simp: flying_def ticked_entries_def due_names_def rastered_def map_of_map_entries ticked_flying
      poller_ok_def omap.mitems_mfind image_iff)

lemma poll_response_flying: "flying (poll_response c r p) = flying p - set c"
proof (rule set_eqI)
  fix n
  have "map_of (po_entries (poll_response c r p)) n =
    map_option (\<lambda>e. if n \<in> set c then e\<lparr>pe_in_flight := False\<rparr> else e) (map_of (po_entries p) n)"
    by (simp add: poll_response_def Let_def map_of_map_keyed split: sum.split)
  then show "n \<in> flying (poll_response c r p) \<longleftrightarrow> n \<in> flying p - set c"
    by (cases "map_of (po_entries p) n") (simp_all add: flying_def)
qed

lemma entry_ok_flight [simp]: "entry_ok (e\<lparr>pe_in_flight := b\<rparr>) = entry_ok e"
  by (simp add: entry_ok_def)

lemma poll_response_ok: "poller_ok p \<Longrightarrow> poller_ok (poll_response c r p)"
  by (auto simp: poll_response_def Let_def poller_ok_def omap_ok_map map_of_map_keyed split: sum.split)

lemma poll_response_dirty [simp]: "po_raster_dirty (poll_response c r p) = po_raster_dirty p"
  by (simp add: poll_response_def Let_def split: sum.split)

lemma poll_run_ok: "poll_run p out \<Longrightarrow> run_ok p out"
proof (induction rule: poll_run.induct)
  case (start p)
  then show ?case by (simp add: run_ok_def)
next
  case (tick p out now last_tx p' reqs)
  then have r: "poller_ok p" "\<not> po_raster_dirty p" "distinct (concat out)" "set (concat out) \<subseteq> flying p"
    by (simp_all add: run_ok_def)
  show ?case
  proof (cases "poll_active p")
    case True
    from poll_tick_eq [OF r(1) True, of now last_tx] tick.hyps(2) obtain st where
      p': "p' = (rastered now p)\<lparr>po_entries := ticked_entries now p, po_stats := st\<rparr>"
        "reqs = tick_requests now last_tx p" by auto
    have names: "concat (map request_names reqs) = due_names now p"
      using concat_chunks [of 0 "due_names now p"] by (auto simp: p' tick_requests_def keepalive_due_def o_def)
    have "poller_ok p'"
      using rastered_ok [OF r(1), of now]
      by (auto simp: p' poller_ok_def ticked_entries_def omap_ok_map map_of_map_entries)
    moreover have "flying p' = flying p \<union> set (due_names now p)"
      using ticked_entries_flying [OF r(1,2), of p' now] by (simp add: p')
    moreover have "\<not> po_raster_dirty p'" by (simp add: p')
    ultimately show ?thesis
      using r due_not_flying [OF r(1,2), of now] due_names_distinct [OF r(1), of now] names
      by (auto simp: run_ok_def)
  next
    case False
    with tick show ?thesis by (simp add: poll_tick_def poll_active_def run_ok_def)
  qed
next
  case (answer p xs c ys r)
  then show ?case
    by (auto simp: run_ok_def poll_response_ok poll_response_flying)
qed


section \<open>Sleeping until the next deadline\<close>

lemma foldl_min:
  fixes b :: int
  shows "foldl (\<lambda>m (n, e). if skip e then m else min m (f e)) b es \<le> b \<and>
    (\<forall>(n, e) \<in> set es. skip e \<or> foldl (\<lambda>m (n, e). if skip e then m else min m (f e)) b es \<le> f e)"
proof (induction es arbitrary: b)
  case (Cons ne es)
  obtain n e where ne: "ne = (n, e)" by (cases ne)
  let ?b = "if skip e then b else min b (f e)"
  have "?b \<le> b" "skip e \<or> ?b \<le> f e" by simp_all
  with Cons.IH [of ?b] show ?case by (auto simp: ne split: if_splits)
qed simp

lemma next_deadline_least:
  assumes "poll_active p" "\<not> po_raster_dirty p" "t < next_deadline now p"
    and "(n, e) \<in> set (po_entries p)" "\<not> (pe_once e \<and> pe_once_done e)"
  shows "t < pe_next_due e"
proof -
  have "next_deadline now p = foldl (\<lambda>m (n, e). if pe_once e \<and> pe_once_done e then m else min m (pe_next_due e))
      time_max (po_entries p)"
    using assms(1,2) by (simp add: next_deadline_def poll_active_def case_prod_beta cong: if_cong)
  moreover have "\<dots> \<le> pe_next_due e"
    using foldl_min [of "\<lambda>e. pe_once e \<and> pe_once_done e" pe_next_due time_max "po_entries p"] assms(4,5) by blast
  ultimately show ?thesis using assms(3) by linarith
qed

text \<open>
  Before the deadline the poller announces, a tick reads nothing and changes no entry: nothing is
  lost by sleeping until then (the keepalive is not part of that deadline).
\<close>

theorem quiet_before_deadline:
  assumes "poller_reach p" "poll_active p" "\<not> po_raster_dirty p" "t < next_deadline now p"
    and "\<forall>(n, e) \<in> set (po_entries p). pe_once e \<and> \<not> pe_once_done e \<longrightarrow> pe_next_due e \<le> t"
  shows "\<exists>p' reqs. poll_tick t last_tx p = Inr (p', reqs) \<and> po_entries p' = po_entries p \<and>
    concat (map request_names reqs) = []"
proof -
  have ok: "poller_ok p" using assms(1) by (rule poller_reach_ok)
  have late: "t < pe_next_due e \<or> pe_once e \<and> pe_once_done e" if "(n, e) \<in> set (po_entries p)" for n e
    using next_deadline_least [OF assms(2,3,4) that] by blast
  have due: "due_names t p = []"
    using late assms(3,5) by (fastforce simp: due_names_def rastered_def entry_due_def filter_empty_conv)
  have same: "ticked t e = e" if "(n, e) \<in> set (po_entries p)" for n e
    using late [OF that] assms(5) that by (auto simp: ticked_def entry_due_def)
  have "ticked_entries t p = po_entries p"
    using assms(3) same by (auto simp: ticked_entries_def rastered_def intro!: map_idI)
  then show ?thesis
    using poll_tick_eq [OF ok assms(2), of t last_tx] due by (auto simp: tick_requests_def)
qed

section \<open>Intervals that are not positive\<close>

text \<open>
  An interval of zero, which the interface accepts without an error, makes the next tick divide by
  zero, which has no defined behaviour.
\<close>

theorem zero_interval_undefined:
  "fst (every 0 [''System_Uptime''] (poll_start make_poller)) = Inr () \<and>
   poll_tick now last_tx (snd (every 0 [''System_Uptime''] (poll_start make_poller))) =
     Inl (Undefined_behaviour ''division by zero'')"
  by (simp add: find_uptime poll_add_def entry_of_def poll_start_def make_poller_def default_entry_def poll_tick_def
      reset_raster_def reset_entry_def tick_entry_def advance_def ns_of_ms_def)

section \<open>A concrete poller\<close>

definition demo_poller :: poller where
  "demo_poller = snd (every 1000 [''System_Uptime''] (poll_start make_poller))"

definition demo_entry :: "bool \<Rightarrow> int \<Rightarrow> poll_entry" where
  "demo_entry f t = \<lparr>pe_interval = 1000, pe_next_due = t, pe_in_flight = f, pe_once = False, pe_once_done = False\<rparr>"

lemma demo_poller_reach: "poller_reach demo_poller"
  unfolding demo_poller_def by (intro poller_reach.every poller_reach.run poller_reach.start) simp

lemma demo_poller_sel:
  "po_entries demo_poller = [(''System_Uptime'', demo_entry False 0)]" "po_running demo_poller" "\<not> po_paused demo_poller"
  "po_raster_dirty demo_poller"
  by (simp_all add: demo_poller_def find_uptime poll_add_def poll_start_def make_poller_def entry_of_def
      default_entry_def demo_entry_def)

text \<open>After its first tick at time 0: the point is being read and due again after a second.\<close>

lemma demo_tick:
  obtains p' reqs where "poll_tick 0 0 demo_poller = Inr (p', reqs)" "poller_reach p'" "poll_active p'"
    "\<not> po_raster_dirty p'" "po_entries p' = [(''System_Uptime'', demo_entry True 1000000000)]"
proof -
  have act: "poll_active demo_poller" by (simp add: poll_active_def demo_poller_sel)
  from poll_tick_eq [OF poller_reach_ok [OF demo_poller_reach] act, of 0 0] obtain st where
    t: "poll_tick 0 0 demo_poller = Inr ((rastered 0 demo_poller)\<lparr>po_entries := ticked_entries 0 demo_poller,
      po_stats := st\<rparr>, tick_requests 0 0 demo_poller)" by blast
  have "ticked_entries 0 demo_poller = [(''System_Uptime'', demo_entry True 1000000000)]"
    by (simp add: ticked_entries_def rastered_def reset_raster_def reset_entry_def demo_poller_sel ticked_def
        demo_entry_def periods_def ns_of_ms_def)
  with that [OF t poller_reach.tick [OF demo_poller_reach t]] show ?thesis
    by (simp add: poll_active_def demo_poller_sel)
qed

theorem tick_requests_due_witness:
  "\<exists>p' reqs. poll_tick 0 0 demo_poller = Inr (p', reqs) \<and> concat (map request_names reqs) = [''System_Uptime'']"
proof -
  have "poll_active demo_poller" by (simp add: poll_active_def demo_poller_sel)
  from tick_requests_due [OF demo_poller_reach this, of 0 0] show ?thesis
    by (auto simp: due_names_def rastered_def reset_raster_def reset_entry_def demo_poller_sel entry_due_def demo_entry_def)
qed

theorem deadline_on_grid_witness:
  "\<exists>p p' reqs e'. poll_active p \<and> poll_tick 3500000000 0 p = Inr (p', reqs) \<and>
     map_of (po_entries p') ''System_Uptime'' = Some e' \<and> pe_next_due e' = 4000000000"
proof -
  obtain p where p: "poller_reach p" "poll_active p" "\<not> po_raster_dirty p"
    "po_entries p = [(''System_Uptime'', demo_entry True 1000000000)]" using demo_tick by blast
  have e: "map_of (po_entries p) ''System_Uptime'' = Some (demo_entry True 1000000000)"
    "\<not> pe_once (demo_entry True 1000000000)" by (simp_all add: p(4) demo_entry_def)
  from deadline_on_grid [OF p(1-3) e, of 3500000000 0] obtain p' reqs e' k where
    *: "poll_tick 3500000000 0 p = Inr (p', reqs)" "map_of (po_entries p') ''System_Uptime'' = Some e'"
      "pe_next_due e' = 1000000000 + k * 1000000000" "3500000000 < pe_next_due e'"
      "k \<noteq> 0 \<longrightarrow> pe_next_due e' \<le> 4500000000" by (auto simp: demo_entry_def ns_of_ms_def)
  then have "k = 3" by (cases "k = 0") auto
  with * p(2) show ?thesis by auto
qed


theorem quiet_before_deadline_witness:
  "\<exists>p p' reqs. po_entries p \<noteq> [] \<and> poll_tick 5 0 p = Inr (p', reqs) \<and> po_entries p' = po_entries p"
proof -
  obtain p where p: "poller_reach p" "poll_active p" "\<not> po_raster_dirty p"
    "po_entries p = [(''System_Uptime'', demo_entry True 1000000000)]" using demo_tick by blast
  have "5 < next_deadline 0 p"
    using p(2,3) by (simp add: next_deadline_def poll_active_def p(4) demo_entry_def time_max_def)
  moreover have "\<forall>(n, e) \<in> set (po_entries p). pe_once e \<and> \<not> pe_once_done e \<longrightarrow> pe_next_due e \<le> 5"
    by (simp add: p(4) demo_entry_def)
  ultimately obtain p' reqs where "poll_tick 5 0 p = Inr (p', reqs)" "po_entries p' = po_entries p"
    using quiet_before_deadline [OF p(1-3)] by blast
  then show ?thesis using p(4) by (intro exI [of _ p] exI [of _ p'] exI [of _ reqs]) simp
qed

end
