(* ===== verification/Services.thy ===== *)
theory Services
  imports Manager
begin

text \<open>
  The domain services on top of the request channel: commands (\<open>commands.cpp\<close>), logs (\<open>logs.cpp\<close>),
  diagnostics and maintenance (\<open>maintenance.cpp\<close>). A request is a value; its continuation is an
  operation of its own. The paged retrieval of the log is a loop that may run forever, so it is
  written with fuel: \<open>None\<close> means that it is still running.
\<close>

section \<open>Commands\<close>

datatype fountain_state = State_On | State_Off | State_Auto | State_Manual

fun fountain_state_to_string :: "fountain_state \<Rightarrow> string" where
  "fountain_state_to_string State_On = ''On''"
| "fountain_state_to_string State_Off = ''Off''"
| "fountain_state_to_string State_Auto = ''Auto''"
| "fountain_state_to_string State_Manual = ''Manual''"

datatype command_status = Command_Applied | Command_Rejected

record command_result =
  cr_command :: string
  cr_status :: command_status
  cr_error :: "string option"

definition command_applied :: "command_result \<Rightarrow> bool" where
  "command_applied r \<longleftrightarrow> cr_status r = Command_Applied"

definition kTurnOnStep :: int where
  "kTurnOnStep = 30"

definition put_some :: "string \<Rightarrow> ('a \<Rightarrow> json) \<Rightarrow> 'a option \<Rightarrow> jobj \<Rightarrow> jobj" where
  "put_some k f x o1 = (case x of None \<Rightarrow> o1 | Some v \<Rightarrow> omap_put k (f v) o1)"

definition async_raw ::
  "string \<Rightarrow> string option \<Rightarrow> 32 word option \<Rightarrow> operation_priority \<Rightarrow> request_spec result" where
  "async_raw command target_state duration_steps priority =
    (if command = [] then Inl (validation_error ConstraintViolation ''command must not be empty'' [])
     else Inr \<lparr>rs_type = ''command'',
       rs_body = JObj (put_some ''duration_steps'' (\<lambda>w. JUInt (unat w)) duration_steps
                  (put_some ''target_state'' JStr target_state [(''command'', JStr command)])),
       rs_timeout = None, rs_priority = priority, rs_coalesce_key = []\<rparr>)"

definition command_response :: "string \<Rightarrow> jobj result \<Rightarrow> command_result result exec" where
  "command_response command response =
    (case response of
       Inl e \<Rightarrow> Inr (Inl e)
     | Inr msg \<Rightarrow>
        bindE (msg_value get_string msg ''status'' []) (\<lambda>status.
          Inr (Inr \<lparr>cr_command = command,
                    cr_status = (if status = ''applied'' then Command_Applied else Command_Rejected),
                    cr_error = (case map_of msg ''error'' of Some (JStr s) \<Rightarrow> Some s | _ \<Rightarrow> None)\<rparr>)))"

definition state_priority :: "fountain_state \<Rightarrow> operation_priority" where
  "state_priority st = (if st = State_Off then SafetyControl else InteractiveControl)"

definition async_set_state :: "fountain_state \<Rightarrow> request_spec result" where
  "async_set_state st = async_raw ''set_state'' (Some (fountain_state_to_string st)) None (state_priority st)"

text \<open>Whole seconds; the sum overflows the signed 64-bit count for durations near its end.\<close>

definition async_turn_on_for :: "int \<Rightarrow> request_spec result exec" where
  "async_turn_on_for duration =
    (if duration \<le> 0 then Inr (Inl (validation_error OutOfRange ''turn_on duration must be positive'' []))
     else if 2 ^ 63 \<le> duration + kTurnOnStep then Inl (Undefined_behaviour ''signed overflow'')
     else Inr (async_raw ''turn_on_duration'' None
            (Some (word_of_int ((duration + kTurnOnStep - 1) div kTurnOnStep))) InteractiveControl))"

definition async_restart_pump :: "request_spec result" where
  "async_restart_pump = async_raw ''restart'' None None InteractiveControl"

definition async_reboot :: "request_spec result" where
  "async_reboot = async_raw ''reboot'' None None InteractiveControl"

definition blocking :: "service_env \<Rightarrow> 'a result exec \<Rightarrow> 'a result exec" where
  "blocking sv work =
     bindE (sync_wait sv (\<lambda>s. bindE work (\<lambda>r. Inr (r, s, [] :: unit list))) ()) (\<lambda>(r, s, n). Inr r)"

definition run_command :: "service_env \<Rightarrow> string \<Rightarrow> request_spec result \<Rightarrow> command_result result exec" where
  "run_command sv command request =
     blocking sv (case request of
         Inl e \<Rightarrow> Inr (Inl e)
       | Inr spec \<Rightarrow> command_response command (sv_device sv spec))"

definition command_raw ::
  "service_env \<Rightarrow> string \<Rightarrow> string option \<Rightarrow> 32 word option \<Rightarrow> operation_priority \<Rightarrow> command_result result exec" where
  "command_raw sv command target_state duration_steps priority =
     run_command sv command (async_raw command target_state duration_steps priority)"

definition set_state :: "service_env \<Rightarrow> fountain_state \<Rightarrow> command_result result exec" where
  "set_state sv st = run_command sv ''set_state'' (async_set_state st)"

definition turn_on_for :: "service_env \<Rightarrow> int \<Rightarrow> command_result result exec" where
  "turn_on_for sv duration =
     blocking sv (bindE (async_turn_on_for duration) (\<lambda>request.
       case request of
         Inl e \<Rightarrow> Inr (Inl e)
       | Inr spec \<Rightarrow> command_response ''turn_on_duration'' (sv_device sv spec)))"

definition restart_pump :: "service_env \<Rightarrow> command_result result exec" where
  "restart_pump sv = run_command sv ''restart'' async_restart_pump"

definition reboot :: "service_env \<Rightarrow> command_result result exec" where
  "reboot sv = run_command sv ''reboot'' async_reboot"

section \<open>Logs\<close>

datatype log_level = Log_None | Log_Error | Log_Warning | Log_Info | Log_Debug | Log_Trace

fun log_level_number :: "log_level \<Rightarrow> int" where
  "log_level_number Log_None = 0"
| "log_level_number Log_Error = 1"
| "log_level_number Log_Warning = 2"
| "log_level_number Log_Info = 3"
| "log_level_number Log_Debug = 4"
| "log_level_number Log_Trace = 5"

record log_record =
  lr_sequence :: "32 word"
  lr_uptime_ms :: "32 word"
  lr_event_id :: "16 word"
  lr_module_id :: "8 word"
  lr_level :: "8 word"
  lr_args :: "int list"
  lr_text :: string

record log_batch =
  lb_boot_id :: "32 word"
  lb_first_seq_available :: "32 word"
  lb_next_seq :: "32 word"
  lb_dropped_count :: "32 word"
  lb_overflow :: bool
  lb_previous_boot_available :: bool
  lb_records :: "log_record list"

definition last_sequence :: "log_batch \<Rightarrow> 32 word option" where
  "last_sequence b = (if lb_records b = [] then None else Some (lr_sequence (last (lb_records b))))"

record log_read_options =
  lo_since_sequence :: "32 word"
  lo_minimum_level :: log_level
  lo_max_records :: "16 word"

definition parse_record :: "(fp \<Rightarrow> int) \<Rightarrow> json \<Rightarrow> log_record exec" where
  "parse_record fc raw =
     bindE (json_value (get_word fc) raw ''s'' 0) (\<lambda>s.
     bindE (json_value (get_word fc) raw ''u'' 0) (\<lambda>u.
     bindE (json_value (get_word fc) raw ''ev'' 0) (\<lambda>ev.
     bindE (json_value (get_word fc) raw ''mod'' 0) (\<lambda>md.
     bindE (json_value (get_word fc) raw ''lvl'' 0) (\<lambda>lvl.
     bindE (json_value get_json raw ''a'' (JArr [])) (\<lambda>a.
     bindE (mapE (get_i64 fc) (filter is_number (json_elements a))) (\<lambda>args.
     bindE (json_value get_string raw ''t'' []) (\<lambda>text.
       Inr \<lparr>lr_sequence = s, lr_uptime_ms = u, lr_event_id = ev, lr_module_id = md, lr_level = lvl,
            lr_args = args, lr_text = text\<rparr>))))))))"

definition parse_batch :: "(fp \<Rightarrow> int) \<Rightarrow> jobj \<Rightarrow> log_batch exec" where
  "parse_batch fc msg =
     bindE (msg_value (get_word fc) msg ''boot_id'' 0) (\<lambda>boot.
     bindE (msg_value (get_word fc) msg ''first_seq_available'' 0) (\<lambda>first.
     bindE (msg_value (get_word fc) msg ''next_seq'' 0) (\<lambda>next.
     bindE (msg_value (get_word fc) msg ''dropped_count'' 0) (\<lambda>dropped.
     bindE (msg_value get_bool msg ''overflow'' False) (\<lambda>over.
     bindE (msg_value get_bool msg ''available'' False) (\<lambda>avail.
     bindE (msg_value get_json msg ''records'' (JArr [])) (\<lambda>recs.
     bindE (mapE (parse_record fc) (filter is_object (json_elements recs))) (\<lambda>records.
       Inr \<lparr>lb_boot_id = boot, lb_first_seq_available = first, lb_next_seq = next, lb_dropped_count = dropped,
            lb_overflow = over, lb_previous_boot_available = avail, lb_records = records\<rparr>))))))))"

definition log_spec :: "string \<Rightarrow> log_read_options \<Rightarrow> request_spec" where
  "log_spec type options =
    (let b0 = (if 0 < lo_since_sequence options
               then omap_put ''since_seq'' (JUInt (unat (lo_since_sequence options))) [] else []);
         b1 = (if lo_minimum_level options \<noteq> Log_None
               then omap_put ''min_level'' (JInt (log_level_number (lo_minimum_level options))) b0 else b0);
         b2 = omap_put ''max_records'' (JUInt (unat (min (lo_max_records options) 128))) b1
     in \<lparr>rs_type = type, rs_body = JObj b2, rs_timeout = Some 20000, rs_priority = LogTransfer,
         rs_coalesce_key = []\<rparr>)"

definition batch_response :: "(fp \<Rightarrow> int) \<Rightarrow> jobj result \<Rightarrow> log_batch result exec" where
  "batch_response fc response =
    (case response of
       Inl e \<Rightarrow> Inr (Inl e)
     | Inr msg \<Rightarrow> bindE (parse_batch fc msg) (\<lambda>b. Inr (Inr b)))"

definition log_read_typed :: "string \<Rightarrow> service_env \<Rightarrow> log_read_options \<Rightarrow> log_batch result exec" where
  "log_read_typed type sv options =
     blocking sv (batch_response (sv_fcast sv) (sv_device sv (log_spec type options)))"

definition log_read :: "service_env \<Rightarrow> log_read_options \<Rightarrow> log_batch result exec" where
  "log_read = log_read_typed ''log_read''"

definition read_previous :: "service_env \<Rightarrow> log_read_options \<Rightarrow> log_batch result exec" where
  "read_previous = log_read_typed ''log_read_prev''"

text \<open>
  One page with its single retry, then the loop. The \<open>k\<close>-th blocking call of the loop meets the
  environment \<open>sv k\<close>.
\<close>

definition read_page ::
  "(nat \<Rightarrow> service_env) \<Rightarrow> nat \<Rightarrow> log_read_options \<Rightarrow> (log_batch result \<times> nat) exec" where
  "read_page sv k page =
     bindE (log_read (sv k) page) (\<lambda>batch.
       case batch of
         Inr b \<Rightarrow> Inr (Inr b, k + 1)
       | Inl e \<Rightarrow>
          (if err_code e = RequestTimeout
           then bindE (log_read (sv (k + 1)) page) (\<lambda>again. Inr (again, k + 2))
           else Inr (Inl e, k + 1)))"

fun read_pages ::
  "nat \<Rightarrow> (nat \<Rightarrow> service_env) \<Rightarrow> nat \<Rightarrow> log_read_options \<Rightarrow> log_record list \<Rightarrow> log_record list result exec option" where
  "read_pages 0 sv k page acc = None"
| "read_pages (Suc fuel) sv k page acc =
    (case read_page sv k page of
       Inl x \<Rightarrow> Some (Inl x)
     | Inr (Inl e, k') \<Rightarrow> Some (Inr (Inl e))
     | Inr (Inr batch, k') \<Rightarrow>
        (case last_sequence batch of
           None \<Rightarrow> Some (Inr (Inr (acc @ lb_records batch)))
         | Some s \<Rightarrow>
            (if lb_next_seq batch \<le> s + 1 then Some (Inr (Inr (acc @ lb_records batch)))
             else read_pages fuel sv k' (page\<lparr>lo_since_sequence := s\<rparr>) (acc @ lb_records batch))))"

definition log_read_all ::
  "nat \<Rightarrow> (nat \<Rightarrow> service_env) \<Rightarrow> log_read_options \<Rightarrow> log_record list result exec option" where
  "log_read_all fuel sv options = read_pages fuel sv 0 (options\<lparr>lo_max_records := 64\<rparr>) []"

definition ack_spec :: "32 word \<Rightarrow> request_spec" where
  "ack_spec boot_id = \<lparr>rs_type = ''log_ack_prev'', rs_body = JObj [(''boot_id'', JUInt (unat boot_id))],
     rs_timeout = None, rs_priority = LogTransfer, rs_coalesce_key = []\<rparr>"

definition ack_previous :: "service_env \<Rightarrow> 32 word \<Rightarrow> bool result exec" where
  "ack_previous sv boot_id =
     blocking sv (case sv_device sv (ack_spec boot_id) of
         Inl e \<Rightarrow> Inr (Inl e)
       | Inr msg \<Rightarrow> bindE (msg_value get_bool msg ''ok'' False) (\<lambda>b. Inr (Inr b)))"

text \<open>The typed write of one datapoint; the concept of the template rules out errors of its set.\<close>

definition write_typed ::
  "service_env \<Rightarrow> string \<Rightarrow> datapoint_value \<Rightarrow> 'h manager \<Rightarrow>
    (write_result result \<times> 'h manager \<times> ('h \<times> change) list) exec" where
  "write_typed sv n v m = write_blocking sv (omap_put n v []) m"

definition log_command_rejected :: "write_result \<Rightarrow> error" where
  "log_command_rejected r =
     (make_error Dom_Remote RemoteRejected ''device rejected Log_Command'')
       \<lparr>err_remote_detail := (case wr_errors r of [] \<Rightarrow> None | e # _ \<Rightarrow> Some (we_reason e))\<rparr>"

text \<open>\<open>None\<close> is a service that was never bound.\<close>

definition write_log_command ::
  "service_env \<Rightarrow> 8 word \<Rightarrow> 'h manager option \<Rightarrow> (unit result \<times> 'h manager option \<times> ('h \<times> change) list) exec" where
  "write_log_command sv v mgr =
    (case mgr of
       None \<Rightarrow> Inr (Inl (internal_error ''LogService is not bound to a client''), None, [])
     | Some m \<Rightarrow>
        bindE (write_typed sv ''Log_Command'' (VU8 v) m) (\<lambda>(r, m', notes).
          Inr (case r of
                 Inl e \<Rightarrow> Inl e
               | Inr wr \<Rightarrow> if applied wr then Inr () else Inl (log_command_rejected wr), Some m', notes)))"

definition clear_runtime where
  "clear_runtime sv = write_log_command sv 1"

definition log_flush where
  "log_flush sv = write_log_command sv 3"

section \<open>Maintenance\<close>

datatype network_save_action = Save_Persist | Save_Reboot | Save_RestoreBackup | Save_TrialReboot

fun network_save_number :: "network_save_action \<Rightarrow> 8 word" where
  "network_save_number Save_Persist = 1"
| "network_save_number Save_Reboot = 2"
| "network_save_number Save_RestoreBackup = 3"
| "network_save_number Save_TrialReboot = 4"

text \<open>\<open>bound\<close>: the service has its command service; \<open>enabled\<close>: the test commands are switched on.\<close>

definition guarded :: "service_env \<Rightarrow> bool \<Rightarrow> bool \<Rightarrow> string \<Rightarrow> int \<Rightarrow> command_result result exec" where
  "guarded sv bound enabled command duration =
    (if \<not> bound then Inr (Inl (internal_error ''DiagnosticsService is not bound to a client''))
     else if \<not> enabled
     then Inr (Inl (make_error Dom_Configuration InvalidState
            (command @ '' is a device test command '' @ [CHR 0xE2, CHR 0x80, CHR 0x94] @
             '' enable it explicitly via ClientOptions::enable_test_commands'')))
     else if duration \<le> 0 then Inr (Inl (validation_error OutOfRange ''duration must be positive'' []))
     else command_raw sv command None (Some (word_of_int duration)) InteractiveControl)"

definition inject_watchdog_fault where
  "inject_watchdog_fault sv bound enabled = guarded sv bound enabled ''wd_fault''"

definition force_poor_link where
  "force_poor_link sv bound enabled = guarded sv bound enabled ''link_fault''"

definition network_save_dangerous ::
  "service_env \<Rightarrow> network_save_action \<Rightarrow> 'h manager option \<Rightarrow>
    (write_result result \<times> 'h manager option \<times> ('h \<times> change) list) exec" where
  "network_save_dangerous sv action mgr =
    (case mgr of
       None \<Rightarrow> Inr (Inl (internal_error ''MaintenanceService is not bound to a client''), None, [])
     | Some m \<Rightarrow>
        bindE (write_typed sv ''Network_Save'' (VU8 (network_save_number action)) m) (\<lambda>(r, m', notes).
          Inr (r, Some m', notes)))"

definition persist_network_config where
  "persist_network_config sv mgr = network_save_dangerous sv Save_Persist mgr"

end
