(* ===== verification/Services_Safety.thy ===== *)
theory Services_Safety
  imports Services
begin

text \<open>
  Laws of the services: the rounding of the switch-on time, and the paged retrieval of the log, which
  returns when every page makes progress and then holds every record exactly once.
\<close>

section \<open>Switch-on time\<close>

lemma steps_bounds:
  fixes d :: int
  assumes "0 < d"
  shows "30 * ((d + 29) div 30 - 1) < d \<and> d \<le> 30 * ((d + 29) div 30) \<and> 0 < (d + 29) div 30"
proof -
  have "30 * ((d + 29) div 30) + (d + 29) mod 30 = d + 29" by simp
  moreover have "0 \<le> (d + 29) mod 30" "(d + 29) mod 30 < 30" by simp_all
  ultimately show ?thesis using assms by auto
qed

text \<open>
  Switching on for a positive time sends the number of 30-second steps that covers the time with
  less than one step to spare, as long as that number fits the 32 bits it is sent in; a time that is
  not positive is refused.
\<close>

theorem turn_on_covers:
  "(duration \<le> 0 \<longrightarrow> (\<exists>e. async_turn_on_for duration = Inr (Inl e) \<and> err_code e = OutOfRange)) \<and>
   (0 < duration \<and> duration \<le> 30 * (2 ^ 32 - 1) \<longrightarrow>
     (\<exists>spec steps. async_turn_on_for duration = Inr (Inr spec) \<and> rs_type spec = ''command'' \<and>
        rs_body spec = JObj [(''command'', JStr ''turn_on_duration''), (''duration_steps'', JUInt steps)] \<and>
        30 * (int steps - 1) < duration \<and> duration \<le> 30 * int steps))"
proof (intro conjI impI)
  assume "duration \<le> 0"
  then show "\<exists>e. async_turn_on_for duration = Inr (Inl e) \<and> err_code e = OutOfRange"
    by (simp add: async_turn_on_for_def error_defs)
next
  assume d: "0 < duration \<and> duration \<le> 30 * (2 ^ 32 - 1)"
  let ?s = "(duration + 29) div 30"
  have s: "30 * (?s - 1) < duration \<and> duration \<le> 30 * ?s \<and> 0 < ?s" using d steps_bounds by blast
  then have "?s < 2 ^ 32" using d by auto
  with s have u: "unat (word_of_int ?s :: 32 word) = nat ?s"
    by (simp add: unat_eq_nat_uint take_bit_int_eq_self uint_word_of_int_eq)
  have "async_turn_on_for duration = Inr (async_raw ''turn_on_duration'' None (Some (word_of_int ?s)) InteractiveControl)"
    using d by (simp add: async_turn_on_for_def kTurnOnStep_def add.commute)
  then show "\<exists>spec steps. async_turn_on_for duration = Inr (Inr spec) \<and> rs_type spec = ''command'' \<and>
        rs_body spec = JObj [(''command'', JStr ''turn_on_duration''), (''duration_steps'', JUInt steps)] \<and>
        30 * (int steps - 1) < duration \<and> duration \<le> 30 * int steps"
    using s by (intro exI [of _ "nat ?s"] exI conjI) (auto simp: async_raw_def put_some_def u)
qed

theorem turn_on_covers_witness:
  "\<exists>spec steps. async_turn_on_for 31 = Inr (Inr spec) \<and>
     rs_body spec = JObj [(''command'', JStr ''turn_on_duration''), (''duration_steps'', JUInt steps)] \<and>
     31 \<le> 30 * int steps \<and> 30 * (int steps - 1) < 31"
  using turn_on_covers [of 31] by auto

section \<open>Paged retrieval\<close>

lemma read_pages_Suc:
  assumes "read_page sv k page = Inr (Inr b, k')"
  shows "read_pages (Suc fuel) sv k page acc =
    (if lb_records b = [] \<or> lb_next_seq b \<le> lr_sequence (last (lb_records b)) + 1
     then Some (Inr (Inr (acc @ lb_records b)))
     else read_pages fuel sv k' (page\<lparr>lo_since_sequence := lr_sequence (last (lb_records b))\<rparr>) (acc @ lb_records b))"
  using assms by (simp add: last_sequence_def)

text \<open>A page makes progress if its last record lies behind the point it was asked to continue from.\<close>

definition page_advances :: "log_read_options \<Rightarrow> log_batch \<Rightarrow> bool" where
  "page_advances page b \<longleftrightarrow> lb_records b \<noteq> [] \<longrightarrow> lo_since_sequence page < lr_sequence (last (lb_records b))"

lemma read_page_batch:
  assumes "read_page sv k page = Inr (Inr b, k')"
  shows "\<exists>j. log_read (sv j) page = Inr (Inr b)"
proof -
  obtain x where x: "log_read (sv k) page = Inr x" using assms by (auto simp: read_page_def exec_simps)
  show ?thesis
  proof (cases x)
    case (Inl e)
    with assms x show ?thesis by (auto simp: read_page_def exec_simps split: if_splits)
  qed (use assms x in \<open>auto simp: read_page_def\<close>)
qed

lemma read_pages_return:
  assumes adv: "\<And>k page b. log_read (sv k) page = Inr (Inr b) \<Longrightarrow> page_advances page b"
    and "2 ^ 32 \<le> fuel + unat (lo_since_sequence page)"
  shows "read_pages fuel sv k page acc \<noteq> None"
  using assms(2)
proof (induction fuel arbitrary: k page acc)
  case 0
  then show ?case using unsigned_less [of "lo_since_sequence page", where 'a = nat] by simp
next
  case (Suc fuel)
  show ?case
  proof (cases "\<exists>b k'. read_page sv k page = Inr (Inr b, k')")
    case True
    then obtain b k' where b: "read_page sv k page = Inr (Inr b, k')" by blast
    from read_page_batch [OF b] adv have "page_advances page b" by blast
    then have "lb_records b \<noteq> [] \<Longrightarrow>
        2 ^ 32 \<le> fuel + unat (lo_since_sequence (page\<lparr>lo_since_sequence := lr_sequence (last (lb_records b))\<rparr>))"
      using Suc.prems by (auto simp: page_advances_def word_less_nat_alt)
    then show ?thesis unfolding read_pages_Suc [OF b] using Suc.IH by auto
  next
    case False
    then show ?thesis by (auto split: sum.split prod.split)
  qed
qed

text \<open>
  C28: The paged retrieval of the log returns, after at most \<open>2\<^sup>3\<^sup>2\<close> pages, whenever every page the
  device sends ends behind the sequence number it was asked to continue from.
\<close>

theorem log_read_all_returns:
  assumes "\<And>k page b. log_read (sv k) page = Inr (Inr b) \<Longrightarrow> page_advances page b"
  shows "\<exists>r. log_read_all (2 ^ 32) sv options = Some r"
proof -
  have "read_pages (2 ^ 32) sv 0 (options\<lparr>lo_max_records := 64\<rparr>) [] \<noteq> None"
    by (rule read_pages_return [OF assms]) simp_all
  then show ?thesis by (simp add: log_read_all_def)
qed

text \<open>A device that keeps sending the same page keeps the loop running forever.\<close>

lemma log_read_all_stuck:
  assumes "\<And>k page. log_read (sv k) page = Inr (Inr b)" "lb_records b \<noteq> []"
    and "\<not> lb_next_seq b \<le> lr_sequence (last (lb_records b)) + 1"
  shows "log_read_all fuel sv options = None"
proof -
  have "read_page sv k page = Inr (Inr b, k + 1)" for k page by (simp add: read_page_def assms(1))
  then have "read_pages fuel sv k page acc = None" for k page acc
    using assms(2,3) by (induction fuel arbitrary: k page acc) (simp_all add: last_sequence_def)
  then show ?thesis by (simp add: log_read_all_def)
qed

section \<open>Completeness of the retrieval\<close>

text \<open>
  A device that holds \<open>recs\<close>, the records in ascending order of their sequence numbers, and answers
  every page with a non-empty beginning of the records behind the requested one, \<open>n\<close> being the number
  its next record will get.
\<close>

definition honest_log :: "log_record list \<Rightarrow> 32 word \<Rightarrow> (nat \<Rightarrow> service_env) \<Rightarrow> bool" where
  "honest_log recs n sv \<longleftrightarrow> sorted_wrt (<) (map lr_sequence recs) \<and>
     (\<forall>r \<in> set recs. 0 < lr_sequence r \<and> lr_sequence r < n \<and> lr_sequence r + 1 \<noteq> 0) \<and>
     (\<forall>k page. \<exists>b m. log_read (sv k) page = Inr (Inr b) \<and> lb_next_seq b = n \<and> 0 < m \<and>
        lb_records b = take m (filter (\<lambda>r. lo_since_sequence page < lr_sequence r) recs))"

lemma split_behind:
  fixes rem :: "log_record list"
  assumes "sorted_wrt (<) (map lr_sequence rem)" "0 < m" "rem \<noteq> []"
  defines "s \<equiv> lr_sequence (last (take m rem))"
  shows "filter (\<lambda>r. s < lr_sequence r) rem = drop m rem"
proof -
  let ?t = "take m rem" and ?d = "drop m rem"
  have ne: "?t \<noteq> []" using assms(2,3) by simp
  have "sorted_wrt (<) (map lr_sequence (?t @ ?d))" using assms(1) by simp
  then have st: "sorted_wrt (<) (map lr_sequence ?t)"
    and lt: "\<forall>a \<in> set ?t. \<forall>b \<in> set ?d. lr_sequence a < lr_sequence b"
    by (auto simp: sorted_wrt_append simp del: append_take_drop_id)
  have "?t = butlast ?t @ [last ?t]" using ne by simp
  then have "sorted_wrt (<) (map lr_sequence (butlast ?t) @ [s])"
    using st by (metis list.simps(8,9) map_append s_def)
  then have "\<forall>a \<in> set (butlast ?t). lr_sequence a < s" by (simp add: sorted_wrt_append)
  then have "\<forall>a \<in> set ?t. \<not> s < lr_sequence a"
    using \<open>?t = butlast ?t @ [last ?t]\<close> by (metis (no_types, lifting) Un_iff dual_order.strict_trans empty_iff
        insert_iff list.set(1,2) order_less_irrefl s_def set_append)
  moreover have "\<forall>b \<in> set ?d. s < lr_sequence b" using lt ne by (simp add: s_def)
  moreover have "filter (\<lambda>r. s < lr_sequence r) rem =
      filter (\<lambda>r. s < lr_sequence r) ?t @ filter (\<lambda>r. s < lr_sequence r) ?d"
    by (metis append_take_drop_id filter_append)
  ultimately show ?thesis by (simp add: filter_empty_conv filter_id_conv)
qed

definition behind :: "32 word \<Rightarrow> log_record list \<Rightarrow> log_record list" where
  "behind s = filter (\<lambda>r. s < lr_sequence r)"

lemma sorted_behind: "sorted_wrt (<) (map lr_sequence recs) \<Longrightarrow> sorted_wrt (<) (map lr_sequence (behind s recs))"
  by (induction recs) (auto simp: behind_def)

lemma behind_step:
  assumes "sorted_wrt (<) (map lr_sequence recs)" "0 < m" "behind s recs \<noteq> []"
  shows "behind (lr_sequence (last (take m (behind s recs)))) recs = drop m (behind s recs)"
proof -
  let ?rem = "behind s recs"
  let ?s = "lr_sequence (last (take m ?rem))"
  have "last (take m ?rem) \<in> set (take m ?rem)" using assms(2,3) by simp
  then have "s < ?s" using in_set_takeD by (fastforce simp: behind_def)
  then have "behind ?s recs = filter (\<lambda>r. ?s < lr_sequence r) ?rem"
    by (auto simp: behind_def intro!: filter_cong)
  then show ?thesis using split_behind [OF sorted_behind [OF assms(1)] assms(2,3)] by simp
qed

lemma behind_end:
  assumes "sorted_wrt (<) (map lr_sequence recs)" "0 < m" "behind s recs \<noteq> []"
    and "\<forall>r \<in> set recs. lr_sequence r < n \<and> lr_sequence r + 1 \<noteq> 0"
    and "n \<le> lr_sequence (last (take m (behind s recs))) + 1"
  shows "drop m (behind s recs) = []"
proof (rule ccontr)
  let ?s = "lr_sequence (last (take m (behind s recs)))"
  assume "drop m (behind s recs) \<noteq> []"
  then obtain r where "r \<in> set (behind ?s recs)" using behind_step [OF assms(1-3)] by (metis list.set_intros(1) neq_Nil_conv)
  then have r: "?s < lr_sequence r" "lr_sequence r < n" using assms(4) by (auto simp: behind_def)
  have "?s + 1 \<le> lr_sequence r" using r(1) by (rule inc_le)
  with assms(5) r(2) show False by simp
qed

lemma read_pages_complete:
  assumes "honest_log recs n sv" "length (behind (lo_since_sequence page) recs) < fuel"
  shows "read_pages fuel sv k page acc = Some (Inr (Inr (acc @ behind (lo_since_sequence page) recs)))"
  using assms(2)
proof (induction fuel arbitrary: k page acc)
  case (Suc fuel)
  let ?rem = "behind (lo_since_sequence page) recs"
  from assms(1) have sorted: "sorted_wrt (<) (map lr_sequence recs)"
    and bounds: "\<forall>r \<in> set recs. lr_sequence r < n \<and> lr_sequence r + 1 \<noteq> 0"
    by (auto simp: honest_log_def)
  from assms(1) obtain b m where b: "log_read (sv k) page = Inr (Inr b)" "lb_next_seq b = n" "0 < m"
    "lb_records b = take m ?rem"
    unfolding honest_log_def behind_def by blast
  have page: "read_page sv k page = Inr (Inr b, k + 1)" by (simp add: read_page_def b(1))
  show ?case
  proof (cases "?rem = []")
    case True
    then show ?thesis unfolding read_pages_Suc [OF page] by (simp add: b(4))
  next
    case False
    let ?s = "lr_sequence (last (take m ?rem))"
    note step = behind_step [OF sorted b(3) False]
    have "length (drop m ?rem) < fuel" using Suc.prems b(3) False by (cases m) (auto simp: neq_Nil_conv)
    then have "length (behind (lo_since_sequence (page\<lparr>lo_since_sequence := ?s\<rparr>)) recs) < fuel" by (simp add: step)
    from Suc.IH [OF this, of "k + 1" "acc @ take m ?rem"]
    have rec: "read_pages fuel sv (k + 1) (page\<lparr>lo_since_sequence := ?s\<rparr>) (acc @ take m ?rem) =
      Some (Inr (Inr (acc @ ?rem)))"
      by (simp add: step)
    have "n \<le> ?s + 1 \<Longrightarrow> take m ?rem = ?rem"
      using behind_end [OF sorted b(3) False bounds] by (metis append.right_neutral append_take_drop_id)
    with rec show ?thesis
      unfolding read_pages_Suc [OF page] using False b(3) by (auto simp: b(2,4))
  qed
qed simp

text \<open>
  C27: From a device that holds its log in order and answers each page with a beginning of what lies
  behind the requested record, however short, the paged retrieval returns after no more pages than
  there are records and one, with exactly the records behind the starting point: none missing, none
  twice, in order.
\<close>

theorem log_read_all_complete:
  assumes "honest_log recs n sv" "length recs < fuel"
  shows "log_read_all fuel sv options =
    Some (Inr (Inr (filter (\<lambda>r. lo_since_sequence options < lr_sequence r) recs)))"
proof -
  have "length (behind (lo_since_sequence options) recs) < fuel"
    using assms(2) by (simp add: behind_def le_less_trans [OF length_filter_le])
  with read_pages_complete [OF assms(1), of "options\<lparr>lo_max_records := 64\<rparr>" fuel 0 "[]"] show ?thesis
    by (simp add: log_read_all_def behind_def)
qed

section \<open>A concrete device\<close>

definition demo_record :: log_record where
  "demo_record = \<lparr>lr_sequence = 7, lr_uptime_ms = 1, lr_event_id = 2, lr_module_id = 3, lr_level = 1,
     lr_args = [5], lr_text = ''x''\<rparr>"

definition demo_log_message :: jobj where
  "demo_log_message = [(''next_seq'', JUInt 8),
     (''records'', JArr [JObj [(''a'', JArr [JInt 5]), (''ev'', JUInt 2), (''lvl'', JInt 1), (''mod'', JInt 3),
        (''s'', JUInt 7), (''t'', JStr ''x''), (''u'', JUInt 1)]])]"

text \<open>A device with one record: it sends it unless it is asked for what lies behind it.\<close>

definition asked_since :: "request_spec \<Rightarrow> nat" where
  "asked_since spec = (case json_find (rs_body spec) ''since_seq'' of Some (JUInt n) \<Rightarrow> n | _ \<Rightarrow> 0)"

definition demo_log_service :: service_env where
  "demo_log_service = \<lparr>sv_runner = Some (Inr ()),
     sv_device = (\<lambda>spec. Inr (if asked_since spec < 7 then demo_log_message else [(''next_seq'', JUInt 8)])),
     sv_now = 0, sv_dump = (\<lambda>j. Inr []), sv_fcast = (\<lambda>f. 0)\<rparr>"

lemma asked_since_log_spec: "asked_since (log_spec t page) = unat (lo_since_sequence page)"
  by (auto simp: asked_since_def log_spec_def Let_def omap_simps word_gt_0)

lemma demo_log_read:
  "log_read demo_log_service page = Inr (Inr \<lparr>lb_boot_id = 0, lb_first_seq_available = 0, lb_next_seq = 8,
     lb_dropped_count = 0, lb_overflow = False, lb_previous_boot_available = False,
     lb_records = filter (\<lambda>r. lo_since_sequence page < lr_sequence r) [demo_record]\<rparr>)"
  by (simp add: log_read_def log_read_typed_def blocking_def demo_log_service_def batch_response_def
      asked_since_log_spec parse_batch_def demo_log_message_def msg_value_def get_json_def parse_record_def
      get_word_def demo_record_def word_less_nat_alt)

lemma demo_honest: "honest_log [demo_record] 8 (\<lambda>_. demo_log_service)"
  unfolding honest_log_def demo_log_read by (simp add: demo_record_def) (metis take_Suc_Cons take_Nil zero_less_Suc)

theorem log_read_all_complete_witness:
  "log_read_all 2 (\<lambda>_. demo_log_service) \<lparr>lo_since_sequence = 0, lo_minimum_level = Log_None, lo_max_records = 128\<rparr> =
    Some (Inr (Inr [demo_record]))"
  using log_read_all_complete [OF demo_honest, of 2] by (simp add: demo_record_def)

theorem log_read_all_returns_witness:
  "\<exists>r. log_read_all (2 ^ 32) (\<lambda>_. demo_log_service)
     \<lparr>lo_since_sequence = 0, lo_minimum_level = Log_None, lo_max_records = 128\<rparr> = Some r"
  by (rule log_read_all_returns) (auto simp: demo_log_read page_advances_def)

end
