(* ===== verification/Canonical.thy ===== *)
theory Canonical
  imports Json
begin

text \<open>
  Canonical JSON serialisation (\<open>protocol/canonical.cpp\<close>), the text the message authentication code
  is computed over. Its lemmas: escaping a string can be undone, and the serialisation of
  values without floating-point numbers determines the value (a number's two integer kinds apart).
\<close>

text \<open>
  What the C library contributes: \<open>fmt_g p v\<close> is \<open>snprintf("%.*g", p, v)\<close>, \<open>strtod\<close> reads a
  number back, \<open>fcast\<close> is the conversion of a double to an integer where C++ does not define it.
\<close>

record numlib =
  fmt_g :: "nat \<Rightarrow> rat \<Rightarrow> string"
  strtod :: "string \<Rightarrow> fp"
  fcast :: "fp \<Rightarrow> int"

definition hex_char :: "nat \<Rightarrow> char" where
  "hex_char d = (if d < 10 then char_of (48 + d) else char_of (87 + d))"

definition escape_char :: "char \<Rightarrow> string" where
  "escape_char c =
    (let n = (of_char c :: nat) in
     if c = CHR 0x22 then [CHR 0x5C, CHR 0x22]
     else if c = CHR 0x5C then [CHR 0x5C, CHR 0x5C]
     else if n = 8 then [CHR 0x5C, CHR ''b'']
     else if n = 9 then [CHR 0x5C, CHR ''t'']
     else if n = 10 then [CHR 0x5C, CHR ''n'']
     else if n = 12 then [CHR 0x5C, CHR ''f'']
     else if n = 13 then [CHR 0x5C, CHR ''r'']
     else if n < 32 then [CHR 0x5C, CHR ''u'', CHR ''0'', CHR ''0'', hex_char (n div 16), hex_char (n mod 16)]
     else [c])"

definition escape_json_string :: "string \<Rightarrow> string" where
  "escape_json_string s = concat (map escape_char s)"

definition canonical_number :: "numlib \<Rightarrow> fp \<Rightarrow> string exec" where
  "canonical_number nl v =
    (case v of
       FFin x \<Rightarrow>
         (if of_int (if 0 \<le> x then \<lfloor>x\<rfloor> else \<lceil>x\<rceil>) = x \<and> - (2 ^ 63) \<le> x \<and> x \<le> 2 ^ 63
          then Inr (int_dec (if x < 2 ^ 63 then (if 0 \<le> x then \<lfloor>x\<rfloor> else \<lceil>x\<rceil>) else fcast nl v))
          else if feq (strtod nl (fmt_g nl 15 x)) v then Inr (fmt_g nl 15 x)
          else if feq (strtod nl (fmt_g nl 16 x)) v then Inr (fmt_g nl 16 x)
          else Inr (fmt_g nl 17 x))
     | _ \<Rightarrow> Inl (Runtime_error ''canonical JSON: non-finite number''))"

fun join_comma :: "string list \<Rightarrow> string" where
  "join_comma [] = []"
| "join_comma [s] = s"
| "join_comma (s # t # ts) = s @ CHR '','' # join_comma (t # ts)"

definition quoted :: "string \<Rightarrow> string" where
  "quoted s = CHR 0x22 # escape_json_string s @ [CHR 0x22]"

fun canonical_serialize :: "numlib \<Rightarrow> json \<Rightarrow> string exec" where
  "canonical_serialize nl JNull = Inr ''null''"
| "canonical_serialize nl (JBool b) = Inr (if b then ''true'' else ''false'')"
| "canonical_serialize nl (JInt i) = Inr (int_dec i)"
| "canonical_serialize nl (JUInt n) = Inr (nat_dec n)"
| "canonical_serialize nl (JFloat f) = canonical_number nl f"
| "canonical_serialize nl (JStr s) = Inr (quoted s)"
| "canonical_serialize nl (JArr xs) =
     bindE (mapE (canonical_serialize nl) xs) (\<lambda>ss. Inr (CHR ''['' # join_comma ss @ [CHR '']'']))"
| "canonical_serialize nl (JObj m) =
     bindE (mapE (\<lambda>kv. bindE (canonical_serialize nl (snd kv)) (\<lambda>s. Inr (quoted (fst kv) @ CHR '':'' # s))) m)
       (\<lambda>ss. Inr (CHR ''{'' # join_comma ss @ [CHR ''}'']))"
| "canonical_serialize nl (JBinary b) = Inl (Runtime_error ''canonical JSON: unsupported value type'')"
| "canonical_serialize nl JDiscarded = Inl (Runtime_error ''canonical JSON: unsupported value type'')"

section \<open>Escaping can be undone\<close>

definition hex_digit_val :: "char \<Rightarrow> nat" where
  "hex_digit_val c = (let n = of_char c in if n < 58 then n - 48 else n - 87)"

text \<open>Reads one escaped character off the front of a text.\<close>

fun unescape_char :: "string \<Rightarrow> (char \<times> string) option" where
  "unescape_char [] = None"
| "unescape_char (c # r) =
    (if c \<noteq> CHR 0x5C then Some (c, r)
     else (case r of
        [] \<Rightarrow> None
      | d # r' \<Rightarrow>
         (if d = CHR ''u'' then
            (case r' of _ # _ # h # l # r'' \<Rightarrow> Some (char_of (16 * hex_digit_val h + hex_digit_val l), r'')
                      | _ \<Rightarrow> None)
          else if d = CHR ''b'' then Some (char_of (8::nat), r')
          else if d = CHR ''t'' then Some (char_of (9::nat), r')
          else if d = CHR ''n'' then Some (char_of (10::nat), r')
          else if d = CHR ''f'' then Some (char_of (12::nat), r')
          else if d = CHR ''r'' then Some (char_of (13::nat), r')
          else Some (d, r'))))"

lemma unescape_control: "n < 32 \<Longrightarrow> unescape_char (escape_char (char_of n) @ r) = Some (char_of (n::nat), r)"
proof -
  assume "n < 32"
  then have "n \<in> set [0..<32]" by simp
  moreover have "list_all (\<lambda>n. unescape_char (escape_char (char_of n) @ r) = Some (char_of (n::nat), r)) [0..<32]"
    by (simp add: upt_rec escape_char_def hex_char_def hex_digit_val_def)
  ultimately show ?thesis by (simp only: list_all_iff)
qed

lemma unescape_escape_char: "unescape_char (escape_char c @ r) = Some (c, r)"
proof (cases "(of_char c :: nat) < 32")
  case True
  then show ?thesis
    using unescape_control [of "of_char c" r] by simp
next
  case False
  then show ?thesis by (auto simp: escape_char_def Let_def)
qed

lemma escape_char_prefix_free: "escape_char c @ r = escape_char d @ s \<Longrightarrow> c = d \<and> r = s"
  by (metis unescape_escape_char option.inject prod.inject)

lemma escape_char_not_quote: "escape_char c @ r \<noteq> CHR 0x22 # s" "CHR 0x22 # s \<noteq> escape_char c @ r"
  by (auto simp: escape_char_def Let_def split: if_splits)

text \<open>A quoted string is self-delimiting: what follows it can be told apart from it.\<close>

lemma escape_quote_inject:
  "escape_json_string s @ CHR 0x22 # r = escape_json_string t @ CHR 0x22 # r' \<longleftrightarrow> s = t \<and> r = r'"
proof (induction s arbitrary: t)
  case Nil
  show ?case
    by (cases t) (simp_all add: escape_json_string_def escape_char_not_quote)
next
  case (Cons c s)
  show ?case
  proof (cases t)
    case Nil
    then show ?thesis by (simp add: escape_json_string_def escape_char_not_quote)
  next
    case t: (Cons d t')
    show ?thesis
    proof
      assume "escape_json_string (c # s) @ CHR 0x22 # r = escape_json_string t @ CHR 0x22 # r'"
      then have "c = d \<and> escape_json_string s @ CHR 0x22 # r = escape_json_string t' @ CHR 0x22 # r'"
        by (intro escape_char_prefix_free) (simp add: escape_json_string_def t)
      with Cons.IH [of t'] t show "c # s = t \<and> r = r'" by simp
    qed simp
  qed
qed

lemma quoted_inject: "quoted s @ r = quoted t @ r' \<longleftrightarrow> s = t \<and> r = r'"
  using escape_quote_inject [of s r t r'] by (simp add: quoted_def)

section \<open>The serialisation determines the value\<close>

text \<open>The values that carry no floating-point number; the two integer kinds print alike.\<close>

fun int_json :: "json \<Rightarrow> bool" where
  "int_json (JFloat f) = False"
| "int_json (JArr xs) = (\<forall>x \<in> set xs. int_json x)"
| "int_json (JObj m) = (\<forall>x \<in> snd ` set m. int_json x)"
| "int_json _ = True"

fun norm_int :: "json \<Rightarrow> json" where
  "norm_int (JUInt n) = JInt (int n)"
| "norm_int (JArr xs) = JArr (map norm_int xs)"
| "norm_int (JObj m) = JObj (map (map_prod id norm_int) m)"
| "norm_int v = v"

definition closing :: "char \<Rightarrow> bool" where
  "closing c \<longleftrightarrow> c = CHR '','' \<or> c = CHR '']'' \<or> c = CHR ''}''"

definition delim :: "string \<Rightarrow> bool" where
  "delim r \<longleftrightarrow> r = [] \<or> closing (hd r)"

text \<open>
  An encoder whose outputs can be told apart also when text that starts with a closing
  character follows. The comma-separated sequences of the serialisation preserve this.
\<close>

locale delimited_encoding =
  fixes enc :: "'a \<Rightarrow> string exec" and nf :: "'a \<Rightarrow> 'b" and A :: "'a \<Rightarrow> bool"
  assumes enc_start: "A x \<Longrightarrow> enc x = Inr s \<Longrightarrow> s \<noteq> [] \<and> \<not> closing (hd s)"
    and enc_inject: "A x \<Longrightarrow> A y \<Longrightarrow> enc x = Inr s \<Longrightarrow> enc y = Inr t \<Longrightarrow> s @ r = t @ r' \<Longrightarrow>
      delim r \<Longrightarrow> delim r' \<Longrightarrow> nf x = nf y \<and> r = r'"
begin

lemma join_start:
  assumes "mapE enc (x # xs) = Inr ss" and "A x"
  shows "join_comma ss \<noteq> [] \<and> \<not> closing (hd (join_comma ss))"
proof -
  obtain s ss' where "ss = s # ss'" and "enc x = Inr s"
    using assms by (auto simp: exec_simps)
  then show ?thesis
    using enc_start [of x s] assms(2) by (cases ss') auto
qed

lemma join_inject:
  assumes "mapE enc xs = Inr ss" and "mapE enc ys = Inr ts"
    and "\<forall>x \<in> set xs. A x" and "\<forall>y \<in> set ys. A y"
    and "join_comma ss @ c # r = join_comma ts @ c # r'" and "c = CHR '']'' \<or> c = CHR ''}''"
  shows "map nf xs = map nf ys \<and> r = r'"
  using assms
proof (induction xs arbitrary: ys ss ts)
  case Nil
  then have ss: "ss = []" by simp
  show ?case
  proof (cases ys)
    case (Cons y ys')
    with Nil join_start [of y ys' ts] have "join_comma ts \<noteq> [] \<and> \<not> closing (hd (join_comma ts))"
      by simp
    moreover have "closing c" using Nil.prems(6) by (auto simp: closing_def)
    ultimately show ?thesis
      using Nil.prems(5) ss by (cases "join_comma ts") auto
  qed (use Nil ss in auto)
next
  case (Cons x xs)
  from Cons.prems(1) obtain s ss' where s: "enc x = Inr s" "mapE enc xs = Inr ss'" "ss = s # ss'"
    by (auto simp: exec_simps)
  have cl: "closing c" using Cons.prems(6) by (auto simp: closing_def)
  show ?case
  proof (cases ys)
    case Nil
    with Cons.prems join_start [of x xs ss] cl show ?thesis
      by (cases "join_comma ss") auto
  next
    case ys: (Cons y ys')
    with Cons.prems(2) obtain t ts' where t: "enc y = Inr t" "mapE enc ys' = Inr ts'" "ts = t # ts'"
      by (auto simp: exec_simps)
    define u where "u = (if ss' = [] then c # r else CHR '','' # join_comma ss' @ c # r)"
    define w where "w = (if ts' = [] then c # r' else CHR '','' # join_comma ts' @ c # r')"
    have "s @ u = t @ w"
      using Cons.prems(5) s t by (cases ss'; cases ts') (auto simp: u_def w_def)
    moreover have "delim u" "delim w"
      using cl by (auto simp: u_def w_def delim_def closing_def)
    moreover have "A x" "A y" using Cons.prems(3,4) ys by auto
    ultimately have xy: "nf x = nf y" and uw: "u = w"
      using enc_inject [OF _ _ s(1) t(1), of u w] by auto
    have len: "ss' = [] \<longleftrightarrow> xs = []" "ts' = [] \<longleftrightarrow> ys' = []"
      using s(2) t(2) by (auto simp: mapE_Inr_iff)
    have sep: "c \<noteq> CHR '',''" using Cons.prems(6) by auto
    show ?thesis
    proof (cases "ss' = []")
      case True
      with uw sep have "ts' = []" "r = r'" by (auto simp: u_def w_def split: if_splits)
      with True len xy ys show ?thesis by simp
    next
      case False
      with uw sep have "ts' \<noteq> []" and eq: "join_comma ss' @ c # r = join_comma ts' @ c # r'"
        by (auto simp: u_def w_def split: if_splits)
      have "map nf xs = map nf ys' \<and> r = r'"
        using Cons.IH [OF s(2) t(2) _ _ eq Cons.prems(6)] Cons.prems(3,4) ys by auto
      with xy ys show ?thesis by simp
    qed
  qed
qed

end

lemma int_dec_start: "\<not> closing (hd (int_dec i))"
proof -
  have "hd (int_dec i) \<in> set (int_dec i)" by (rule hd_in_set) simp
  from int_dec_chars [OF this] show ?thesis
    by (auto simp: closing_def is_digit_def)
qed

lemma nat_dec_int_dec: "nat_dec n = int_dec (int n)"
  by (simp add: int_dec_def)

lemma int_dec_delim_inject:
  assumes "int_dec i @ r = int_dec j @ r'" and "delim r" and "delim r'"
  shows "i = j \<and> r = r'"
proof -
  define P where "P c \<longleftrightarrow> is_digit c \<or> c = CHR ''-''" for c
  have "r = [] \<or> \<not> P (hd r)" and "r' = [] \<or> \<not> P (hd r')"
    using assms(2,3) by (auto simp: delim_def closing_def P_def is_digit_def)
  moreover have "\<forall>c \<in> set (int_dec i). P c" and "\<forall>c \<in> set (int_dec j). P c"
    using int_dec_chars by (auto simp: P_def)
  ultimately have "int_dec i = int_dec j \<and> r = r'"
    using append_delim_inject [OF assms(1)] by blast
  then show ?thesis by simp
qed

lemma int_dec_neq_Cons:
  assumes "\<not> is_digit c" and "c \<noteq> CHR ''-''"
  shows "int_dec i @ r \<noteq> c # z" and "c # z \<noteq> int_dec i @ r"
proof -
  have "hd (int_dec i) \<in> set (int_dec i)" by (rule hd_in_set) simp
  from int_dec_chars [OF this] assms show "int_dec i @ r \<noteq> c # z"
    by (cases "int_dec i") auto
  then show "c # z \<noteq> int_dec i @ r" by metis
qed

lemma not_closing_start [simp]:
  "\<not> closing CHR ''n''" "\<not> closing CHR ''t''" "\<not> closing CHR ''f''" "\<not> closing CHR 0x22"
  "\<not> closing CHR ''[''" "\<not> closing CHR ''{''"
  by (simp_all add: closing_def)

lemma canonical_start:
  "int_json v \<Longrightarrow> canonical_serialize nl v = Inr s \<Longrightarrow> s \<noteq> [] \<and> \<not> closing (hd s)"
  by (cases v) (auto simp: exec_simps quoted_def nat_dec_int_dec int_dec_start simp del: nat_dec_not_Nil
      split: if_splits)

text \<open>A member is its quoted key, a colon, and its value.\<close>

lemma member_encoding:
  assumes "delimited_encoding enc nf A"
  shows "delimited_encoding (\<lambda>kv. bindE (enc (snd kv)) (\<lambda>s. Inr (quoted (fst kv) @ CHR '':'' # s)))
    (map_prod id nf) (\<lambda>kv. A (snd kv))"
proof unfold_locales
  fix x :: "string \<times> 'a" and s
  assume "bindE (enc (snd x)) (\<lambda>s. Inr (quoted (fst x) @ CHR '':'' # s)) = Inr s"
  then show "s \<noteq> [] \<and> \<not> closing (hd s)"
    by (auto simp: exec_simps quoted_def closing_def)
next
  fix x y :: "string \<times> 'a" and s t r r'
  assume A: "A (snd x)" "A (snd y)"
    and s: "bindE (enc (snd x)) (\<lambda>s. Inr (quoted (fst x) @ CHR '':'' # s)) = Inr s"
    and t: "bindE (enc (snd y)) (\<lambda>s. Inr (quoted (fst y) @ CHR '':'' # s)) = Inr t"
    and eq: "s @ r = t @ r'" and d: "delim r" "delim r'"
  from s t obtain s' t' where st: "enc (snd x) = Inr s'" "s = quoted (fst x) @ CHR '':'' # s'"
      "enc (snd y) = Inr t'" "t = quoted (fst y) @ CHR '':'' # t'"
    by (auto simp: exec_simps)
  with eq have key: "fst x = fst y" and "s' @ r = t' @ r'"
    by (simp_all add: quoted_inject)
  from delimited_encoding.enc_inject [OF assms A st(1,3) this(2) d] key
  show "map_prod id nf x = map_prod id nf y \<and> r = r'"
    by (simp add: prod_eq_iff)
qed

lemma size_member_less: "kv \<in> set m \<Longrightarrow> size (snd kv) < size (JObj m)"
  by (induction m) auto

lemma size_element_less: "x \<in> set xs \<Longrightarrow> size x < size (JArr xs)"
  by (induction xs) auto

lemma canonical_inject_arr:
  assumes enc: "delimited_encoding (canonical_serialize nl) norm_int (\<lambda>v. int_json v \<and> size v < n)"
    and "int_json (JArr xs)" "int_json (JArr ys)" and "size (JArr xs) \<le> n" "size (JArr ys) \<le> n"
    and s: "canonical_serialize nl (JArr xs) = Inr s" and t: "canonical_serialize nl (JArr ys) = Inr t"
    and eq: "s @ r = t @ r'"
  shows "norm_int (JArr xs) = norm_int (JArr ys) \<and> r = r'"
proof -
  from s t obtain ss ts where st: "mapE (canonical_serialize nl) xs = Inr ss"
      "mapE (canonical_serialize nl) ys = Inr ts" "s = CHR ''['' # join_comma ss @ [CHR '']'']"
      "t = CHR ''['' # join_comma ts @ [CHR '']'']"
    by (auto simp: exec_simps)
  have "\<forall>x \<in> set xs. int_json x \<and> size x < n" "\<forall>y \<in> set ys. int_json y \<and> size y < n"
    using assms(2-5) by (auto dest: size_element_less)
  from delimited_encoding.join_inject [OF enc st(1,2) this, of "CHR '']''" r r'] eq st(3,4)
  show ?thesis by simp
qed

lemma canonical_inject_obj:
  assumes enc: "delimited_encoding (canonical_serialize nl) norm_int (\<lambda>v. int_json v \<and> size v < n)"
    and "int_json (JObj xs)" "int_json (JObj ys)" and "size (JObj xs) \<le> n" "size (JObj ys) \<le> n"
    and s: "canonical_serialize nl (JObj xs) = Inr s" and t: "canonical_serialize nl (JObj ys) = Inr t"
    and eq: "s @ r = t @ r'"
  shows "norm_int (JObj xs) = norm_int (JObj ys) \<and> r = r'"
proof -
  let ?f = "\<lambda>kv. bindE (canonical_serialize nl (snd kv)) (\<lambda>s. Inr (quoted (fst kv) @ CHR '':'' # s))"
  from s t obtain ss ts where st: "mapE ?f xs = Inr ss" "mapE ?f ys = Inr ts"
      "s = CHR ''{'' # join_comma ss @ [CHR ''}'']" "t = CHR ''{'' # join_comma ts @ [CHR ''}'']"
    by (auto simp: exec_simps)
  have "\<forall>x \<in> set xs. int_json (snd x) \<and> size (snd x) < n"
    "\<forall>y \<in> set ys. int_json (snd y) \<and> size (snd y) < n"
    using assms(2-5) by (force dest: size_member_less)+
  from delimited_encoding.join_inject [OF member_encoding [OF enc] st(1,2) this, of "CHR ''}''" r r']
    eq st(3,4)
  show ?thesis by simp
qed

lemma canonical_delimited:
  "delimited_encoding (canonical_serialize nl) norm_int (\<lambda>v. int_json v \<and> size v < n)"
proof (induction n)
  case 0
  show ?case by unfold_locales auto
next
  case (Suc n)
  show ?case
  proof unfold_locales
    fix v s
    assume "int_json v \<and> size v < Suc n" and "canonical_serialize nl v = Inr s"
    then show "s \<noteq> [] \<and> \<not> closing (hd s)" using canonical_start by blast
  next
    fix v w s t r r'
    assume v: "int_json v \<and> size v < Suc n" and w: "int_json w \<and> size w < Suc n"
      and s: "canonical_serialize nl v = Inr s" and t: "canonical_serialize nl w = Inr t"
      and eq: "s @ r = t @ r'" and d: "delim r" "delim r'"
    consider (arr) xs ys where "v = JArr xs" "w = JArr ys" | (obj) xs ys where "v = JObj xs" "w = JObj ys"
      | (num) i j where "norm_int v = JInt i" "norm_int w = JInt j"
      | (other) "\<not> (\<exists>xs ys. v = JArr xs \<and> w = JArr ys)" "\<not> (\<exists>xs ys. v = JObj xs \<and> w = JObj ys)"
        "\<not> (\<exists>i j. norm_int v = JInt i \<and> norm_int w = JInt j)"
      by blast
    then show "norm_int v = norm_int w \<and> r = r'"
    proof cases
      case arr
      with canonical_inject_arr [OF Suc, of xs ys s t r r'] v w s t eq show ?thesis by simp
    next
      case obj
      with canonical_inject_obj [OF Suc, of xs ys s t r r'] v w s t eq show ?thesis by simp
    next
      case num
      with s t have "s = int_dec i" "t = int_dec j"
        by (cases v; cases w; auto simp: nat_dec_int_dec)+
      with int_dec_delim_inject [OF _ d, of i j] eq num show ?thesis by simp
    next
      case other
      with v w s t eq show ?thesis
        by (cases v; cases w)
          (auto simp: exec_simps nat_dec_int_dec quoted_def int_dec_neq_Cons is_digit_def escape_quote_inject
            split: if_splits)
    qed
  qed
qed

interpretation canon: delimited_encoding "canonical_serialize nl" norm_int int_json for nl
proof unfold_locales
  fix v w s t r r'
  assume "int_json v" "int_json w" and st: "canonical_serialize nl v = Inr s" "canonical_serialize nl w = Inr t"
    and eq: "s @ r = t @ r'" "delim r" "delim r'"
  then have "int_json v \<and> size v < Suc (size v + size w)" "int_json w \<and> size w < Suc (size v + size w)"
    by auto
  from delimited_encoding.enc_inject [OF canonical_delimited this st eq]
  show "norm_int v = norm_int w \<and> r = r'" .
qed (use canonical_start in blast)

text \<open>Equal texts come from equal values.\<close>

lemma canonical_serialize_inject:
  assumes "int_json v" and "int_json w"
    and "canonical_serialize nl v = Inr s" and "canonical_serialize nl w = Inr s"
  shows "norm_int v = norm_int w"
  using canon.enc_inject [OF assms, of "[]" "[]"] by (simp add: delim_def)

text \<open>Serialisation fails only on values a text frame cannot contain or on non-finite numbers.\<close>

fun serializable :: "json \<Rightarrow> bool" where
  "serializable (JFloat f) = (case f of FFin x \<Rightarrow> True | _ \<Rightarrow> False)"
| "serializable (JArr xs) = (\<forall>x \<in> set xs. serializable x)"
| "serializable (JObj m) = (\<forall>x \<in> snd ` set m. serializable x)"
| "serializable (JBinary b) = False"
| "serializable JDiscarded = False"
| "serializable _ = True"

lemma mapE_ex_total:
  "(\<And>x. x \<in> set xs \<Longrightarrow> \<exists>y. f x = Inr y) \<Longrightarrow> \<exists>ys. mapE f xs = Inr ys"
  using mapE_total [of xs f "\<lambda>x. projr (f x)"] by force

lemma canonical_serialize_total: "serializable v \<Longrightarrow> \<exists>s. canonical_serialize nl v = Inr s"
proof (induction nl v rule: canonical_serialize.induct)
  case (5 nl f)
  then show ?case by (auto simp: canonical_number_def split: fp.splits)
next
  case (7 nl xs)
  then have "\<exists>ss. mapE (canonical_serialize nl) xs = Inr ss" by (intro mapE_ex_total) auto
  then show ?case by auto
next
  case (8 nl m)
  have "\<exists>ss. mapE (\<lambda>kv. bindE (canonical_serialize nl (snd kv)) (\<lambda>s. Inr (quoted (fst kv) @ CHR '':'' # s))) m = Inr ss"
  proof (rule mapE_ex_total)
    fix kv
    assume "kv \<in> set m"
    with 8 obtain s where "canonical_serialize nl (snd kv) = Inr s" by fastforce
    then show "\<exists>y. bindE (canonical_serialize nl (snd kv)) (\<lambda>s. Inr (quoted (fst kv) @ CHR '':'' # s)) = Inr y"
      by simp
  qed
  then show ?case by auto
qed auto

section \<open>Properties\<close>

text \<open>
  C17: Every value without non-finite numbers and binary data has a canonical text, and two values
  without floating-point numbers that have the same canonical text are equal up to the kind of
  their integers: the text that is hashed determines the value.
\<close>

theorem canonical_text_faithful:
  "(serializable v \<longrightarrow> (\<exists>s. canonical_serialize nl v = Inr s)) \<and>
   (int_json v \<and> int_json w \<and> canonical_serialize nl v = Inr s \<and> canonical_serialize nl w = Inr s
      \<longrightarrow> norm_int v = norm_int w)"
  using canonical_serialize_total canonical_serialize_inject by blast

theorem canonical_text_faithful_witness:
  "(\<exists>s. canonical_serialize \<lparr>fmt_g = (\<lambda>n x. []), strtod = (\<lambda>s. FNaN), fcast = (\<lambda>f. 0)\<rparr>
      (JObj [(''a'', JArr [JInt 1, JNull])]) = Inr s) \<and>
   norm_int (JObj [(''a'', JInt 1)]) = norm_int (JObj [(''a'', JUInt 1)])"
proof
  let ?nl = "\<lparr>fmt_g = (\<lambda>n x. []), strtod = (\<lambda>s. FNaN), fcast = (\<lambda>f. 0)\<rparr>"
  show "\<exists>s. canonical_serialize ?nl (JObj [(''a'', JArr [JInt 1, JNull])]) = Inr s"
    using canonical_text_faithful [of "JObj [(''a'', JArr [JInt 1, JNull])]" ?nl] by simp
  have "canonical_serialize ?nl (JObj [(''a'', JUInt 1)]) = canonical_serialize ?nl (JObj [(''a'', JInt 1)])"
    by (simp add: int_dec_def)
  then show "norm_int (JObj [(''a'', JInt 1)]) = norm_int (JObj [(''a'', JUInt 1)])"
    using canonical_text_faithful [of "JObj [(''a'', JInt 1)]" ?nl "JObj [(''a'', JUInt 1)]"] by simp
qed

end
