(* ===== verification/Auth.thy ===== *)
theory Auth
  imports Messages Canonical
begin

unbundle bit_operations_syntax

text \<open>
  Message authentication (\<open>protocol/auth.cpp\<close>, \<open>protocol/auth.hpp\<close>): the canonical body, the
  authenticated input of thirteen fields, signing, verification, the replay counter and the key file.
  SHA-256, HMAC-SHA-256 and the base64 encoder are OpenSSL's and parameters here (\<open>crypto\<close>).
  A message is the ordered map of its members.
\<close>

record crypto =
  sha256 :: "string \<Rightarrow> 8 word list"
  hmac_sha256 :: "8 word list \<Rightarrow> string \<Rightarrow> 8 word list"
  encode_block :: "8 word list \<Rightarrow> string"

record auth_context =
  ac_key :: "8 word list"
  ac_kid :: string
  ac_device_id :: string
  ac_server_nonce :: string
  ac_client_nonce :: string

definition kUnitSeparator :: char where
  "kUnitSeparator = CHR 0x1F"

definition field_string :: "numlib \<Rightarrow> jobj \<Rightarrow> string \<Rightarrow> string exec" where
  "field_string nl msg k =
    (case map_of msg k of
       None \<Rightarrow> Inr []
     | Some v \<Rightarrow>
        (if v = JNull then Inr []
         else if is_string v then get_string v
         else if is_number_integer v then bindE (get_i64 (fcast nl) v) (\<lambda>i. Inr (int_dec i))
         else if is_number_unsigned v then (case v of JUInt n \<Rightarrow> Inr (nat_dec n) | _ \<Rightarrow> Inr [])
         else canonical_serialize nl v))"

definition canonical_body :: "jobj \<Rightarrow> jobj" where
  "canonical_body msg = put_all (filter (\<lambda>kv. fst kv \<notin> set kEnvelopeFields) msg) []"

definition hex_byte :: "8 word \<Rightarrow> string" where
  "hex_byte b = [hex_char (unat (drop_bit 4 b)), hex_char (unat (b AND 0x0f))]"

definition body_hash_hex :: "numlib \<Rightarrow> crypto \<Rightarrow> jobj \<Rightarrow> string exec" where
  "body_hash_hex nl cr msg =
     bindE (canonical_serialize nl (JObj (canonical_body msg)))
       (\<lambda>canon. Inr (concat (map hex_byte (sha256 cr canon))))"

fun join_with :: "char \<Rightarrow> string list \<Rightarrow> string" where
  "join_with c [] = []"
| "join_with c [s] = s"
| "join_with c (s # t # ts) = s @ c # join_with c (t # ts)"

definition direction_string :: "direction \<Rightarrow> string" where
  "direction_string d = (if d = C2s then ''c2s'' else ''s2c'')"

definition mac_fields ::
  "numlib \<Rightarrow> crypto \<Rightarrow> jobj \<Rightarrow> auth_context \<Rightarrow> direction \<Rightarrow> string \<Rightarrow> int \<Rightarrow> string list exec" where
  "mac_fields nl cr msg ctx dir kid seq =
     bindE (field_string nl msg ''v'') (\<lambda>v.
     bindE (field_string nl msg ''type'') (\<lambda>ty.
     bindE (field_string nl msg ''serial'') (\<lambda>serial.
     bindE (field_string nl msg ''ts'') (\<lambda>ts.
     bindE (field_string nl msg ''msg_id'') (\<lambda>msg_id.
     bindE (field_string nl msg ''in_reply_to'') (\<lambda>in_reply_to.
     bindE (body_hash_hex nl cr msg) (\<lambda>bhash.
       Inr [v, ty, direction_string dir, ac_device_id ctx, serial, ts, msg_id, in_reply_to,
            kid, int_dec seq, ac_server_nonce ctx, ac_client_nonce ctx, bhash])))))))"

definition mac_input ::
  "numlib \<Rightarrow> crypto \<Rightarrow> jobj \<Rightarrow> auth_context \<Rightarrow> direction \<Rightarrow> string \<Rightarrow> int \<Rightarrow> string exec" where
  "mac_input nl cr msg ctx dir kid seq =
     bindE (mac_fields nl cr msg ctx dir kid seq) (\<lambda>fields. Inr (join_with kUnitSeparator fields))"

definition compute_mac :: "crypto \<Rightarrow> 8 word list \<Rightarrow> string \<Rightarrow> string" where
  "compute_mac cr key raw = encode_block cr (take 16 (hmac_sha256 cr key raw))"

definition sign :: "numlib \<Rightarrow> crypto \<Rightarrow> jobj \<Rightarrow> auth_context \<Rightarrow> int \<Rightarrow> direction \<Rightarrow> jobj exec" where
  "sign nl cr msg ctx seq dir =
     bindE (mac_input nl cr msg ctx dir (ac_kid ctx) seq) (\<lambda>raw.
       Inr (omap_put ''auth''
              (JObj (put_all [(''kid'', JStr (ac_kid ctx)), (''seq'', JInt seq),
                              (''mac'', JStr (compute_mac cr (ac_key ctx) raw))] [])) msg))"

type_synonym verify_result = "bool \<times> string"

definition verify :: "numlib \<Rightarrow> crypto \<Rightarrow> jobj \<Rightarrow> auth_context \<Rightarrow> direction \<Rightarrow> verify_result exec" where
  "verify nl cr msg ctx dir =
    (case map_of msg ''auth'' of
       Some (JObj auth) \<Rightarrow>
         bindE (msg_value get_string auth ''kid'' []) (\<lambda>kid.
         if kid \<noteq> ac_kid ctx then Inr (False, ''kid_mismatch'')
         else (case map_of auth ''seq'' of
                 None \<Rightarrow> Inr (False, ''bad_seq'')
               | Some seqv \<Rightarrow>
                  (if \<not> is_number_integer seqv then Inr (False, ''bad_seq'')
                   else bindE (get_i64 (fcast nl) seqv) (\<lambda>seq.
                     bindE (mac_input nl cr msg ctx dir kid seq) (\<lambda>raw.
                     bindE (msg_value get_string auth ''mac'' []) (\<lambda>given.
                       if compute_mac cr (ac_key ctx) raw \<noteq> given then Inr (False, ''mac_mismatch'')
                       else Inr (True, ''ok'')))))))
     | _ \<Rightarrow> Inr (False, ''missing_auth''))"

section \<open>Replay counter\<close>

text \<open>\<open>AntiReplay\<close>: its state is the last accepted number, initially 0.\<close>

definition replay_check :: "int \<Rightarrow> int \<Rightarrow> bool \<times> int" where
  "replay_check prev seq = (if seq \<le> prev then (False, prev) else (True, seq))"

fun replay_run :: "int \<Rightarrow> int list \<Rightarrow> int list" where
  "replay_run prev [] = []"
| "replay_run prev (s # ss) =
     (case replay_check prev s of (True, l) \<Rightarrow> s # replay_run l ss | (False, l) \<Rightarrow> replay_run l ss)"

section \<open>Key file\<close>

definition nibble :: "char \<Rightarrow> nat option" where
  "nibble c = (let n = (of_char c :: nat) in
     if 48 \<le> n \<and> n \<le> 57 then Some (n - 48)
     else if 97 \<le> n \<and> n \<le> 102 then Some (n - 97 + 10)
     else if 65 \<le> n \<and> n \<le> 70 then Some (n - 65 + 10)
     else None)"

definition byte_of_nibbles :: "nat \<Rightarrow> nat \<Rightarrow> 8 word" where
  "byte_of_nibbles h l = push_bit 4 (of_nat h) OR of_nat l"

fun hex_bytes :: "string \<Rightarrow> 8 word list option" where
  "hex_bytes (h # l # r) =
     (case (nibble h, nibble l, hex_bytes r) of
        (Some a, Some b, Some bs) \<Rightarrow> Some (byte_of_nibbles a b # bs) | _ \<Rightarrow> None)"
| "hex_bytes _ = Some []"

text \<open>\<open>content\<close> is what the stream yields, \<open>None\<close> when the file cannot be opened.\<close>

definition load_hmac_key_file :: "string \<Rightarrow> string option \<Rightarrow> 8 word list exec" where
  "load_hmac_key_file path content =
    (case content of
       None \<Rightarrow> Inl (Runtime_error (''fountain.hmac_key_file: cannot open '' @ path))
     | Some text \<Rightarrow>
        (let hex = filter (\<lambda>c. \<not> isspace c) text in
         if length hex \<noteq> 64
         then Inl (Runtime_error (''fountain.hmac_key_file: expected 64 hex chars in '' @ path))
         else (case hex_bytes hex of
                 None \<Rightarrow> Inl (Runtime_error (''fountain.hmac_key_file: invalid hex in '' @ path))
               | Some key \<Rightarrow> Inr key)))"

section \<open>What is authenticated\<close>

lemma map_of_canonical_body:
  assumes "omap_ok msg"
  shows "map_of (canonical_body msg) k = (if k \<in> set kEnvelopeFields then None else map_of msg k)"
proof -
  have "distinct (map fst (filter (\<lambda>kv. fst kv \<notin> set kEnvelopeFields) msg))"
    using omap_ok_distinct [OF assms] by (rule distinct_map_filter)
  then have "map_of (canonical_body msg) k =
      map_of (filter (\<lambda>kv. fst kv \<notin> set kEnvelopeFields) msg) k"
    by (simp add: canonical_body_def map_of_put_all split: option.splits)
  also have "\<dots> = (if k \<in> set kEnvelopeFields then None else map_of msg k)"
    by (induction msg) auto
  finally show ?thesis .
qed

lemma filter_omap_put:
  assumes "\<not> P k"
  shows "filter (\<lambda>kv. P (fst kv)) (omap_put k v m) = filter (\<lambda>kv. P (fst kv)) m"
  using assms by (induction k v m rule: omap_put.induct) auto

lemma canonical_body_put_envelope:
  "k \<in> set kEnvelopeFields \<Longrightarrow> canonical_body (omap_put k v m) = canonical_body m"
  using filter_omap_put [of "\<lambda>k. k \<notin> set kEnvelopeFields" k v m] by (simp add: canonical_body_def)

text \<open>The canonical body of a built message is the body it was built from.\<close>

lemma canonical_body_build_message:
  assumes "build_message name (JObj body) i r ts wall = Inr msg" and "omap_ok body"
    and "\<forall>k \<in> fst ` set body. k \<notin> set kEnvelopeFields"
  shows "canonical_body msg = body" and "omap_ok msg"
    and "k \<in> set kEnvelopeFields \<Longrightarrow> \<exists>meta. find_meta name = Some meta \<and>
      map_of msg k = map_of (envelope meta name i r ts wall) k"
proof -
  from assms(1) obtain meta where meta: "find_meta name = Some meta"
    and msg: "msg = put_all body (envelope meta name i r ts wall)"
    by (auto simp: build_message_Inr)
  show ok: "omap_ok msg" by (simp add: msg put_all_ok envelope_ok)
  have look: "map_of msg k = (case map_of body k of None \<Rightarrow> map_of (envelope meta name i r ts wall) k | Some v \<Rightarrow> Some v)"
    for k
    unfolding msg by (rule map_of_put_all) (rule omap_ok_distinct [OF assms(2)])
  have notin: "map_of body k = None" if "k \<in> set kEnvelopeFields" for k
    using that assms(3) by (auto simp: map_of_eq_None_iff)
  show "\<exists>meta. find_meta name = Some meta \<and> map_of msg k = map_of (envelope meta name i r ts wall) k"
    if "k \<in> set kEnvelopeFields"
    using notin [OF that] meta by (simp add: look)
  show "canonical_body msg = body"
  proof (rule omap_ext)
    show "map_of (canonical_body msg) = map_of body"
    proof
      fix k
      show "map_of (canonical_body msg) k = map_of body k"
        using envelope_keys [of meta name i r ts wall k] notin [of k]
        by (cases "k \<in> set kEnvelopeFields"; cases "map_of body k")
          (auto simp: map_of_canonical_body [OF ok] look simp del: not_None_eq)
    qed
  qed (simp_all add: canonical_body_def put_all_ok assms(2))
qed

lemma mac_fields_put_auth:
  "mac_fields nl cr (omap_put ''auth'' a msg) ctx dir kid seq = mac_fields nl cr msg ctx dir kid seq"
proof -
  have "''auth'' \<in> set kEnvelopeFields" by (simp add: kEnvelopeFields_def)
  then have "body_hash_hex nl cr (omap_put ''auth'' a msg) = body_hash_hex nl cr msg"
    by (simp add: body_hash_hex_def canonical_body_put_envelope)
  moreover have "field_string nl (omap_put ''auth'' a msg) k = field_string nl msg k" if "k \<noteq> ''auth''" for k
    using that by (simp add: field_string_def omap_simps)
  ultimately show ?thesis by (simp add: mac_fields_def)
qed

lemma mac_input_put_auth:
  "mac_input nl cr (omap_put ''auth'' a msg) ctx dir kid seq = mac_input nl cr msg ctx dir kid seq"
  by (simp add: mac_input_def mac_fields_put_auth)

lemma verify_sign_ok:
  assumes "sign nl cr msg ctx seq dir = Inr msg'"
  shows "verify nl cr msg' ctx dir = Inr (True, ''ok'')"
proof -
  from assms obtain raw where raw: "mac_input nl cr msg ctx dir (ac_kid ctx) seq = Inr raw"
    and msg': "msg' = omap_put ''auth''
      (JObj (put_all [(''kid'', JStr (ac_kid ctx)), (''seq'', JInt seq),
                      (''mac'', JStr (compute_mac cr (ac_key ctx) raw))] [])) msg"
    by (auto simp: sign_def exec_simps)
  show ?thesis
    by (simp add: verify_def msg' omap_simps raw mac_input_put_auth msg_value_def)
qed

lemma verify_ok_iff:
  "verify nl cr msg ctx dir = Inr (True, why) \<longleftrightarrow>
     why = ''ok'' \<and>
     (\<exists>auth seqv seq raw.
        map_of msg ''auth'' = Some (JObj auth) \<and>
        msg_value get_string auth ''kid'' [] = Inr (ac_kid ctx) \<and>
        map_of auth ''seq'' = Some seqv \<and> is_number_integer seqv \<and> get_i64 (fcast nl) seqv = Inr seq \<and>
        mac_input nl cr msg ctx dir (ac_kid ctx) seq = Inr raw \<and>
        msg_value get_string auth ''mac'' [] = Inr (compute_mac cr (ac_key ctx) raw))"
proof (cases "\<exists>auth. map_of msg ''auth'' = Some (JObj auth)")
  case False
  then show ?thesis by (auto simp: verify_def split: option.splits json.splits)
next
  case True
  then obtain auth where auth: "map_of msg ''auth'' = Some (JObj auth)" by blast
  show ?thesis
    by (cases "map_of auth ''seq''")
      (auto simp: verify_def auth exec_simps split: if_splits)
qed

section \<open>The replay counter\<close>

lemma replay_run_snoc:
  "replay_run prev (ss @ [x]) = replay_run prev ss @ (if \<forall>y \<in> set (prev # ss). y < x then [x] else [])"
  by (induction ss arbitrary: prev) (auto simp: replay_check_def)

lemma replay_run_increasing: "sorted_wrt (<) (prev # replay_run prev ss)"
proof (induction ss arbitrary: prev)
  case Nil
  then show ?case by simp
next
  case (Cons s ss)
  from Cons [of prev] Cons [of s] show ?case
    by (cases "s \<le> prev") (simp_all add: replay_check_def, fastforce)
qed

section \<open>Field separation\<close>

text \<open>The thirteen fields can be read back from the input as long as none holds the separator.\<close>

lemma join_with_inject:
  assumes "length xs = length ys" and "xs \<noteq> []"
    and "\<forall>x \<in> set xs \<union> set ys. c \<notin> set x" and "join_with c xs = join_with c ys"
  shows "xs = ys"
  using assms
proof (induction c xs arbitrary: ys rule: join_with.induct)
  case (1 c)
  then show ?case by simp
next
  case (2 c s)
  from 2(1) obtain t where "ys = [t]" by (auto simp: length_Suc_conv eq_commute [of "Suc 0"])
  with 2 show ?case by simp
next
  case (3 c s t ts)
  then obtain s' t' ts' where ys: "ys = s' # t' # ts'"
    by (metis length_0_conv list.distinct(1) list.inject neq_Nil_conv length_Suc_conv)
  from 3 have "s = s' \<and> join_with c (t # ts) = join_with c (t' # ts')"
    by (simp add: ys append_sep_inject)
  with 3(1) [of "t' # ts'"] 3(2,4) show ?case by (simp add: ys)
qed

lemma mac_fields_Inr:
  assumes "mac_fields nl cr msg ctx dir kid seq = Inr fs"
  obtains v ty serial ts mid rep canon where
    "field_string nl msg ''v'' = Inr v" "field_string nl msg ''type'' = Inr ty"
    "field_string nl msg ''serial'' = Inr serial" "field_string nl msg ''ts'' = Inr ts"
    "field_string nl msg ''msg_id'' = Inr mid" "field_string nl msg ''in_reply_to'' = Inr rep"
    "canonical_serialize nl (JObj (canonical_body msg)) = Inr canon"
    "fs = [v, ty, direction_string dir, ac_device_id ctx, serial, ts, mid, rep, kid, int_dec seq,
           ac_server_nonce ctx, ac_client_nonce ctx, concat (map hex_byte (sha256 cr canon))]"
  using assms by (auto simp: mac_fields_def body_hash_hex_def exec_simps)

text \<open>
  Without that condition the input is ambiguous: moving text across a separator that a field itself
  contains gives a different message with the same input, hence with the same MAC.
\<close>

lemma mac_input_ambiguous:
  "mac_input nl cr [(''in_reply_to'', JStr ''z''), (''msg_id'', JStr (''x'' @ kUnitSeparator # ''y''))] ctx dir kid seq =
   mac_input nl cr [(''in_reply_to'', JStr (''y'' @ kUnitSeparator # ''z'')), (''msg_id'', JStr ''x'')] ctx dir kid seq"
  by (simp add: mac_input_def mac_fields_def field_string_def body_hash_hex_def canonical_body_def kEnvelopeFields_def)

section \<open>Hexadecimal text\<close>

lemma nibble_hex_char: "n < 16 \<Longrightarrow> nibble (hex_char n) = Some n"
  by (auto simp: nibble_def hex_char_def Let_def)

lemma byte_of_nibbles_split: "byte_of_nibbles (unat (drop_bit 4 b)) (unat (b AND 0x0f)) = b"
proof (rule bit_word_eqI)
  fix n
  assume "n < LENGTH(8)"
  have m: "b AND 0x0f = b AND mask 4" by (simp add: mask_eq_exp_minus_1)
  show "bit (byte_of_nibbles (unat (drop_bit 4 b)) (unat (b AND 0x0f))) n = bit b n"
    unfolding m
    by (auto simp: byte_of_nibbles_def bit_or_iff bit_push_bit_iff bit_drop_bit_eq bit_and_iff bit_mask_iff
        possible_bit_word dest: bit_imp_le_length)
qed

lemma nibble_bounds: "unat (drop_bit 4 (b :: 8 word)) < 16" "unat (b AND 0x0f) < 16"
proof -
  have "unat (drop_bit 4 b) = unat b div 16" by (simp add: drop_bit_eq_div unat_div)
  moreover have "unat b < 256" using unsigned_less [of b, where ?'a = nat] by simp
  ultimately show "unat (drop_bit 4 b) < 16" by simp
  have "b AND 0x0f \<le> 0x0f" by (rule word_and_le1)
  then have "unat (b AND 0x0f) \<le> unat (0x0f :: 8 word)" by (simp only: word_le_nat_alt)
  then show "unat (b AND 0x0f) < 16" by simp
qed

lemma hex_bytes_hex: "hex_bytes (concat (map hex_byte bs)) = Some bs"
  by (induction bs) (simp_all add: hex_byte_def nibble_hex_char nibble_bounds byte_of_nibbles_split)

lemma hex_inject: "concat (map hex_byte as) = concat (map hex_byte bs) \<longleftrightarrow> as = bs"
  using hex_bytes_hex by (metis option.inject)

section \<open>Properties\<close>

text \<open>Small primitives and a message, to evaluate the definitions on.\<close>

definition demo_numlib :: numlib where
  "demo_numlib = \<lparr>fmt_g = (\<lambda>n x. []), strtod = (\<lambda>s. FNaN), fcast = (\<lambda>f. 0)\<rparr>"

definition demo_crypto :: crypto where
  "demo_crypto = \<lparr>sha256 = (\<lambda>s. [of_nat (length s)]), hmac_sha256 = (\<lambda>k s. k), encode_block = (\<lambda>b. ''bWFj'')\<rparr>"

definition demo_context :: auth_context where
  "demo_context = \<lparr>ac_key = [1], ac_kid = ''k1'', ac_device_id = ''d'', ac_server_nonce = ''s'',
     ac_client_nonce = ''c''\<rparr>"

definition demo_message :: jobj where
  "demo_message = [(''action'', JStr ''off''), (''type'', JStr ''command''), (''v'', JInt 2)]"

text \<open>
  C16: A message that one side signs is accepted by the other side with the same context, for every
  key, direction and number, and the signature leaves the signed content as it was.
\<close>

theorem sign_then_verify:
  assumes "sign nl cr msg ctx seq dir = Inr smsg"
  shows "verify nl cr smsg ctx dir = Inr (True, ''ok'') \<and> canonical_body smsg = canonical_body msg"
proof -
  have "\<exists>a. smsg = omap_put ''auth'' a msg" using assms by (auto simp: sign_def exec_simps)
  with verify_sign_ok [OF assms] show ?thesis
    by (auto simp: kEnvelopeFields_def intro!: canonical_body_put_envelope)
qed

theorem sign_then_verify_witness:
  "case sign demo_numlib demo_crypto demo_message demo_context 1 S2c of
     Inr smsg \<Rightarrow> verify demo_numlib demo_crypto smsg demo_context S2c = Inr (True, ''ok'')
   | Inl e \<Rightarrow> False"
proof -
  have "\<not> isl (sign demo_numlib demo_crypto demo_message demo_context 1 S2c)" by code_simp
  then obtain smsg where r: "sign demo_numlib demo_crypto demo_message demo_context 1 S2c = Inr smsg"
    by (cases "sign demo_numlib demo_crypto demo_message demo_context 1 S2c") auto
  with sign_then_verify [OF r] show ?thesis by simp
qed



text \<open>
  The replay counter accepts a number exactly if it is above the start value and above every
  number seen before, so the accepted numbers are strictly increasing.
\<close>

theorem replay_accepts_new_maxima:
  "replay_run prev (ss @ [x]) = replay_run prev ss @ (if \<forall>y \<in> set (prev # ss). y < x then [x] else []) \<and>
   sorted_wrt (<) (prev # replay_run prev ss)"
  using replay_run_snoc replay_run_increasing by blast

theorem replay_accepts_new_maxima_witness:
  "replay_run 0 [3, 1, 3, 5] = [3, 5] \<and> sorted_wrt (<) (0 # replay_run 0 [3, 1, 3 :: int])"
  using replay_accepts_new_maxima [of 0 "[3, 1, 3]" 5] by (simp add: replay_check_def)

text \<open>
  A key file that holds the 64 hexadecimal digits of a 32-byte key, with any white space between
  them, loads as exactly that key.
\<close>

theorem key_file_roundtrip:
  assumes "length key = 32" and "filter (\<lambda>c. \<not> isspace c) text = concat (map hex_byte key)"
  shows "load_hmac_key_file path (Some text) = Inr key"
proof -
  have "length (concat (map hex_byte bs)) = 2 * length bs" for bs
    by (induction bs) (simp_all add: hex_byte_def)
  then show ?thesis by (simp add: load_hmac_key_file_def assms hex_bytes_hex)
qed

theorem key_file_roundtrip_witness:
  "load_hmac_key_file ''k'' (Some (concat (map hex_byte (replicate 32 0xA5)) @ ''  '')) = Inr (replicate 32 0xA5)"
  by (rule key_file_roundtrip) code_simp+

end
