(* ===== verification/Session.thy ===== *)
theory Session
  imports Auth Dispatcher Events
begin

text \<open>
  The controller session (\<open>protocol/session.hpp\<close>, \<open>protocol/session.cpp\<close>, \<open>protocol/ota_policy.hpp\<close>):
  handshake, proof of the device, running phase, signing of control messages, and the dispatcher it
  owns. \<open>env\<close> holds what an operation reads from outside while it runs: the JSON text parser and
  printer, the floating-point formatter, the cryptographic primitives, one reading of the steady clock
  (nanoseconds) and of the wall clock (milliseconds), the random bytes, and whether the transport
  accepts a frame. All callbacks are installed, as \<open>client.cpp\<close> does. An operation returns the new
  session and what it does to the outside, in order; a frame is listed when the transport accepts it.
\<close>

section \<open>Data\<close>

record env =
  en_parse :: "string \<Rightarrow> json"
  en_dump :: "json \<Rightarrow> string exec"
  en_numlib :: numlib
  en_crypto :: crypto
  en_now :: int
  en_wall :: int
  en_random :: "8 word list option"
  en_send :: "string \<Rightarrow> bool"

datatype session_state = Closed | AwaitHello | AwaitProof | Running

fun session_state_to_string :: "session_state \<Rightarrow> string" where
  "session_state_to_string Closed = ''closed''"
| "session_state_to_string AwaitHello = ''await_hello''"
| "session_state_to_string AwaitProof = ''await_proof''"
| "session_state_to_string Running = ''running''"

record ota_check =
  oc_current_version :: string
  oc_hw_rev :: string

datatype ota_decision = NoUpdate | OtaAvailable string string string "64 word"

type_synonym ota_policy = "connection_info \<Rightarrow> ota_check \<Rightarrow> ota_decision"

definition no_update_policy :: ota_policy where
  "no_update_policy info check = NoUpdate"

record session_config =
  cf_credentials :: "(string \<Rightarrow> string \<Rightarrow> 8 word list result) option"
  cf_kid :: string
  cf_expected_device_id :: string
  cf_ota_policy :: "ota_policy option"
  cf_handshake_timeout :: int
  cf_default_request_timeout :: int
  cf_budget :: rate_budget

text \<open>The members of the session except its dispatcher.\<close>

record session_core =
  ss_config :: session_config
  ss_state :: session_state
  ss_auth :: auth_context
  ss_replay :: int
  ss_s2c_seq :: int
  ss_msg_seq :: int
  ss_info :: connection_info
  ss_handshake_deadline :: int
  ss_last_tx :: int
  ss_failed :: bool

record 'h session =
  se_core :: session_core
  se_dispatcher :: "'h dispatcher"

datatype 'h sout =
    Frame string
  | Close_connection nat string
  | On_ready connection_info
  | On_failed error
  | On_dp_report json "32 word option"
  | On_event event
  | Answer 'h "jobj result"

type_synonym 'h sstep = "('h session \<times> 'h sout list) exec"

section \<open>Construction\<close>

definition empty_auth :: auth_context where
  "empty_auth = \<lparr>ac_key = [], ac_kid = [], ac_device_id = [], ac_server_nonce = [], ac_client_nonce = []\<rparr>"

definition make_session :: "session_config \<Rightarrow> 'h session" where
  "make_session cfg =
     \<lparr>se_core =
        \<lparr>ss_config = (case cf_ota_policy cfg of
                        None \<Rightarrow> cfg\<lparr>cf_ota_policy := Some no_update_policy\<rparr> | Some _ \<Rightarrow> cfg),
         ss_state = Closed, ss_auth = empty_auth, ss_replay = 0, ss_s2c_seq = 0, ss_msg_seq = 0,
         ss_info = empty_info, ss_handshake_deadline = 0, ss_last_tx = 0, ss_failed = False\<rparr>,
      se_dispatcher =
        (make_dispatcher (cf_budget cfg) (cf_default_request_timeout cfg))
          \<lparr>dq_sending_enabled := False, dq_warning := True\<rparr>\<rparr>"

section \<open>Random nonce\<close>

definition base64_alphabet :: string where
  "base64_alphabet = ''ABCDEFGHIJKLMNOPQRSTUVWXYZabcdefghijklmnopqrstuvwxyz0123456789+/''"

definition sextet :: "32 word \<Rightarrow> nat \<Rightarrow> char" where
  "sextet v n = base64_alphabet ! unat (and (drop_bit n v) 0x3f)"

fun b64_groups :: "8 word list \<Rightarrow> string" where
  "b64_groups (a # b # c # r) =
     (let v = or (or (push_bit 16 (ucast a)) (push_bit 8 (ucast b))) (ucast c) :: 32 word
      in [sextet v 18, sextet v 12, sextet v 6, sextet v 0] @ b64_groups r)"
| "b64_groups _ = []"

definition random_nonce_b64 :: "8 word list option \<Rightarrow> string exec" where
  "random_nonce_b64 rnd =
    (case rnd of
       None \<Rightarrow> Inl (Runtime_error ''RAND_bytes failed'')
     | Some raw \<Rightarrow>
        (let v = push_bit 16 (ucast (raw ! 15)) :: 32 word
         in Inr (b64_groups (take 15 raw) @ [sextet v 18, sextet v 12] @ ''==''))) "

section \<open>Sending\<close>

definition enter :: "session_state \<Rightarrow> 'h session \<Rightarrow> 'h session" where
  "enter next s =
    (if ss_state (se_core s) = next then s
     else s\<lparr>se_core := (se_core s)\<lparr>ss_state := next\<rparr>,
            se_dispatcher := (se_dispatcher s)\<lparr>dq_sending_enabled := (next = Running)\<rparr>\<rparr>)"

definition warn :: "string \<Rightarrow> string \<Rightarrow> 'h sout" where
  "warn reason ty = On_event (Ev_warning \<lparr>pw_reason = reason, pw_message_type = ty, pw_in_reply_to = None\<rparr>)"

fun lift_out :: "('h, string) dout \<Rightarrow> 'h sout" where
  "lift_out (Done h r) = Answer h r"
| "lift_out (Warned reason ty) = warn reason ty"
| "lift_out (Emitted frame) = Frame frame"

definition next_msg_id :: "session_core \<Rightarrow> string \<times> session_core" where
  "next_msg_id c = (let n = ss_msg_seq c + 1 in (''s-'' @ int_dec n, c\<lparr>ss_msg_seq := n\<rparr>))"

definition transmit :: "env \<Rightarrow> jobj \<Rightarrow> session_core \<Rightarrow> (bool \<times> session_core \<times> string list) exec" where
  "transmit en message c =
     bindE (en_dump en (JObj message)) (\<lambda>text.
       if \<not> en_send en text then Inr (False, c, [])
       else Inr (True, c\<lparr>ss_last_tx := en_now en\<rparr>, [text]))"

text \<open>Control messages are signed with the next outgoing number; others go out as they are.\<close>

definition sign_control :: "env \<Rightarrow> message_meta option \<Rightarrow> jobj \<Rightarrow> session_core \<Rightarrow> (jobj \<times> session_core) exec" where
  "sign_control en meta message c =
    (if (case meta of None \<Rightarrow> False | Some m \<Rightarrow> mm_auth m = Auth_Control)
     then let n = ss_s2c_seq c + 1 in
       bindE (sign (en_numlib en) (en_crypto en) message (ss_auth c) n S2c) (\<lambda>signed.
         Inr (signed, c\<lparr>ss_s2c_seq := n\<rparr>))
     else Inr (message, c))"

definition send_message ::
  "env \<Rightarrow> string \<Rightarrow> json \<Rightarrow> string \<Rightarrow> session_core \<Rightarrow> (bool \<times> session_core \<times> string list) exec" where
  "send_message en ty body in_reply_to c =
     bindE (build_message ty body [] in_reply_to (en_wall en) (en_wall en)) (\<lambda>message.
     bindE (sign_control en (find_meta ty) message c) (\<lambda>(signed, c1).
       transmit en signed c1))"

definition encode_and_send :: "env \<Rightarrow> (session_core, string) encode_and_send" where
  "encode_and_send en spec c =
    (if ss_state c \<noteq> Running
     then Inr (Inl (make_error Dom_Disconnected NotConnected
                 (''session is '' @ session_state_to_string (ss_state c) @ '', not running'')), c, [])
     else case find_meta (rs_type spec) of
       None \<Rightarrow>
         Inr (Inl (protocol_error UnexpectedMessage
                 (''unknown message type '' @ CHR 0x27 # rs_type spec @ [CHR 0x27])), c, [])
     | Some meta \<Rightarrow>
        (let (msg_id, c1) = next_msg_id c in
         bindE (build_message (rs_type spec) (rs_body spec) msg_id [] (en_wall en) (en_wall en)) (\<lambda>message.
         bindE (sign_control en (Some meta) message c1) (\<lambda>(signed, c2).
         bindE (en_dump en (JObj signed)) (\<lambda>encoded.
           if kMaxControlFrameBytes < length encoded
           then Inr (Inl (make_error Dom_Protocol FrameTooLarge
                       (rs_type spec @ '' frame is '' @ nat_dec (length encoded) @
                        '' bytes, device limit is '' @ nat_dec kMaxControlFrameBytes)), c2, [])
           else if \<not> en_send en encoded
           then Inr (Inl (make_error Dom_Disconnected TransportClosed
                       (rs_type spec @ '' could not be sent'')), c2, [])
           else Inr (Inr msg_id, c2\<lparr>ss_last_tx := en_now en\<rparr>, [encoded]))))))"

section \<open>Transport events\<close>

definition on_transport_open :: "env \<Rightarrow> 'h session \<Rightarrow> 'h session exec" where
  "on_transport_open en s =
     bindE (random_nonce_b64 (en_random en)) (\<lambda>nonce.
       Inr (enter AwaitHello
         (s\<lparr>se_core := (se_core s)
             \<lparr>ss_auth := \<lparr>ac_key = [], ac_kid = cf_kid (ss_config (se_core s)), ac_device_id = [],
                          ac_server_nonce = nonce, ac_client_nonce = []\<rparr>,
              ss_replay := 0, ss_s2c_seq := 0, ss_msg_seq := 0, ss_info := empty_info,
              ss_failed := False, ss_last_tx := en_now en,
              ss_handshake_deadline :=
                en_now en + ns_of_ms (cf_handshake_timeout (ss_config (se_core s)))\<rparr>\<rparr>)))"

text \<open>The dispatcher fails everything it holds.\<close>

definition fail_requests :: "error \<Rightarrow> 'h session \<Rightarrow> 'h session \<times> 'h sout list" where
  "fail_requests e s =
     (let (d, outs) = fail_all e (se_dispatcher s) in (s\<lparr>se_dispatcher := d\<rparr>, map lift_out outs))"

definition on_transport_closed :: "error \<Rightarrow> 'h session \<Rightarrow> 'h session \<times> 'h sout list" where
  "on_transport_closed e s = fail_requests e (enter Closed s)"

definition abort :: "error \<Rightarrow> nat \<Rightarrow> string \<Rightarrow> 'h session \<Rightarrow> 'h session \<times> 'h sout list" where
  "abort e close_code reason s =
    (if ss_failed (se_core s) then (s, [])
     else let s1 = enter Closed (s\<lparr>se_core := (se_core s)\<lparr>ss_failed := True\<rparr>\<rparr>);
              (s2, outs) = fail_requests e s1
          in (s2, outs @ [Close_connection close_code reason, On_failed e]))"

section \<open>Requests and time\<close>

definition lift_step ::
  "'h session \<Rightarrow> ('h, session_core, string) dstep \<Rightarrow> 'h sstep" where
  "lift_step s r = bindE r (\<lambda>(d, c, outs).
     Inr (s\<lparr>se_core := c, se_dispatcher := d\<rparr>, map lift_out outs))"

definition request :: "env \<Rightarrow> request_spec \<Rightarrow> 'h option \<Rightarrow> 'h session \<Rightarrow> 'h sstep" where
  "request en spec h s =
     lift_step s (submit (encode_and_send en) spec h (en_now en) (se_dispatcher s) (se_core s))"

definition session_tick :: "env \<Rightarrow> int \<Rightarrow> 'h session \<Rightarrow> 'h sstep" where
  "session_tick en now s =
    (if (ss_state (se_core s) = AwaitHello \<or> ss_state (se_core s) = AwaitProof) \<and>
        ss_handshake_deadline (se_core s) \<le> now
     then Inr (abort (make_error Dom_Protocol HandshakeFailed ''no Fountain handshake within the deadline'')
                 4000 ''handshake_timeout'' s)
     else lift_step s (tick (encode_and_send en) now (se_dispatcher s) (se_core s)))"

section \<open>Handshake\<close>

text \<open>The first offered key id the provider resolves, and the last error it gave before.\<close>

fun resolve_kids ::
  "(string \<Rightarrow> string \<Rightarrow> 8 word list result) \<Rightarrow> string \<Rightarrow> json list \<Rightarrow> error \<Rightarrow> string \<times> 8 word list \<times> error" where
  "resolve_kids res dev [] e = ([], [], e)"
| "resolve_kids res dev (JStr candidate # js) e =
     (case res dev candidate of
        Inr key \<Rightarrow> (candidate, key, e)
      | Inl e' \<Rightarrow> resolve_kids res dev js e')"
| "resolve_kids res dev (j # js) e = resolve_kids res dev js e"

definition choose_key :: "session_config \<Rightarrow> string \<Rightarrow> json \<Rightarrow> string \<times> 8 word list \<times> error" where
  "choose_key cfg dev kids =
    (case cf_credentials cfg of
       None \<Rightarrow> ([], [], config_error MissingCredentials ''no credential provider configured'')
     | Some res \<Rightarrow> resolve_kids res dev (json_elements kids)
                    (make_error Dom_Authentication UnknownKeyId ''device offered no key id we can resolve''))"

definition scheme_offered :: "json \<Rightarrow> bool" where
  "scheme_offered schemes = list_ex (\<lambda>j. j = JStr kAuthScheme) (json_elements schemes)"

definition supported_protocols :: json where
  "supported_protocols = JArr [JInt 1, JInt 2]"

definition ack_rejected :: "env \<Rightarrow> string \<Rightarrow> json" where
  "ack_rejected en reason =
     JObj (put_all [(''accepted'', JBool False), (''reason'', JStr reason),
                    (''supported_protocols'', supported_protocols), (''server_ts'', JInt (en_wall en))] [])"

definition ack_accepted :: "env \<Rightarrow> string \<Rightarrow> string \<Rightarrow> json" where
  "ack_accepted en kid nonce =
     JObj (put_all [(''accepted'', JBool True), (''supported_protocols'', supported_protocols),
                    (''server_ts'', JInt (en_wall en)), (''auth_required'', JBool True),
                    (''auth_scheme'', JStr kAuthScheme), (''auth_scope'', JStr kAuthScope),
                    (''auth_kid'', JStr kid), (''server_nonce'', JStr nonce)] [])"

text \<open>What the device says about itself.\<close>

definition read_hello :: "env \<Rightarrow> jobj \<Rightarrow> connection_info \<Rightarrow> connection_info exec" where
  "read_hello en message info =
     bindE (msg_value get_string message ''device_id'' []) (\<lambda>device_id.
     bindE (msg_value get_string message ''serial'' []) (\<lambda>serial.
     bindE (msg_value get_string message ''fw_version'' []) (\<lambda>fw.
     bindE (msg_value get_string message ''hw_rev'' []) (\<lambda>hw.
     bindE (msg_value get_string message ''boot_reason'' []) (\<lambda>boot.
     bindE (msg_value (get_word (fcast (en_numlib en))) message ''protocol_version'' 0) (\<lambda>pv.
       Inr (info\<lparr>ci_device_id := device_id, ci_serial := serial, ci_firmware_version := fw,
                  ci_hardware_revision := hw, ci_boot_reason := boot, ci_protocol_version := pv\<rparr>)))))))"

text \<open>A refusal: \<open>hello_ack\<close> with the reason, then the end of the session.\<close>

definition refuse_hello :: "env \<Rightarrow> jobj \<Rightarrow> string \<Rightarrow> error \<Rightarrow> 'h session \<Rightarrow> 'h sstep" where
  "refuse_hello en message reason e s =
     bindE (msg_value get_string message ''msg_id'' []) (\<lambda>msg_id.
     bindE (send_message en ''hello_ack'' (ack_rejected en reason) msg_id (se_core s)) (\<lambda>(ok, c, frames).
       let (s', outs) = abort e 4004 reason (s\<lparr>se_core := c\<rparr>)
       in Inr (s', map Frame frames @ outs)))"

definition handle_hello :: "env \<Rightarrow> jobj \<Rightarrow> 'h session \<Rightarrow> 'h sstep" where
  "handle_hello en message s =
     bindE (msg_value get_string message ''type'' []) (\<lambda>ty.
     if ty = ''protocol_mismatch''
     then Inr (abort (protocol_error ProtocolMismatch ''device reports no common protocol version'')
                 4000 ''protocol_mismatch'' s)
     else if ty \<noteq> ''hello''
     then Inr (abort (protocol_error UnexpectedMessage (''expected hello, got '' @ CHR 0x27 # ty @ [CHR 0x27]))
                 4000 ''expected_hello'' s)
     else
       bindE (read_hello en message (ss_info (se_core s))) (\<lambda>info.
       bindE (msg_value get_string message ''client_nonce'' []) (\<lambda>client_nonce.
       bindE (msg_value get_json message ''auth_schemes'' (JArr [])) (\<lambda>schemes.
       bindE (msg_value get_json message ''auth_kids'' (JArr [])) (\<lambda>kids.
       let cfg = ss_config (se_core s);
           s1 = s\<lparr>se_core := (se_core s)\<lparr>ss_info := info,
                    ss_auth := (ss_auth (se_core s))\<lparr>ac_client_nonce := client_nonce\<rparr>\<rparr>\<rparr>;
           (chosen_kid, key, resolve_error) = choose_key cfg (ci_device_id info) kids
       in
       if cf_expected_device_id cfg \<noteq> [] \<and> ci_device_id info \<noteq> cf_expected_device_id cfg
       then refuse_hello en message ''unknown_device''
              (make_error Dom_Authentication AuthRejected
                (''device identifies as '' @ CHR 0x27 # ci_device_id info @ CHR 0x27 # '', expected '' @
                 CHR 0x27 # cf_expected_device_id cfg @ [CHR 0x27])) s1
       else if \<not> scheme_offered schemes \<or> chosen_kid = []
       then refuse_hello en message ''auth_required'' resolve_error s1
       else
         (let c2 = (se_core s1)
                \<lparr>ss_auth := (ss_auth (se_core s1))\<lparr>ac_key := key, ac_kid := chosen_kid,
                              ac_device_id := ci_device_id info\<rparr>,
                 ss_info := info\<lparr>ci_auth_scheme := kAuthScheme, ci_auth_scope := kAuthScope,
                                 ci_auth_kid := chosen_kid\<rparr>\<rparr>
          in
          bindE (msg_value get_string message ''msg_id'' []) (\<lambda>msg_id.
          bindE (send_message en ''hello_ack''
                   (ack_accepted en chosen_kid (ac_server_nonce (ss_auth c2))) msg_id c2) (\<lambda>(ok, c3, frames).
            Inr (enter AwaitProof (s1\<lparr>se_core := c3\<rparr>), map Frame frames)))))))))"

section \<open>Running phase\<close>

definition optional_float :: "jobj \<Rightarrow> string \<Rightarrow> fp option exec" where
  "optional_float message k =
    (case map_of message k of
       None \<Rightarrow> Inr None
     | Some v \<Rightarrow> if \<not> is_number v then Inr None else bindE (get_float v) (\<lambda>f. Inr (Some f)))"

definition auth_seq :: "env \<Rightarrow> jobj \<Rightarrow> int exec" where
  "auth_seq en message =
     json_value (get_i64 (fcast (en_numlib en)))
       (case map_of message ''auth'' of None \<Rightarrow> JNull | Some a \<Rightarrow> a) ''seq'' 0"

definition parse_heartbeat :: "env \<Rightarrow> jobj \<Rightarrow> heartbeat exec" where
  "parse_heartbeat en message =
     bindE (msg_value (get_word (fcast (en_numlib en))) message ''uptime_s'' 0) (\<lambda>up.
     bindE (msg_value get_string message ''fw_version'' []) (\<lambda>fw.
     bindE (msg_value get_bool message ''fault_active'' False) (\<lambda>fault.
       Inr \<lparr>hb_uptime_s = up, hb_firmware_version = fw, hb_fault_active = fault, hb_received_at = en_now en\<rparr>)))"

definition parse_device_alert :: "env \<Rightarrow> jobj \<Rightarrow> device_alert exec" where
  "parse_device_alert en message =
     bindE (msg_value get_string message ''code'' []) (\<lambda>code.
     bindE (msg_value get_string message ''severity'' []) (\<lambda>severity.
     bindE (msg_value get_string message ''datapoint'' []) (\<lambda>dp.
     bindE (optional_float message ''value'') (\<lambda>v.
     bindE (optional_float message ''threshold'') (\<lambda>th.
     bindE (msg_value get_string message ''detail'' []) (\<lambda>detail.
       Inr \<lparr>da_code = code, da_severity = severity, da_datapoint = dp, da_value = v, da_threshold = th,
            da_detail = detail, da_received_at = en_now en\<rparr>))))))"

definition parse_ota_status :: "env \<Rightarrow> jobj \<Rightarrow> ota_status exec" where
  "parse_ota_status en message =
     bindE (msg_value get_string message ''target_version'' []) (\<lambda>tv.
     bindE (msg_value get_string message ''state'' []) (\<lambda>st.
     bindE (msg_value (get_word (fcast (en_numlib en))) message ''attempt'' 0) (\<lambda>att.
     bindE (msg_value (get_word (fcast (en_numlib en))) message ''progress_pct'' 0) (\<lambda>pct.
     bindE (msg_value get_string message ''error'' []) (\<lambda>err.
     bindE (msg_value get_string message ''error_detail'' []) (\<lambda>detail.
       Inr \<lparr>os_target_version = tv, os_state = st, os_attempt = att, os_progress_pct = pct,
            os_error = err, os_error_detail = detail\<rparr>))))))"

definition parse_error_report :: "jobj \<Rightarrow> error_report exec" where
  "parse_error_report message =
     bindE (msg_value get_string message ''status'' []) (\<lambda>st.
     bindE (msg_value get_json message ''active_faults'' (JArr [])) (\<lambda>faults.
     bindE (msg_value get_json message ''log'' (JArr [])) (\<lambda>lg.
       Inr \<lparr>er_status = st, er_active_faults = faults, er_log = lg\<rparr>)))"

definition report_seq :: "env \<Rightarrow> jobj \<Rightarrow> 32 word option exec" where
  "report_seq en message =
    (case map_of message ''seq'' of
       None \<Rightarrow> Inr None
     | Some v \<Rightarrow> if \<not> is_number v then Inr None
                 else bindE (get_word (fcast (en_numlib en)) v) (\<lambda>n. Inr (Some n)))"

text \<open>Messages that answer no request.\<close>

definition spontaneous :: "env \<Rightarrow> string \<Rightarrow> jobj \<Rightarrow> 'h sout list exec" where
  "spontaneous en ty message =
    (if ty = ''heartbeat'' then bindE (parse_heartbeat en message) (\<lambda>h. Inr [On_event (Ev_heartbeat h)])
     else if ty = ''dp_report'' then
       bindE (report_seq en message) (\<lambda>sq.
       bindE (msg_value get_json message ''dp'' (JObj [])) (\<lambda>dp. Inr [On_dp_report dp sq]))
     else if ty = ''device_alert'' then bindE (parse_device_alert en message) (\<lambda>a. Inr [On_event (Ev_alert a)])
     else if ty = ''ota_status'' then bindE (parse_ota_status en message) (\<lambda>a. Inr [On_event (Ev_ota a)])
     else if ty = ''error_report'' then bindE (parse_error_report message) (\<lambda>a. Inr [On_event (Ev_error_report a)])
     else if find_meta ty = None then Inr [On_event (Ev_unknown ty message)]
     else Inr [warn ''unsolicited message without a pending request'' ty])"

definition deliver :: "env \<Rightarrow> string \<Rightarrow> jobj \<Rightarrow> 'h session \<Rightarrow> 'h sstep" where
  "deliver en ty message s =
     bindE (on_message message (se_dispatcher s)) (\<lambda>(consumed, d, outs).
       let s1 = s\<lparr>se_dispatcher := d\<rparr> in
       if consumed then Inr (s1, map lift_out outs)
       else bindE (spontaneous en ty message) (\<lambda>outs2. Inr (s1, map lift_out outs @ outs2)))"

definition dispatch_running :: "env \<Rightarrow> jobj \<Rightarrow> 'h session \<Rightarrow> 'h sstep" where
  "dispatch_running en message s =
     bindE (msg_value get_string message ''type'' []) (\<lambda>ty.
     if map_of message ''auth'' \<noteq> None then
       bindE (verify (en_numlib en) (en_crypto en) message (ss_auth (se_core s)) C2s) (\<lambda>(ok, reason).
       if \<not> ok then Inr (s, [warn (''dropping message: '' @ reason) ty])
       else bindE (auth_seq en message) (\<lambda>n.
         let (fresh, r) = replay_check (ss_replay (se_core s)) n;
             s1 = s\<lparr>se_core := (se_core s)\<lparr>ss_replay := r\<rparr>\<rparr>
         in if \<not> fresh then Inr (s1, [warn ''dropping message: replay'' ty])
            else deliver en ty message s1))
     else deliver en ty message s)"

section \<open>Proof of the device\<close>

definition answer_ota_check ::
  "env \<Rightarrow> jobj \<Rightarrow> session_core \<Rightarrow> (bool \<times> session_core \<times> string list) exec" where
  "answer_ota_check en message c =
     bindE (msg_value get_string message ''current_version'' []) (\<lambda>cv.
     bindE (msg_value get_string message ''hw_rev'' []) (\<lambda>hw.
     let policy = (case cf_ota_policy (ss_config c) of None \<Rightarrow> no_update_policy | Some p \<Rightarrow> p);
         decision = policy (ss_info c) \<lparr>oc_current_version = cv, oc_hw_rev = hw\<rparr> in
     bindE (msg_value get_string message ''msg_id'' []) (\<lambda>in_reply_to.
     case decision of
       OtaAvailable version url sha sz \<Rightarrow>
         send_message en ''ota_available''
           (JObj (put_all [(''version'', JStr version), (''url'', JStr url), (''sha256'', JStr sha),
                           (''size'', JUInt (unat sz))] [])) in_reply_to c
     | NoUpdate \<Rightarrow> send_message en ''ota_none'' (JObj []) in_reply_to c)))"

definition handle_proof :: "env \<Rightarrow> jobj \<Rightarrow> 'h session \<Rightarrow> 'h sstep" where
  "handle_proof en message s =
     bindE (verify (en_numlib en) (en_crypto en) message (ss_auth (se_core s)) C2s) (\<lambda>(ok, reason).
     if \<not> ok
     then Inr (abort (make_error Dom_Authentication AuthRejected (''session proof failed: '' @ reason))
                 4004 ''auth_failed'' s)
     else bindE (auth_seq en message) (\<lambda>n.
       let (fresh, r) = replay_check (ss_replay (se_core s)) n;
           s1 = s\<lparr>se_core := (se_core s)\<lparr>ss_replay := r\<rparr>\<rparr>
       in if \<not> fresh
          then Inr (abort (make_error Dom_Authentication ReplayDetected ''session proof replayed'')
                      4004 ''auth_failed'' s1)
          else
            let s2 = s1\<lparr>se_core := (se_core s1)
                       \<lparr>ss_info := (ss_info (se_core s1))\<lparr>ci_established_at := en_now en\<rparr>\<rparr>\<rparr> in
            bindE (msg_value get_string message ''type'' []) (\<lambda>ty.
            if ty = kSessionProofMsg
            then bindE (answer_ota_check en message (se_core s2)) (\<lambda>(ok, c, frames).
                   Inr (enter Running (s2\<lparr>se_core := c\<rparr>), map Frame frames @ [On_ready (ss_info c)]))
            else let s3 = enter Running s2 in
                 bindE (dispatch_running en message s3) (\<lambda>(s4, outs).
                   Inr (s4, On_ready (ss_info (se_core s3)) # outs)))))"

definition on_text :: "env \<Rightarrow> string \<Rightarrow> 'h session \<Rightarrow> 'h sstep" where
  "on_text en frame s =
    (case en_parse en frame of
       JObj message \<Rightarrow>
         (case ss_state (se_core s) of
            AwaitHello \<Rightarrow> handle_hello en message s
          | AwaitProof \<Rightarrow> handle_proof en message s
          | Running \<Rightarrow> dispatch_running en message s
          | Closed \<Rightarrow> Inr (s, []))
     | _ \<Rightarrow>
         if ss_state (se_core s) = Running then Inr (s, [warn ''invalid JSON discarded'' []])
         else Inr (abort (protocol_error MalformedMessage ''peer sent something that is not a JSON object'')
                     4000 ''invalid_json'' s))"

section \<open>Message ids\<close>

definition used_id :: "session_core \<Rightarrow> string \<Rightarrow> bool" where
  "used_id c i \<longleftrightarrow> (\<exists>n. n \<le> ss_msg_seq c \<and> i = ''s-'' @ int_dec n)"

lemma used_id_mono: "ss_msg_seq c \<le> ss_msg_seq c' \<Longrightarrow> used_id c i \<Longrightarrow> used_id c' i"
  by (auto simp: used_id_def intro: order.trans)

lemma sign_control_core:
  assumes "sign_control en meta message c = Inr (smsg, c')"
  obtains n where "c' = c\<lparr>ss_s2c_seq := n\<rparr>" "ss_s2c_seq c \<le> n"
proof (cases "case meta of None \<Rightarrow> False | Some m \<Rightarrow> mm_auth m = Auth_Control")
  case True
  with assms show ?thesis by (intro that) (auto simp: sign_control_def Let_def exec_simps)
next
  case False
  with assms show ?thesis by (intro that [of "ss_s2c_seq c"]) (auto simp: sign_control_def)
qed

text \<open>
  What a call of the encoder can do: refuse without a trace, or use up the next message id and, for a
  control message, the next number of the outgoing counter, and then either give the frame to the
  transport or report why it did not.
\<close>

lemma encode_and_send_cases:
  assumes "encode_and_send en spec c = Inr (r, c', frames)"
  obtains (refused) e where "r = Inl e" "c' = c" "frames = []"
  | (tried) e n where "r = Inl e" "ss_state c = Running" "frames = []"
      "c' = c\<lparr>ss_msg_seq := ss_msg_seq c + 1, ss_s2c_seq := n\<rparr>" "ss_s2c_seq c \<le> n"
  | (sent) meta message smsg encoded c2 where "ss_state c = Running" "find_meta (rs_type spec) = Some meta"
      "r = Inr (''s-'' @ int_dec (ss_msg_seq c + 1))"
      "build_message (rs_type spec) (rs_body spec) (''s-'' @ int_dec (ss_msg_seq c + 1)) [] (en_wall en) (en_wall en)
         = Inr message"
      "sign_control en (Some meta) message (c\<lparr>ss_msg_seq := ss_msg_seq c + 1\<rparr>) = Inr (smsg, c2)"
      "en_dump en (JObj smsg) = Inr encoded" "length encoded \<le> kMaxControlFrameBytes"
      "en_send en encoded" "frames = [encoded]" "c' = c2\<lparr>ss_last_tx := en_now en\<rparr>"
proof (cases "ss_state c = Running")
  case False
  with assms show ?thesis by (auto simp: encode_and_send_def intro: refused)
next
  case run: True
  show ?thesis
  proof (cases "find_meta (rs_type spec)")
    case None
    with assms run show ?thesis by (auto simp: encode_and_send_def intro: refused)
  next
    case (Some meta)
    let ?i = "''s-'' @ int_dec (ss_msg_seq c + 1)"
    let ?c = "c\<lparr>ss_msg_seq := ss_msg_seq c + 1\<rparr>"
    from assms run Some obtain message smsg c2 encoded where
      m: "build_message (rs_type spec) (rs_body spec) ?i [] (en_wall en) (en_wall en) = Inr message"
      and g: "sign_control en (Some meta) message ?c = Inr (smsg, c2)"
      and e: "en_dump en (JObj smsg) = Inr encoded"
      by (auto simp: encode_and_send_def next_msg_id_def Let_def exec_simps)
    obtain n where n: "c2 = ?c\<lparr>ss_s2c_seq := n\<rparr>" "ss_s2c_seq c \<le> n"
      using sign_control_core [OF g] by auto
    show ?thesis
    proof (cases "length encoded \<le> kMaxControlFrameBytes \<and> en_send en encoded")
      case True
      with assms run Some m g e have "r = Inr ?i" "c' = c2\<lparr>ss_last_tx := en_now en\<rparr>" "frames = [encoded]"
        by (auto simp: encode_and_send_def next_msg_id_def Let_def)
      with sent [OF run Some _ m g e] True show ?thesis by blast
    next
      case False
      with assms run Some m g e have r: "c' = c2" "frames = []" "\<exists>e. r = Inl e"
        by (auto simp: encode_and_send_def next_msg_id_def Let_def split: if_splits)
      with n run show ?thesis by (auto intro!: tried)
    qed
  qed
qed

lemma encode_and_send_seq:
  assumes "encode_and_send en spec c = Inr (r, c', frames)"
  shows "ss_msg_seq c \<le> ss_msg_seq c' \<and> ss_s2c_seq c \<le> ss_s2c_seq c' \<and> ss_state c' = ss_state c \<and>
    ss_failed c' = ss_failed c \<and> ss_auth c' = ss_auth c \<and> ss_replay c' = ss_replay c \<and>
    ss_info c' = ss_info c \<and> ss_config c' = ss_config c \<and>
    ss_handshake_deadline c' = ss_handshake_deadline c"
  using assms
proof (cases rule: encode_and_send_cases)
  case (sent meta message smsg encoded c2)
  from sign_control_core [OF sent(5)] obtain n
    where "c2 = c\<lparr>ss_msg_seq := ss_msg_seq c + 1, ss_s2c_seq := n\<rparr>" "ss_s2c_seq c \<le> n" by auto
  then show ?thesis by (simp add: sent(10))
qed simp_all

lemma encode_and_send_id:
  assumes "encode_and_send en spec c = Inr (Inr i, c', frames)"
  shows "i = ''s-'' @ int_dec (ss_msg_seq c + 1) \<and> ss_msg_seq c' = ss_msg_seq c + 1"
  using assms
proof (cases rule: encode_and_send_cases)
  case (sent meta message smsg encoded c2)
  from sign_control_core [OF sent(5)] obtain n
    where "c2 = c\<lparr>ss_msg_seq := ss_msg_seq c + 1, ss_s2c_seq := n\<rparr>" by auto
  then show ?thesis using sent by simp
qed simp_all

interpretation ses: request_channel "encode_and_send en" used_id for en
proof unfold_locales
  show "used_id s' i" if "encode_and_send en spec s = Inr (r, s', os)" and "used_id s i" for spec s r s' os i
    using that encode_and_send_seq used_id_mono by blast
  show "\<not> used_id s i \<and> used_id s' i" if "encode_and_send en spec s = Inr (Inr i, s', os)" for spec s i s' os
    using encode_and_send_id [OF that] by (auto simp: used_id_def)
qed

end
