(* ===== verification/Security.thy ===== *)
theory Security
  imports Auth Errors
begin

text \<open>
  Credentials and the security configuration of a client (\<open>security.hpp\<close>, \<open>security.cpp\<close>). The file
  system is an argument: the content of a file that can be opened.
\<close>

type_synonym filesystem = "string \<Rightarrow> string option"

type_synonym provider = "string \<Rightarrow> string \<Rightarrow> 8 word list result"

section \<open>TLS credentials\<close>

datatype identity_policy = VerifyDnsName | VerifyCertificateChainOnly

record tls_credentials =
  tc_ca_file :: string
  tc_certificate_file :: string
  tc_key_file :: string
  tc_policy :: identity_policy
  tc_disable_peer_verification :: bool

definition empty_tls :: tls_credentials where
  "empty_tls = \<lparr>tc_ca_file = [], tc_certificate_file = [], tc_key_file = [], tc_policy = VerifyDnsName,
     tc_disable_peer_verification = False\<rparr>"

definition mutual_tls :: "string \<Rightarrow> string \<Rightarrow> string \<Rightarrow> identity_policy \<Rightarrow> tls_credentials" where
  "mutual_tls ca cert key policy =
     empty_tls\<lparr>tc_ca_file := ca, tc_certificate_file := cert, tc_key_file := key, tc_policy := policy\<rparr>"

definition server_only :: "string \<Rightarrow> identity_policy \<Rightarrow> tls_credentials" where
  "server_only ca policy = empty_tls\<lparr>tc_ca_file := ca, tc_policy := policy\<rparr>"

definition uses_mutual_tls :: "tls_credentials \<Rightarrow> bool" where
  "uses_mutual_tls t \<longleftrightarrow> tc_certificate_file t \<noteq> []"

definition set_unsafe_options :: "bool \<Rightarrow> tls_credentials \<Rightarrow> tls_credentials" where
  "set_unsafe_options disable t = t\<lparr>tc_disable_peer_verification := disable\<rparr>"

definition require_readable :: "filesystem \<Rightarrow> string \<Rightarrow> string \<Rightarrow> unit result" where
  "require_readable fs path what =
    (if path = [] then Inl (config_error MissingCredentials (what @ '' is not configured''))
     else if fs path = None then Inl (config_error FileNotReadable (what @ '' is not readable: '' @ path))
     else Inr ())"

definition tls_validate :: "filesystem \<Rightarrow> tls_credentials \<Rightarrow> unit result" where
  "tls_validate fs t =
    (case (if tc_disable_peer_verification t then Inr () else require_readable fs (tc_ca_file t) ''tls ca_file'') of
       Inl e \<Rightarrow> Inl e
     | Inr _ \<Rightarrow>
        (if \<not> uses_mutual_tls t then Inr ()
         else case require_readable fs (tc_certificate_file t) ''tls client_certificate_file'' of
           Inl e \<Rightarrow> Inl e
         | Inr _ \<Rightarrow> require_readable fs (tc_key_file t) ''tls client_key_file''))"

section \<open>Key material\<close>

text \<open>
  The loop over the characters with the pending high nibble (\<open>None\<close>: none); \<open>None\<close> as the result is
  the early return on a character that is no hexadecimal digit.
\<close>

fun decode_hex_loop :: "string \<Rightarrow> nat option \<Rightarrow> 8 word list \<Rightarrow> (nat option \<times> 8 word list) option" where
  "decode_hex_loop [] high bytes = Some (high, bytes)"
| "decode_hex_loop (c # cs) high bytes =
    (if isspace c then decode_hex_loop cs high bytes
     else case nibble c of
       None \<Rightarrow> None
     | Some n \<Rightarrow>
        (case high of
           None \<Rightarrow> decode_hex_loop cs (Some n) bytes
         | Some h \<Rightarrow> decode_hex_loop cs None (bytes @ [byte_of_nibbles h n])))"

definition decode_hex_key :: "string \<Rightarrow> 8 word list result" where
  "decode_hex_key hex =
    (case decode_hex_loop hex None [] of
       None \<Rightarrow> Inl (config_error MissingCredentials ''hmac key contains a non-hex character'')
     | Some (high, bytes) \<Rightarrow>
        (if high \<noteq> None \<or> length bytes \<noteq> 32
         then Inl (config_error MissingCredentials
                (''hmac key must be exactly 64 hex characters (32 bytes), got '' @ nat_dec (length bytes) @ '' bytes''))
         else Inr bytes))"

record hmac_credentials =
  hc_kid :: string
  hc_key :: "8 word list"

definition hmac_from_hex :: "string \<Rightarrow> string \<Rightarrow> hmac_credentials result" where
  "hmac_from_hex kid hex =
    (if kid = [] then Inl (config_error MissingCredentials ''hmac kid must not be empty'')
     else case decode_hex_key hex of Inl e \<Rightarrow> Inl e | Inr bytes \<Rightarrow> Inr \<lparr>hc_kid = kid, hc_key = bytes\<rparr>)"

definition hmac_from_file :: "filesystem \<Rightarrow> string \<Rightarrow> string \<Rightarrow> hmac_credentials result" where
  "hmac_from_file fs kid path =
    (case fs path of
       None \<Rightarrow> Inl (config_error FileNotReadable (''hmac key file is not readable: '' @ path))
     | Some text \<Rightarrow>
        (case hmac_from_hex kid text of
           Inl e \<Rightarrow> Inl (e\<lparr>err_message := err_message e @ '' ('' @ path @ '')''\<rparr>)
         | Inr c \<Rightarrow> Inr c))"

text \<open>\<open>FixedCredentialProvider\<close> with its key id, key and expected device.\<close>

definition fixed_resolve :: "string \<Rightarrow> 8 word list \<Rightarrow> string \<Rightarrow> provider" where
  "fixed_resolve own_kid key expected device_id kid =
    (if expected \<noteq> [] \<and> device_id \<noteq> expected
     then Inl (make_error Dom_Authentication AuthRejected
            (''unexpected device_id '' @ CHR 0x27 # device_id @ CHR 0x27 # '' (configured: '' @ expected @ '')''))
     else if kid \<noteq> own_kid
     then Inl (make_error Dom_Authentication UnknownKeyId
            (''device offers kid '' @ CHR 0x27 # kid @ CHR 0x27 # '', configured is '' @ CHR 0x27 # own_kid @ [CHR 0x27]))
     else Inr key)"

section \<open>Security configuration\<close>

record security =
  sx_tls :: tls_credentials
  sx_has_tls :: bool
  sx_provider :: "provider option"
  sx_kid :: string
  sx_expected_device_id :: string
  sx_locked :: bool

definition make_security :: security where
  "make_security = \<lparr>sx_tls = empty_tls, sx_has_tls = False, sx_provider = None, sx_kid = [],
     sx_expected_device_id = [], sx_locked = False\<rparr>"

definition set_tls :: "filesystem \<Rightarrow> tls_credentials \<Rightarrow> security \<Rightarrow> unit result \<times> security" where
  "set_tls fs t s =
    (if sx_locked s then (Inl (make_error Dom_Configuration InvalidState ''TLS cannot be changed while connected''), s)
     else case tls_validate fs t of
       Inl e \<Rightarrow> (Inl e, s)
     | Inr _ \<Rightarrow> (Inr (), s\<lparr>sx_tls := t, sx_has_tls := True\<rparr>))"

definition set_hmac :: "hmac_credentials \<Rightarrow> security \<Rightarrow> unit result \<times> security" where
  "set_hmac c s =
    (if sx_locked s
     then (Inl (make_error Dom_Configuration InvalidState ''HMAC credentials cannot be changed while connected''), s)
     else (Inr (), s\<lparr>sx_kid := hc_kid c, sx_provider := Some (fixed_resolve (hc_kid c) (hc_key c) [])\<rparr>))"

definition set_credential_provider :: "provider option \<Rightarrow> security \<Rightarrow> unit result \<times> security" where
  "set_credential_provider p s =
    (if sx_locked s
     then (Inl (make_error Dom_Configuration InvalidState ''credential provider cannot be changed while connected''), s)
     else case p of
       None \<Rightarrow> (Inl (config_error MissingCredentials ''credential provider must not be null''), s)
     | Some q \<Rightarrow> (Inr (), s\<lparr>sx_provider := Some q\<rparr>))"

definition set_expected_device_id :: "string \<Rightarrow> security \<Rightarrow> security" where
  "set_expected_device_id n s = s\<lparr>sx_expected_device_id := n\<rparr>"

definition sec_lock :: "security \<Rightarrow> security" where
  "sec_lock s = s\<lparr>sx_locked := True\<rparr>"

definition sec_unlock :: "security \<Rightarrow> security" where
  "sec_unlock s = s\<lparr>sx_locked := False\<rparr>"

definition sec_validate :: "filesystem \<Rightarrow> security \<Rightarrow> unit result" where
  "sec_validate fs s =
    (if \<not> sx_has_tls s
     then Inl (config_error MissingCredentials (''no TLS credentials configured '' @ [CHR 0xE2, CHR 0x80, CHR 0x94] @
            '' the local device server requires mutual TLS''))
     else case tls_validate fs (sx_tls s) of
       Inl e \<Rightarrow> Inl e
     | Inr _ \<Rightarrow>
        (if sx_provider s = None
         then Inl (config_error MissingCredentials (''no HMAC credentials configured '' @ [CHR 0xE2, CHR 0x80, CHR 0x94] @
                '' the Fountain handshake cannot complete''))
         else Inr ()))"

section \<open>Laws\<close>

lemma decode_hex_loop_filter:
  "decode_hex_loop cs high bytes = decode_hex_loop (filter (\<lambda>c. \<not> isspace c) cs) high bytes"
  by (induction cs high bytes rule: decode_hex_loop.induct) (auto split: option.split)

lemma length_hex_bytes: "hex_bytes cs = Some ks \<Longrightarrow> length ks = length cs div 2"
  by (induction cs arbitrary: ks rule: hex_bytes.induct) (auto split: option.splits)

text \<open>On text without spaces the loop is the decoder of the key file, two characters at a time.\<close>

lemma decode_hex_loop_bytes:
  assumes "\<forall>c \<in> set cs. \<not> isspace c"
  shows "decode_hex_loop cs None bytes = Some (None, key) \<longleftrightarrow>
    (\<exists>ks. hex_bytes cs = Some ks \<and> key = bytes @ ks \<and> length cs = 2 * length ks)"
  using assms
proof (induction cs arbitrary: bytes rule: hex_bytes.induct)
  case (1 h l r)
  then show ?case by (auto split: option.splits)
qed (auto split: option.splits)

text \<open>
  The two readers of a key accept the same keys: for every content of a key file, the credentials
  built from it hold a key exactly if the key file loader of the protocol layer returns that key.
\<close>

theorem hex_key_readers_agree:
  "decode_hex_key text = Inr key \<longleftrightarrow> load_hmac_key_file path (Some text) = Inr key"
proof -
  let ?t = "filter (\<lambda>c. \<not> isspace c) text"
  have loop: "decode_hex_loop text None [] = Some (None, key) \<longleftrightarrow>
      (hex_bytes ?t = Some key \<and> length ?t = 2 * length key)"
    by (subst decode_hex_loop_filter, subst decode_hex_loop_bytes) auto
  have "decode_hex_key text = Inr key \<longleftrightarrow> decode_hex_loop text None [] = Some (None, key) \<and> length key = 32"
    by (auto simp: decode_hex_key_def split: option.splits)
  also have "\<dots> \<longleftrightarrow> hex_bytes ?t = Some key \<and> length ?t = 64 \<and> length key = 32"
    by (auto simp: loop)
  also have "\<dots> \<longleftrightarrow> load_hmac_key_file path (Some text) = Inr key"
    using length_hex_bytes [of ?t key] by (auto simp: load_hmac_key_file_def Let_def split: option.splits)
  finally show ?thesis .
qed

end
