(* ===== verification/Transport.thy ===== *)
theory Transport
  imports Security Events
begin

text \<open>
  The WebSocket transport (\<open>transport/wss_transport.hpp\<close>, \<open>transport/wss_transport.cpp\<close>). Every call into
  Asio, Beast or OpenSSL is an output of the operation that makes it, and its completion handler is an
  operation of its own, with the outcome as an argument. Callbacks are names: calling one is an output.
  The receive handler may call back into the transport before \<open>on_read\<close> goes on, so what it does is an
  argument of \<open>on_read\<close>.
\<close>

section \<open>Errors and TLS set-up\<close>

definition kMaxTxFrameSize :: nat where
  "kMaxTxFrameSize = 4096"

definition kMaxRxFrameSize :: nat where
  "kMaxRxFrameSize = 64 * 1024"

definition kMaxTxQueue :: nat where
  "kMaxTxQueue = 100"

definition retry :: "error \<Rightarrow> error" where
  "retry e = e\<lparr>err_retryable := True\<rparr>"

text \<open>An error code of the I/O library: its message, and the category or condition the code asks for.\<close>

record io_error =
  io_message :: string
  io_ssl :: bool
  io_rejected :: bool
  io_aborted :: bool

definition tls_error :: "io_error \<Rightarrow> error" where
  "tls_error ec =
    (if io_ssl ec then make_error Dom_Tls CertificateRejected (''TLS handshake failed: '' @ io_message ec)
     else retry (make_error Dom_Tls TlsHandshakeFailed (''TLS handshake failed: '' @ io_message ec)))"

definition ws_error :: "io_error \<Rightarrow> error" where
  "ws_error ec =
    (if io_rejected ec
     then make_error Dom_WebSocket WebSocketHandshakeFailed (''WebSocket handshake rejected: '' @ io_message ec)
     else retry (make_error Dom_WebSocket WebSocketHandshakeFailed (''WebSocket handshake failed: '' @ io_message ec)))"

text \<open>
  The OpenSSL context: each call either succeeds or throws with a message; \<open>ctx_key_matches\<close> is the
  check that the private key belongs to the certificate.
\<close>

record ssl_library =
  ctx_load_verify :: "string \<Rightarrow> string option"
  ctx_use_chain :: "string \<Rightarrow> string option"
  ctx_use_key :: "string \<Rightarrow> string option"
  ctx_key_matches :: "string \<Rightarrow> string \<Rightarrow> bool"

definition tls_setup_failed :: "string \<Rightarrow> error" where
  "tls_setup_failed m = config_error FileNotReadable (''TLS setup failed: '' @ m)"

text \<open>The context a connection gets: whether the peer is verified, and against which files.\<close>

record ssl_context =
  sc_verify_peer :: bool
  sc_credentials :: tls_credentials

definition make_ssl_context :: "filesystem \<Rightarrow> ssl_library \<Rightarrow> tls_credentials \<Rightarrow> ssl_context result" where
  "make_ssl_context fs lib c =
    (case tls_validate fs c of
       Inl e \<Rightarrow> Inl e
     | Inr _ \<Rightarrow>
        (case (if tc_disable_peer_verification c then None else ctx_load_verify lib (tc_ca_file c)) of
           Some m \<Rightarrow> Inl (tls_setup_failed m)
         | None \<Rightarrow>
            (if \<not> uses_mutual_tls c
             then Inr \<lparr>sc_verify_peer = \<not> tc_disable_peer_verification c, sc_credentials = c\<rparr>
             else case ctx_use_chain lib (tc_certificate_file c) of
               Some m \<Rightarrow> Inl (tls_setup_failed m)
             | None \<Rightarrow>
                (case ctx_use_key lib (tc_key_file c) of
                   Some m \<Rightarrow> Inl (tls_setup_failed m)
                 | None \<Rightarrow>
                    (if \<not> ctx_key_matches lib (tc_certificate_file c) (tc_key_file c)
                     then Inl (config_error MissingCredentials ''client key does not match the client certificate'')
                     else Inr \<lparr>sc_verify_peer = \<not> tc_disable_peer_verification c, sc_credentials = c\<rparr>)))))"

section \<open>State\<close>

datatype phase =
  Ph_Idle | Ph_Resolving | Ph_Connecting | Ph_TlsHandshake | Ph_WsHandshake | Ph_Open | Ph_Closing | Ph_Closed

record endpoint =
  ep_host :: string
  ep_port :: "16 word"
  ep_path :: string
  ep_subprotocol :: string

record wss_options =
  wo_connect_timeout :: int
  wo_idle_timeout :: int
  wo_user_agent :: string

record 'c transport =
  wt_endpoint :: endpoint
  wt_identity_policy :: identity_policy
  wt_options :: wss_options
  wt_phase :: phase
  wt_user_close :: bool
  wt_queue :: "(string \<times> 'c option) list"
  wt_write_active :: bool
  wt_open_completion :: "'c option"
  wt_receive_handler :: "'c option"
  wt_close_handler :: "'c option"

definition make_transport :: "endpoint \<Rightarrow> identity_policy \<Rightarrow> wss_options \<Rightarrow> 'c transport" where
  "make_transport ep policy options =
     \<lparr>wt_endpoint = ep, wt_identity_policy = policy, wt_options = options, wt_phase = Ph_Idle, wt_user_close = False,
      wt_queue = [], wt_write_active = False, wt_open_completion = None, wt_receive_handler = None,
      wt_close_handler = None\<rparr>"

text \<open>What the web socket handshake is configured with.\<close>

record ws_settings =
  ws_handshake_timeout :: int
  ws_idle_timeout :: "int option"
  ws_keep_alive_pings :: bool
  ws_read_message_max :: nat
  ws_host :: string
  ws_path :: string
  ws_agent :: string
  ws_subprotocol :: "string option"

datatype 'c tout =
    Resolve_timer int
  | Start_resolve string string
  | Cancel_resolve_timer
  | Cancel_resolver
  | Start_connect int
  | Start_tls "string option" "string option" int
  | Start_ws ws_settings
  | Start_read
  | Start_write string
  | Start_close nat string
  | Shutdown_socket
  | Opened 'c "unit result"
  | Sent 'c "unit result"
  | Received 'c string
  | Closed_call 'c error

definition is_open :: "'c transport \<Rightarrow> bool" where
  "is_open t \<longleftrightarrow> wt_phase t = Ph_Open"

section \<open>End of a connection\<close>

definition fail_queue :: "error \<Rightarrow> (string \<times> 'c option) list \<Rightarrow> 'c tout list" where
  "fail_queue e q = concat (map (\<lambda>(f, c). case c of None \<Rightarrow> [] | Some h \<Rightarrow> [Sent h (Inl e)]) q)"

definition finish :: "error \<Rightarrow> 'c transport \<Rightarrow> 'c transport \<times> 'c tout list" where
  "finish e t =
    (let was_open = (wt_phase t = Ph_Open \<or> wt_phase t = Ph_Closing) in
     if wt_phase t = Ph_Closed then (t, [])
     else
       let outs = Shutdown_socket # fail_queue e (wt_queue t);
           t1 = t\<lparr>wt_phase := Ph_Closed, wt_queue := []\<rparr> in
       case wt_open_completion t of
         Some c \<Rightarrow> (t1\<lparr>wt_open_completion := None\<rparr>, outs @ [Opened c (Inl e)])
       | None \<Rightarrow>
          (case (if was_open then wt_close_handler t else None) of
             Some h \<Rightarrow> (t1\<lparr>wt_close_handler := None\<rparr>, outs @ [Closed_call h e])
           | None \<Rightarrow> (t1, outs)))"

section \<open>Opening\<close>

definition async_open :: "'c option \<Rightarrow> 'c transport \<Rightarrow> 'c transport \<times> 'c tout list" where
  "async_open completion t =
    (if wt_phase t \<noteq> Ph_Idle
     then (t, case completion of None \<Rightarrow> [] | Some c \<Rightarrow>
            [Opened c (Inl (internal_error (''transport already used '' @ [CHR 0xE2, CHR 0x80, CHR 0x94] @
               '' create a fresh instance per attempt'')))])
     else (t\<lparr>wt_open_completion := completion, wt_phase := Ph_Resolving\<rparr>,
           [Resolve_timer (wo_connect_timeout (wt_options t)),
            Start_resolve (ep_host (wt_endpoint t)) (nat_dec (unat (ep_port (wt_endpoint t))))]))"

definition cancel :: "'c transport \<Rightarrow> 'c transport \<times> 'c tout list" where
  "cancel t =
    (if wt_phase t = Ph_Closed \<or> wt_phase t = Ph_Closing then (t, [])
     else let (t', outs) = finish (cancelled_error ''connect'') (t\<lparr>wt_user_close := True\<rparr>)
          in (t', Cancel_resolve_timer # Cancel_resolver # outs))"

definition on_resolve :: "io_error option \<Rightarrow> 'c transport \<Rightarrow> 'c transport \<times> 'c tout list" where
  "on_resolve ec t =
    (case ec of
       Some e \<Rightarrow>
         (let (t', outs) = finish (retry (make_error Dom_Dns ResolveFailed
                ((if io_aborted e then ''DNS resolve timed out: '' else ''DNS resolve failed: '') @ io_message e))) t
          in (t', Cancel_resolve_timer # outs))
     | None \<Rightarrow> (t\<lparr>wt_phase := Ph_Connecting\<rparr>, [Cancel_resolve_timer, Start_connect (wo_connect_timeout (wt_options t))]))"

text \<open>\<open>host_is_ip\<close> is the test of \<open>asio::ip::make_address\<close>.\<close>

definition on_connect :: "bool \<Rightarrow> io_error option \<Rightarrow> 'c transport \<Rightarrow> 'c transport \<times> 'c tout list" where
  "on_connect host_is_ip ec t =
    (case ec of
       Some e \<Rightarrow> finish (retry (make_error Dom_Tcp ConnectFailed (''TCP connect failed: '' @ io_message e))) t
     | None \<Rightarrow>
        (t\<lparr>wt_phase := Ph_TlsHandshake\<rparr>,
         [Start_tls (if host_is_ip then None else Some (ep_host (wt_endpoint t)))
            (if wt_identity_policy t = VerifyDnsName then Some (ep_host (wt_endpoint t)) else None)
            (wo_connect_timeout (wt_options t))]))"

definition ws_settings_of :: "'c transport \<Rightarrow> ws_settings" where
  "ws_settings_of t =
    (let o1 = wt_options t; ep = wt_endpoint t in
     \<lparr>ws_handshake_timeout = wo_connect_timeout o1,
      ws_idle_timeout = (if 0 < wo_idle_timeout o1 then Some (wo_idle_timeout o1) else None),
      ws_keep_alive_pings = (0 < wo_idle_timeout o1),
      ws_read_message_max = kMaxRxFrameSize,
      ws_host = ep_host ep @ '':'' @ nat_dec (unat (ep_port ep)),
      ws_path = ep_path ep,
      ws_agent = wo_user_agent o1,
      ws_subprotocol = (if ep_subprotocol ep = [] then None else Some (ep_subprotocol ep))\<rparr>)"

definition on_tls_handshake :: "io_error option \<Rightarrow> 'c transport \<Rightarrow> 'c transport \<times> 'c tout list" where
  "on_tls_handshake ec t =
    (case ec of
       Some e \<Rightarrow> finish (tls_error e) t
     | None \<Rightarrow> (t\<lparr>wt_phase := Ph_WsHandshake\<rparr>, [Start_ws (ws_settings_of t)]))"

definition on_ws_handshake :: "io_error option \<Rightarrow> 'c transport \<Rightarrow> 'c transport \<times> 'c tout list" where
  "on_ws_handshake ec t =
    (case ec of
       Some e \<Rightarrow> finish (ws_error e) t
     | None \<Rightarrow>
        (t\<lparr>wt_phase := Ph_Open, wt_open_completion := None\<rparr>,
         (case wt_open_completion t of None \<Rightarrow> [] | Some c \<Rightarrow> [Opened c (Inr ())]) @ [Start_read]))"

section \<open>Sending\<close>

definition begin_write :: "'c transport \<Rightarrow> 'c transport \<times> 'c tout list" where
  "begin_write t = (t\<lparr>wt_write_active := True\<rparr>, [Start_write (fst (hd (wt_queue t)))])"

definition refuse_send :: "'c option \<Rightarrow> error \<Rightarrow> 'c tout list" where
  "refuse_send completion e = (case completion of None \<Rightarrow> [] | Some c \<Rightarrow> [Sent c (Inl e)])"

definition async_send :: "string \<Rightarrow> 'c option \<Rightarrow> 'c transport \<Rightarrow> 'c transport \<times> 'c tout list" where
  "async_send frame completion t =
    (if wt_phase t \<noteq> Ph_Open
     then (t, refuse_send completion (make_error Dom_Disconnected NotConnected ''transport is not open''))
     else if kMaxTxFrameSize < length frame
     then (t, refuse_send completion (make_error Dom_Protocol FrameTooLarge
            (''frame of '' @ nat_dec (length frame) @ '' bytes exceeds the device limit of '' @ nat_dec kMaxTxFrameSize)))
     else if kMaxTxQueue \<le> length (wt_queue t)
     then (t, refuse_send completion (make_error Dom_RateLimit SendQueueFull ''transport send queue is full''))
     else
       let t' = t\<lparr>wt_queue := wt_queue t @ [(frame, completion)]\<rparr>
       in if wt_write_active t then (t', []) else begin_write t')"

definition write_failed :: "io_error \<Rightarrow> error" where
  "write_failed e = make_error Dom_Disconnected TransportClosed (''write failed: '' @ io_message e)"

text \<open>A successful write takes the front of the queue, which must not be empty.\<close>

definition on_write :: "io_error option \<Rightarrow> 'c transport \<Rightarrow> ('c transport \<times> 'c tout list) exec" where
  "on_write ec t0 =
    (let t = t0\<lparr>wt_write_active := False\<rparr> in
     case ec of
       Some e \<Rightarrow>
         (let (t1, outs) = (case wt_queue t of
                              [] \<Rightarrow> (t, [])
                            | (f, c) # q \<Rightarrow> (t\<lparr>wt_queue := q\<rparr>, refuse_send c (write_failed e)));
              (t2, outs') = (if wt_user_close t then (t1, []) else finish (retry (write_failed e)) t1)
          in Inr (t2, outs @ outs'))
     | None \<Rightarrow>
        (case wt_queue t of
           [] \<Rightarrow> Inl (Undefined_behaviour ''front of an empty queue'')
         | (f, c) # q \<Rightarrow>
            (let t1 = t\<lparr>wt_queue := q\<rparr>;
                 outs = (case c of None \<Rightarrow> [] | Some h \<Rightarrow> [Sent h (Inr ())]);
                 (t2, outs') = (if q \<noteq> [] \<and> wt_phase t1 = Ph_Open then begin_write t1 else (t1, []))
             in Inr (t2, outs @ outs'))))"

section \<open>Closing\<close>

definition close :: "nat \<Rightarrow> string \<Rightarrow> 'c transport \<Rightarrow> 'c transport \<times> 'c tout list" where
  "close code reason t0 =
    (if wt_phase t0 = Ph_Closed \<or> wt_phase t0 = Ph_Closing then (t0, [])
     else
       let t = t0\<lparr>wt_user_close := True\<rparr> in
       if wt_phase t \<noteq> Ph_Open
       then let (t', outs) = finish (make_error Dom_Disconnected TransportClosed (''closed during connect: '' @ reason)) t
            in (t', Cancel_resolve_timer # Cancel_resolver # outs)
       else (t\<lparr>wt_phase := Ph_Closing\<rparr>, [Start_close code reason]))"

definition on_close :: "'c transport \<Rightarrow> 'c transport \<times> 'c tout list" where
  "on_close t = finish (make_error Dom_Disconnected TransportClosed ''connection closed'') t"

section \<open>Receiving\<close>

datatype 'c client_op = Op_send string "'c option" | Op_close nat string | Op_cancel

fun run_client_op :: "'c client_op \<Rightarrow> 'c transport \<Rightarrow> 'c transport \<times> 'c tout list" where
  "run_client_op (Op_send f c) t = async_send f c t"
| "run_client_op (Op_close code reason) t = close code reason t"
| "run_client_op Op_cancel t = cancel t"

fun client_ops :: "'c client_op list \<Rightarrow> 'c transport \<Rightarrow> 'c transport \<times> 'c tout list" where
  "client_ops [] t = (t, [])"
| "client_ops (x # xs) t =
    (let (t1, o1) = run_client_op x t; (t2, o2) = client_ops xs t1 in (t2, o1 @ o2))"

datatype received = Rx_closed | Rx_error io_error | Rx_text string | Rx_binary

definition on_read :: "'c client_op list \<Rightarrow> received \<Rightarrow> 'c transport \<Rightarrow> 'c transport \<times> 'c tout list" where
  "on_read reaction rx t =
    (case rx of
       Rx_closed \<Rightarrow> finish (make_error Dom_Disconnected TransportClosed ''peer closed the connection'') t
     | Rx_error e \<Rightarrow>
        (if wt_user_close t then (t, [])
         else finish (retry (make_error Dom_Disconnected TransportClosed (''read failed: '' @ io_message e))) t)
     | Rx_text frame \<Rightarrow>
        (case wt_receive_handler t of
           None \<Rightarrow> (t, if wt_phase t = Ph_Open then [Start_read] else [])
         | Some h \<Rightarrow>
            (let (t', outs) = client_ops reaction t
             in (t', Received h frame # outs @ (if wt_phase t' = Ph_Open then [Start_read] else []))))
     | Rx_binary \<Rightarrow> (t, if wt_phase t = Ph_Open then [Start_read] else []))"

definition set_receive_handler :: "'c option \<Rightarrow> 'c transport \<Rightarrow> 'c transport" where
  "set_receive_handler h t = t\<lparr>wt_receive_handler := h\<rparr>"

definition set_close_handler :: "'c option \<Rightarrow> 'c transport \<Rightarrow> 'c transport" where
  "set_close_handler h t = t\<lparr>wt_close_handler := h\<rparr>"

end
