(* ===== verification/Client.thy ===== *)
theory Client
  imports Session Poller Transport Blocking
begin

text \<open>
  The client (\<open>client.hpp\<close>, \<open>client_options.hpp\<close>, \<open>client.cpp\<close>): it composes security configuration,
  transport, session, datapoint manager, poller and event bus. Everything runs on one IO thread; what
  other threads post and what timers deliver waits in \<open>cl_tasks\<close>, in order. Handlers and completions
  are names, calling one is an output, and so is every effect of the transport on the network. A
  dereferenced null pointer or empty optional is undefined behaviour.
\<close>

section \<open>Options and state\<close>

record reconnect_policy =
  rp_enabled :: bool
  rp_initial_delay :: int
  rp_max_delay :: int
  rp_authentication_delay :: int
  rp_jitter :: bool

record client_options =
  op_connect_timeout :: int
  op_transport_idle_timeout :: int
  op_handshake_timeout :: int
  op_default_request_timeout :: int
  op_reconnect :: reconnect_policy
  op_rate_budget :: rate_budget
  op_enable_test_commands :: bool

definition default_options :: client_options where
  "default_options =
     \<lparr>op_connect_timeout = 10, op_transport_idle_timeout = 60, op_handshake_timeout = 15000,
      op_default_request_timeout = 10000,
      op_reconnect = \<lparr>rp_enabled = True, rp_initial_delay = 1, rp_max_delay = 60, rp_authentication_delay = 300,
                      rp_jitter = True\<rparr>,
      op_rate_budget = default_budget, op_enable_test_commands = False\<rparr>"

text \<open>Response handlers: the user's, and those the poller passes to the manager.\<close>

datatype 'h chandler = User_handler 'h | Poll_handler "string list" | Keepalive_handler

text \<open>Work posted to the IO thread and timer waits that have expired.\<close>

datatype 'h task =
    Submit_task request_spec "'h chandler"
  | Send_task string json
  | Connect_task "'h option"
  | Disconnect_task "'h option"
  | Reconnect_task
  | Tick_task

record 'h client =
  cl_endpoint :: endpoint
  cl_options :: client_options
  cl_security :: security
  cl_ota_policy :: "ota_policy option"
  cl_tasks :: "'h task list"
  cl_transport :: "unit transport option"
  cl_dialer :: "unit transport option"
  cl_session :: "'h chandler session option"
  cl_tick_timer :: bool
  cl_reconnect_timer :: "int option"
  cl_state :: client_state
  cl_info :: "connection_info option"
  cl_connect_completions :: "'h list"
  cl_disconnect_waiters :: "'h list"
  cl_current_backoff :: int
  cl_user_disconnect :: bool
  cl_was_ready :: bool
  cl_session_failure :: "error option"
  cl_datapoints :: "'h manager"
  cl_poller :: poller
  cl_events :: "'h event_bus"

definition make_client :: "endpoint \<Rightarrow> 'h client" where
  "make_client ep =
     \<lparr>cl_endpoint = ep, cl_options = default_options, cl_security = make_security, cl_ota_policy = None,
      cl_tasks = [], cl_transport = None, cl_dialer = None, cl_session = None, cl_tick_timer = False,
      cl_reconnect_timer = None, cl_state = Disconnected_state, cl_info = None, cl_connect_completions = [],
      cl_disconnect_waiters = [], cl_current_backoff = 0, cl_user_disconnect = False, cl_was_ready = False,
      cl_session_failure = None, cl_datapoints = make_manager, cl_poller = make_poller,
      cl_events = make_event_bus\<rparr>"

datatype 'h cout =
    Net "unit tout"
  | Connect_done 'h "connection_info result"
  | Disconnect_done 'h
  | Handler_done 'h "jobj result"
  | Change_call 'h change
  | Event_call 'h event

type_synonym 'h cstep = "'h client \<Rightarrow> ('h client \<times> 'h cout list) exec"

text \<open>
  What a step reads from outside: the environment of the session (its \<open>en_send\<close> is replaced by the
  client's own transport), the file system and TLS library, the address test, and the draw of the
  random generator for an upper bound.
\<close>

record client_env =
  ce_env :: env
  ce_files :: filesystem
  ce_ssl :: ssl_library
  ce_is_ip :: "string \<Rightarrow> bool"
  ce_random :: "int \<Rightarrow> int"

definition andthen :: "'h cstep \<Rightarrow> 'h cstep \<Rightarrow> 'h cstep" where
  "andthen f g c = bindE (f c) (\<lambda>(c1, o1). bindE (g c1) (\<lambda>(c2, o2). Inr (c2, o1 @ o2)))"

definition modify :: "('h client \<Rightarrow> 'h client) \<Rightarrow> 'h cstep" where
  "modify f c = Inr (f c, [])"

definition null_pointer :: "'a exec" where
  "null_pointer = Inl (Undefined_behaviour ''null pointer'')"

section \<open>State changes and completions\<close>

definition enter_state :: "client_state \<Rightarrow> connection_info option \<Rightarrow> error option \<Rightarrow> 'h cstep" where
  "enter_state next ready_info cause c =
    (let previous = cl_state c; c' = c\<lparr>cl_state := next\<rparr> in
     if previous = next then Inr (c', [])
     else Inr (c', map (\<lambda>(h, e). Event_call h e)
            (publish (Ev_state \<lparr>sc_previous = previous, sc_current = next, sc_info = ready_info, sc_cause = cause\<rparr>)
               (cl_events c))))"

definition complete_connect :: "connection_info result \<Rightarrow> 'h cstep" where
  "complete_connect r c =
     Inr (c\<lparr>cl_connect_completions := []\<rparr>, map (\<lambda>h. Connect_done h r) (cl_connect_completions c))"

definition complete_disconnect :: "'h cstep" where
  "complete_disconnect c =
     Inr (c\<lparr>cl_disconnect_waiters := []\<rparr>, map Disconnect_done (cl_disconnect_waiters c))"

definition unlock_security :: "'h client \<Rightarrow> 'h client" where
  "unlock_security c = c\<lparr>cl_security := sec_unlock (cl_security c)\<rparr>"

definition arm_tick :: "'h client \<Rightarrow> 'h client" where
  "arm_tick c = c\<lparr>cl_tick_timer := True\<rparr>"

section \<open>Loss of the connection\<close>

definition next_backoff :: "reconnect_policy \<Rightarrow> int \<Rightarrow> int" where
  "next_backoff p current = (if current = 0 then rp_initial_delay p else min (rp_max_delay p) (current * 2))"

definition with_jitter :: "reconnect_policy \<Rightarrow> (int \<Rightarrow> int) \<Rightarrow> int \<Rightarrow> int" where
  "with_jitter p draw delay = (if rp_jitter p \<and> 1 < delay then delay + draw (delay div 4) else delay)"

definition schedule_reconnect :: "client_env \<Rightarrow> error \<Rightarrow> 'h client \<Rightarrow> int \<times> 'h client" where
  "schedule_reconnect ce cause c =
    (let p = op_reconnect (cl_options c) in
     if err_domain cause = Dom_Authentication then (rp_authentication_delay p, c)
     else let b = next_backoff p (cl_current_backoff c)
          in (with_jitter p (ce_random ce) b, c\<lparr>cl_current_backoff := b\<rparr>))"

definition handle_connection_lost :: "client_env \<Rightarrow> error \<Rightarrow> 'h cstep" where
  "handle_connection_lost ce cause c =
    (if cl_user_disconnect c
     then andthen (modify unlock_security)
            (andthen (enter_state Disconnected_state None None)
              (andthen (complete_connect (Inl (cancelled_error ''connect''))) complete_disconnect)) c
     else andthen (complete_connect (Inl cause)) (\<lambda>c.
       if \<not> cl_was_ready c \<or> \<not> rp_enabled (op_reconnect (cl_options c))
       then andthen (modify unlock_security) (enter_state Disconnected_state None (Some cause)) c
       else let (delay, c1) = schedule_reconnect ce cause c
            in andthen (enter_state Reconnecting None (Some cause))
                 (modify (\<lambda>c. c\<lparr>cl_reconnect_timer := Some delay\<rparr>)) c1) c)"

section \<open>Callbacks of the session\<close>

definition answer_handler :: "client_env \<Rightarrow> 'h chandler \<Rightarrow> jobj result \<Rightarrow> 'h cstep" where
  "answer_handler ce h r c =
    (case h of
       User_handler u \<Rightarrow> Inr (c, [Handler_done u r])
     | Poll_handler chunk \<Rightarrow>
         bindE (read_response (en_now (ce_env ce)) PeriodicPoll r (cl_datapoints c)) (\<lambda>(res, m, calls).
           Inr (c\<lparr>cl_datapoints := m, cl_poller := poll_response chunk res (cl_poller c)\<rparr>,
                map (\<lambda>(u, ch). Change_call u ch) calls))
     | Keepalive_handler \<Rightarrow>
         bindE (read_response (en_now (ce_env ce)) PeriodicPoll r (cl_datapoints c)) (\<lambda>(res, m, calls).
           Inr (c\<lparr>cl_datapoints := m\<rparr>, map (\<lambda>(u, ch). Change_call u ch) calls)))"

definition on_ready :: "connection_info \<Rightarrow> 'h cstep" where
  "on_ready ready =
     andthen (modify (\<lambda>c. c\<lparr>cl_info := Some ready, cl_was_ready := True, cl_current_backoff := 0\<rparr>))
       (andthen (enter_state Ready (Some ready) None)
         (andthen (modify (\<lambda>c. c\<lparr>cl_poller := on_reconnected (cl_poller c)\<rparr>))
           (complete_connect (Inr ready))))"

text \<open>
  The callbacks, and the two functions the session was built with when there is no transport: then
  nothing is sent and nothing is closed.
\<close>

fun callback :: "client_env \<Rightarrow> 'h chandler sout \<Rightarrow> 'h cstep" where
  "callback ce (Answer h r) c = answer_handler ce h r c"
| "callback ce (On_ready info) c = on_ready info c"
| "callback ce (On_failed e) c = Inr (c\<lparr>cl_session_failure := Some e\<rparr>, [])"
| "callback ce (On_dp_report obj sq) c =
    (let (snap, m, calls) = ingest_report (en_now (ce_env ce)) obj UnsolicitedReport sq (cl_datapoints c)
     in Inr (c\<lparr>cl_datapoints := m\<rparr>, map (\<lambda>(u, ch). Change_call u ch) calls))"
| "callback ce (On_event e) c = Inr (c, map (\<lambda>(h, e). Event_call h e) (publish e (cl_events c)))"
| "callback ce (Frame f) c = Inr (c, [])"
| "callback ce (Close_connection code reason) c = Inr (c, [])"

fun callbacks :: "client_env \<Rightarrow> 'h chandler sout list \<Rightarrow> 'h cstep" where
  "callbacks ce [] c = Inr (c, [])"
| "callbacks ce (x # xs) c = andthen (callback ce x) (callbacks ce xs) c"

definition handle_transport_closed :: "client_env \<Rightarrow> error \<Rightarrow> 'h cstep" where
  "handle_transport_closed ce e c0 =
    (let c = c0\<lparr>cl_tick_timer := False, cl_transport := None\<rparr>;
         cause = (case cl_session_failure c of Some f \<Rightarrow> f | None \<Rightarrow> e)
     in andthen (\<lambda>c. case cl_session c of
            None \<Rightarrow> Inr (c, [])
          | Some s \<Rightarrow> (let (s', outs) = on_transport_closed cause s in callbacks ce outs (c\<lparr>cl_session := Some s'\<rparr>)))
        (andthen (modify (\<lambda>c. c\<lparr>cl_datapoints := mark_all_stale (cl_datapoints c)\<rparr>))
          (handle_connection_lost ce cause)) c)"

section \<open>Callbacks of the transport\<close>

text \<open>The session's environment: a frame is accepted if the transport is there and open.\<close>

definition session_env :: "client_env \<Rightarrow> 'h client \<Rightarrow> env" where
  "session_env ce c = (ce_env ce)\<lparr>en_send := (\<lambda>f. case cl_transport c of None \<Rightarrow> False | Some t \<Rightarrow> is_open t)\<rparr>"

definition on_opened :: "client_env \<Rightarrow> unit transport \<Rightarrow> unit result \<Rightarrow> 'h cstep" where
  "on_opened ce attempt opened c0 =
    (let c = c0\<lparr>cl_dialer := None\<rparr> in
     case opened of
       Inl e \<Rightarrow> handle_connection_lost ce e c
     | Inr _ \<Rightarrow>
        andthen (modify (\<lambda>c. c\<lparr>cl_transport := Some (set_close_handler (Some ()) (set_receive_handler (Some ()) attempt))\<rparr>))
          (andthen (enter_state FountainHandshaking None None)
            (andthen (\<lambda>c. case cl_session c of
                 None \<Rightarrow> null_pointer
               | Some s \<Rightarrow> bindE (on_transport_open (session_env ce c) s) (\<lambda>s'. Inr (c\<lparr>cl_session := Some s'\<rparr>, [])))
              (modify arm_tick))) c)"

text \<open>
  What a transport did, in order: its calls of the open completion and of the close handler are the
  client's, everything else goes to the network. \<open>t\<close> is the transport that did it.
\<close>

fun route :: "client_env \<Rightarrow> unit transport \<Rightarrow> unit tout list \<Rightarrow> 'h cstep" where
  "route ce t [] c = Inr (c, [])"
| "route ce t (x # xs) c =
     andthen (\<lambda>c. case x of
         Opened u r \<Rightarrow> on_opened ce t r c
       | Closed_call u e \<Rightarrow> handle_transport_closed ce e c
       | _ \<Rightarrow> Inr (c, [Net x])) (route ce t xs) c"

definition dialer_event :: "client_env \<Rightarrow> (unit transport \<Rightarrow> unit transport \<times> unit tout list) \<Rightarrow> 'h cstep" where
  "dialer_event ce f c =
    (case cl_dialer c of
       None \<Rightarrow> Inr (c, [])
     | Some t \<Rightarrow> (let (t', outs) = f t in route ce t' outs (c\<lparr>cl_dialer := Some t'\<rparr>)))"

definition transport_event :: "client_env \<Rightarrow> (unit transport \<Rightarrow> (unit transport \<times> unit tout list) exec) \<Rightarrow> 'h cstep" where
  "transport_event ce f c =
    (case cl_transport c of
       None \<Rightarrow> Inr (c, [])
     | Some t \<Rightarrow> bindE (f t) (\<lambda>(t', outs). route ce t' outs (c\<lparr>cl_transport := Some t'\<rparr>)))"

text \<open>The session's outputs while the transport may be there.\<close>

definition send_frame :: "client_env \<Rightarrow> string \<Rightarrow> 'h cstep" where
  "send_frame ce frame c =
    (case cl_transport c of
       None \<Rightarrow> Inr (c, [])
     | Some t \<Rightarrow> if is_open t then transport_event ce (\<lambda>t. Inr (async_send frame (Some ()) t)) c else Inr (c, []))"

fun session_out :: "client_env \<Rightarrow> 'h chandler sout \<Rightarrow> 'h cstep" where
  "session_out ce (Frame f) c = send_frame ce f c"
| "session_out ce (Close_connection code reason) c = transport_event ce (\<lambda>t. Inr (close code reason t)) c"
| "session_out ce x c = callback ce x c"

fun session_outs :: "client_env \<Rightarrow> 'h chandler sout list \<Rightarrow> 'h cstep" where
  "session_outs ce [] c = Inr (c, [])"
| "session_outs ce (x # xs) c = andthen (session_out ce x) (session_outs ce xs) c"

text \<open>A call of the session, which must be there.\<close>

definition with_session ::
  "client_env \<Rightarrow> (env \<Rightarrow> 'h chandler session \<Rightarrow> 'h chandler sstep) \<Rightarrow> 'h cstep" where
  "with_session ce f c =
    (case cl_session c of
       None \<Rightarrow> null_pointer
     | Some s \<Rightarrow> bindE (f (session_env ce c) s) (\<lambda>(s', outs). session_outs ce outs (c\<lparr>cl_session := Some s'\<rparr>)))"

section \<open>Connecting\<close>

definition ensure_session :: "'h client \<Rightarrow> 'h client" where
  "ensure_session c =
    (case cl_session c of
       Some _ \<Rightarrow> c
     | None \<Rightarrow>
        (let sec = cl_security c; opts = cl_options c in
         c\<lparr>cl_session := Some (make_session
             \<lparr>cf_credentials = sx_provider sec, cf_kid = (if sx_kid sec = [] then ''1'' else sx_kid sec),
              cf_expected_device_id = sx_expected_device_id sec, cf_ota_policy = cl_ota_policy c,
              cf_handshake_timeout = op_handshake_timeout opts,
              cf_default_request_timeout = op_default_request_timeout opts,
              cf_budget = op_rate_budget opts\<rparr>)\<rparr>))"

definition dial :: "client_env \<Rightarrow> 'h cstep" where
  "dial ce c =
    (let t = make_transport (cl_endpoint c) (tc_policy (sx_tls (cl_security c)))
               \<lparr>wo_connect_timeout = op_connect_timeout (cl_options c),
                wo_idle_timeout = op_transport_idle_timeout (cl_options c), wo_user_agent = ''fountainer/0.2''\<rparr>
     in dialer_event ce (async_open (Some ())) (c\<lparr>cl_dialer := Some t\<rparr>))"

definition client_closing :: error where
  "client_closing = make_error Dom_Internal InvalidState ''client is closing''"

definition start_attempt :: "client_env \<Rightarrow> 'h cstep" where
  "start_attempt ce c0 =
    (let c = c0\<lparr>cl_reconnect_timer := None\<rparr> in
     case sec_validate (ce_files ce) (cl_security c) of
       Inl e \<Rightarrow> complete_connect (Inl e) c
     | Inr _ \<Rightarrow>
        (let c1 = c\<lparr>cl_security := sec_lock (cl_security c), cl_user_disconnect := False, cl_session_failure := None,
                    cl_session := None\<rparr> in
         case make_ssl_context (ce_files ce) (ce_ssl ce) (sx_tls (cl_security c1)) of
           Inl e \<Rightarrow> complete_connect (Inl e) c1
         | Inr _ \<Rightarrow>
            andthen (modify ensure_session) (andthen (enter_state Resolving None None) (dial ce)) c1))"

definition begin_connect :: "client_env \<Rightarrow> 'h option \<Rightarrow> 'h cstep" where
  "begin_connect ce completion c =
    (if cl_state c = Ready
     then case completion of
            None \<Rightarrow> Inr (c, [])
          | Some h \<Rightarrow> (case cl_info c of None \<Rightarrow> null_pointer | Some i \<Rightarrow> Inr (c, [Connect_done h (Inr i)]))
     else if cl_state c = Closing
     then Inr (c, case completion of None \<Rightarrow> [] | Some h \<Rightarrow> [Connect_done h (Inl client_closing)])
     else
       let c1 = c\<lparr>cl_connect_completions := cl_connect_completions c @ (case completion of None \<Rightarrow> [] | Some h \<Rightarrow> [h])\<rparr> in
       if cl_state c \<noteq> Disconnected_state \<and> cl_state c \<noteq> Reconnecting then Inr (c1, [])
       else start_attempt ce c1)"

section \<open>Disconnecting\<close>

definition kCloseNormal :: nat where
  "kCloseNormal = 1000"

definition request_disconnect :: "client_env \<Rightarrow> 'h option \<Rightarrow> 'h cstep" where
  "request_disconnect ce finished c0 =
    (let c = c0\<lparr>cl_user_disconnect := True, cl_poller := poll_stop (cl_poller c0), cl_reconnect_timer := None,
                cl_tick_timer := False\<rparr>;
         waiting_c = c\<lparr>cl_disconnect_waiters := cl_disconnect_waiters c @ (case finished of None \<Rightarrow> [] | Some h \<Rightarrow> [h])\<rparr>
     in if cl_transport c \<noteq> None
        then transport_event ce (\<lambda>t. Inr (close kCloseNormal ''client shutdown'' t)) waiting_c
        else if cl_dialer c \<noteq> None then dialer_event ce cancel waiting_c
        else andthen (modify unlock_security)
               (andthen (enter_state Disconnected_state None None)
                 (\<lambda>c. Inr (c, case finished of None \<Rightarrow> [] | Some h \<Rightarrow> [Disconnect_done h]))) c)"

section \<open>The IO thread\<close>

definition post :: "'h task \<Rightarrow> 'h client \<Rightarrow> 'h client" where
  "post k c = c\<lparr>cl_tasks := cl_tasks c @ [k]\<rparr>"

definition not_connected :: error where
  "not_connected = make_error Dom_Disconnected NotConnected ''client is not connected''"

definition run_submit :: "client_env \<Rightarrow> request_spec \<Rightarrow> 'h chandler \<Rightarrow> 'h cstep" where
  "run_submit ce spec h c =
    (if cl_session c = None then answer_handler ce h (Inl not_connected) c
     else with_session ce (\<lambda>en s. request en spec (Some h) s) c)"

definition run_send :: "client_env \<Rightarrow> string \<Rightarrow> json \<Rightarrow> 'h cstep" where
  "run_send ce ty body c =
    (if cl_session c = None then Inr (c, [])
     else with_session ce (\<lambda>en s. bindE (send_message en ty body [] (se_core s)) (\<lambda>(ok, core, frames).
            Inr (s\<lparr>se_core := core\<rparr>, map Frame frames))) c)"

fun poll_task :: "poll_request \<Rightarrow> 'h task" where
  "poll_task (Poll_read chunk spec) = Submit_task spec (Poll_handler chunk)"
| "poll_task (Poll_keepalive spec) = Submit_task spec Keepalive_handler"

text \<open>The poller's reads go through the manager, which posts them.\<close>

definition tick_poller :: "client_env \<Rightarrow> 'h cstep" where
  "tick_poller ce c =
    (if cl_state c \<noteq> Ready then Inr (c, [])
     else case cl_session c of
       None \<Rightarrow> null_pointer
     | Some s \<Rightarrow>
        bindE (poll_tick (en_now (ce_env ce)) (ss_last_tx (se_core s)) (cl_poller c)) (\<lambda>(p, reqs).
          Inr (fold post (map poll_task reqs) (c\<lparr>cl_poller := p\<rparr>), [])))"

definition run_tick :: "client_env \<Rightarrow> 'h cstep" where
  "run_tick ce c =
    (case cl_transport c of
       None \<Rightarrow> Inr (c, [])
     | Some t \<Rightarrow>
        (if \<not> is_open t then Inr (c, [])
         else andthen (with_session ce (\<lambda>en s. session_tick en (en_now en) s))
                (andthen (tick_poller ce) (modify arm_tick)) c))"

fun run_task :: "client_env \<Rightarrow> 'h task \<Rightarrow> 'h cstep" where
  "run_task ce (Submit_task spec h) c = run_submit ce spec h c"
| "run_task ce (Send_task ty body) c = run_send ce ty body c"
| "run_task ce (Connect_task completion) c = begin_connect ce completion c"
| "run_task ce (Disconnect_task completion) c = request_disconnect ce completion c"
| "run_task ce Reconnect_task c = (if cl_user_disconnect c then Inr (c, []) else begin_connect ce None c)"
| "run_task ce Tick_task c = run_tick ce c"

text \<open>
  A frame from the device goes to the session; the transport reads on if it is still open then. The
  other outcomes of a read are the transport's own.
\<close>

definition run_read :: "client_env \<Rightarrow> received \<Rightarrow> 'h cstep" where
  "run_read ce rx c =
    (case cl_transport c of
       None \<Rightarrow> Inr (c, [])
     | Some t \<Rightarrow>
        (case (rx, wt_receive_handler t) of
           (Rx_text frame, Some u) \<Rightarrow>
             andthen (with_session ce (\<lambda>en s. on_text en frame s))
               (\<lambda>c. Inr (c, case cl_transport c of
                   None \<Rightarrow> []
                 | Some t' \<Rightarrow> if is_open t' then [Net Start_read] else [])) c
         | _ \<Rightarrow> transport_event ce (\<lambda>t. Inr (on_read [] rx t)) c))"

datatype 'h action =
    Post "'h task"
  | Run_next
  | Reconnect_expires
  | Tick_expires
  | Io_resolved "io_error option"
  | Io_connected "io_error option"
  | Io_tls_done "io_error option"
  | Io_ws_done "io_error option"
  | Io_read_done received
  | Io_write_done "io_error option"
  | Io_close_done

fun client_step :: "client_env \<Rightarrow> 'h action \<Rightarrow> 'h cstep" where
  "client_step ce (Post k) c = Inr (post k c, [])"
| "client_step ce Run_next c =
    (case cl_tasks c of [] \<Rightarrow> Inr (c, []) | k # ks \<Rightarrow> run_task ce k (c\<lparr>cl_tasks := ks\<rparr>))"
| "client_step ce Reconnect_expires c =
    (if cl_reconnect_timer c = None then Inr (c, []) else Inr (post Reconnect_task (c\<lparr>cl_reconnect_timer := None\<rparr>), []))"
| "client_step ce Tick_expires c =
    (if cl_tick_timer c then Inr (post Tick_task (c\<lparr>cl_tick_timer := False\<rparr>), []) else Inr (c, []))"
| "client_step ce (Io_resolved ec) c = dialer_event ce (on_resolve ec) c"
| "client_step ce (Io_connected ec) c = dialer_event ce (on_connect (ce_is_ip ce (ep_host (cl_endpoint c))) ec) c"
| "client_step ce (Io_tls_done ec) c = dialer_event ce (on_tls_handshake ec) c"
| "client_step ce (Io_ws_done ec) c = dialer_event ce (on_ws_handshake ec) c"
| "client_step ce (Io_read_done rx) c = run_read ce rx c"
| "client_step ce (Io_write_done ec) c = transport_event ce (on_write ec) c"
| "client_step ce Io_close_done c = transport_event ce (\<lambda>t. Inr (on_close t)) c"

section \<open>Calls of the user\<close>

text \<open>\<open>on_io\<close>: the caller is the IO thread. A blocking call waits for its completion, here a name.\<close>

definition io_thread_error :: "string \<Rightarrow> error" where
  "io_thread_error what = make_error Dom_Internal InvalidState (what @ ''() must not be called from the IO thread'')"

definition async_connect :: "'h option \<Rightarrow> 'h client \<Rightarrow> 'h client" where
  "async_connect completion = post (Connect_task completion)"

definition connect :: "bool \<Rightarrow> 'h \<Rightarrow> 'h client \<Rightarrow> unit result \<times> 'h client" where
  "connect on_io h c = (if on_io then (Inl (io_thread_error ''connect''), c) else (Inr (), async_connect (Some h) c))"

definition async_disconnect :: "'h option \<Rightarrow> 'h client \<Rightarrow> 'h client" where
  "async_disconnect completion = post (Disconnect_task completion)"

definition disconnect :: "bool \<Rightarrow> 'h \<Rightarrow> 'h client \<Rightarrow> unit result \<times> 'h client" where
  "disconnect on_io h c =
    (if on_io then (Inl (io_thread_error ''disconnect''), c) else (Inr (), async_disconnect (Some h) c))"

text \<open>The functions the services are bound to: \<open>submit\<close>, \<open>runner\<close> (its status) and \<open>send\<close>.\<close>

definition service_submit :: "request_spec \<Rightarrow> 'h \<Rightarrow> 'h client \<Rightarrow> 'h client" where
  "service_submit spec h = post (Submit_task spec (User_handler h))"

definition service_runner :: "bool \<Rightarrow> unit result" where
  "service_runner on_io =
    (if on_io
     then Inl (make_error Dom_Internal InvalidState
            (''blocking API called from the client IO thread '' @ [CHR 0xE2, CHR 0x80, CHR 0x94] @
             '' use the async_* variants inside callbacks''))
     else Inr ())"

definition raw_send :: "string \<Rightarrow> json \<Rightarrow> 'h client \<Rightarrow> 'h client" where
  "raw_send ty body = post (Send_task ty body)"

definition raw_async_request :: "request_spec \<Rightarrow> 'h \<Rightarrow> 'h client \<Rightarrow> 'h client" where
  "raw_async_request spec h = service_submit spec h"

definition raw_request :: "service_env \<Rightarrow> request_spec \<Rightarrow> 's \<Rightarrow> (jobj result \<times> 's \<times> 'n list) exec" where
  "raw_request sv spec = sync_wait sv (\<lambda>s. Inr (sv_device sv spec, s, []))"

definition client_ready :: "'h client \<Rightarrow> bool" where
  "client_ready c \<longleftrightarrow> cl_state c = Ready"

definition client_metrics :: "'h client \<Rightarrow> dispatcher_metrics" where
  "client_metrics c = (case cl_session c of None \<Rightarrow> zero_metrics | Some s \<Rightarrow> metrics (se_dispatcher s))"

section \<open>Builder\<close>

record builder =
  bd_endpoint :: endpoint
  bd_tls :: "tls_credentials option"
  bd_hmac :: "hmac_credentials option"
  bd_provider :: "provider option"
  bd_expected_device :: string
  bd_options :: "client_options option"
  bd_ota :: "ota_policy option"

definition make_builder :: "endpoint \<Rightarrow> builder" where
  "make_builder ep = \<lparr>bd_endpoint = ep, bd_tls = None, bd_hmac = None, bd_provider = None, bd_expected_device = [],
     bd_options = None, bd_ota = None\<rparr>"

definition with_tls :: "tls_credentials \<Rightarrow> builder \<Rightarrow> builder" where
  "with_tls t b = b\<lparr>bd_tls := Some t\<rparr>"

definition with_hmac :: "hmac_credentials \<Rightarrow> builder \<Rightarrow> builder" where
  "with_hmac k b = b\<lparr>bd_hmac := Some k\<rparr>"

definition with_credential_provider :: "provider option \<Rightarrow> builder \<Rightarrow> builder" where
  "with_credential_provider p b = b\<lparr>bd_provider := p\<rparr>"

definition with_expected_device :: "string \<Rightarrow> builder \<Rightarrow> builder" where
  "with_expected_device n b = b\<lparr>bd_expected_device := n\<rparr>"

definition with_options :: "client_options \<Rightarrow> builder \<Rightarrow> builder" where
  "with_options o1 b = b\<lparr>bd_options := Some o1\<rparr>"

definition with_reconnect :: "reconnect_policy \<Rightarrow> builder \<Rightarrow> builder" where
  "with_reconnect p b =
     b\<lparr>bd_options := Some ((case bd_options b of None \<Rightarrow> default_options | Some o1 \<Rightarrow> o1)\<lparr>op_reconnect := p\<rparr>)\<rparr>"

definition with_ota_policy :: "ota_policy option \<Rightarrow> builder \<Rightarrow> builder" where
  "with_ota_policy p b = b\<lparr>bd_ota := p\<rparr>"

text \<open>The credentials are set in turn; the first refusal is the result.\<close>

definition set_if :: "'a option \<Rightarrow> ('a \<Rightarrow> security \<Rightarrow> unit result \<times> security) \<Rightarrow> security result \<Rightarrow> security result" where
  "set_if x f r = (case x of None \<Rightarrow> r | Some v \<Rightarrow>
     (case r of Inl e \<Rightarrow> Inl e | Inr s \<Rightarrow> (case f v s of (Inl e, s') \<Rightarrow> Inl e | (Inr _, s') \<Rightarrow> Inr s')))"

definition build :: "filesystem \<Rightarrow> builder \<Rightarrow> 'h client result" where
  "build fs b =
    (let c = make_client (bd_endpoint b);
         c1 = (case bd_options b of None \<Rightarrow> c | Some o1 \<Rightarrow> c\<lparr>cl_options := o1\<rparr>);
         c2 = (case bd_ota b of None \<Rightarrow> c1 | Some p \<Rightarrow> c1\<lparr>cl_ota_policy := Some p\<rparr>);
         sec = set_expected_device_id (bd_expected_device b) (cl_security c2)
     in case set_if (bd_provider b) (\<lambda>p. set_credential_provider (Some p))
               (set_if (bd_hmac b) set_hmac (set_if (bd_tls b) (set_tls fs) (Inr sec))) of
          Inl e \<Rightarrow> Inl e
        | Inr sec' \<Rightarrow>
           (case sec_validate fs sec' of
              Inl e \<Rightarrow> Inl e
            | Inr _ \<Rightarrow> Inr (c2\<lparr>cl_security := sec'\<rparr>)))"

end
