(* ===== verification/Transport_Safety.thy ===== *)
theory Transport_Safety
  imports Transport
begin

text \<open>
  Runs of the transport: the operations of the client and the completions of the I/O operations that
  are under way, in any order and with any outcome. The invariant gives the promises of the interface
  (each attempt is answered exactly once, the queue is bounded, one write at a time), and two runs show
  where the code loses them.
\<close>

section \<open>Operations under way\<close>

datatype io = Io_resolve | Io_connect | Io_tls | Io_ws | Io_read | Io_write | Io_close

fun started :: "'c tout \<Rightarrow> io list" where
  "started (Start_resolve h p) = [Io_resolve]"
| "started (Start_connect n) = [Io_connect]"
| "started (Start_tls s v n) = [Io_tls]"
| "started (Start_ws w) = [Io_ws]"
| "started Start_read = [Io_read]"
| "started (Start_write f) = [Io_write]"
| "started (Start_close c r) = [Io_close]"
| "started _ = []"

definition begun :: "'c tout list \<Rightarrow> io multiset" where
  "begun outs = mset (concat (map started outs))"

text \<open>
  A run of a fresh transport that is opened with completion \<open>c\<close>: its state, the I/O operations under
  way and everything it did. The client sets a close handler only on an open transport.
\<close>

inductive transport_run :: "'c \<Rightarrow> 'c transport \<Rightarrow> io multiset \<Rightarrow> 'c tout list \<Rightarrow> bool" for c where
  start: "async_open (Some c) (make_transport ep policy options) = (t, outs) \<Longrightarrow> transport_run c t (begun outs) outs"
| client: "transport_run c t io tr \<Longrightarrow> run_client_op x t = (t', outs) \<Longrightarrow>
    transport_run c t' (io + begun outs) (tr @ outs)"
| receive_handler: "transport_run c t io tr \<Longrightarrow> transport_run c (set_receive_handler h t) io tr"
| close_handler: "transport_run c t io tr \<Longrightarrow> is_open t \<Longrightarrow> transport_run c (set_close_handler h t) io tr"
| resolved: "transport_run c t (add_mset Io_resolve io) tr \<Longrightarrow> on_resolve ec t = (t', outs) \<Longrightarrow>
    transport_run c t' (io + begun outs) (tr @ outs)"
| connected: "transport_run c t (add_mset Io_connect io) tr \<Longrightarrow> on_connect ip ec t = (t', outs) \<Longrightarrow>
    transport_run c t' (io + begun outs) (tr @ outs)"
| tls: "transport_run c t (add_mset Io_tls io) tr \<Longrightarrow> on_tls_handshake ec t = (t', outs) \<Longrightarrow>
    transport_run c t' (io + begun outs) (tr @ outs)"
| ws: "transport_run c t (add_mset Io_ws io) tr \<Longrightarrow> on_ws_handshake ec t = (t', outs) \<Longrightarrow>
    transport_run c t' (io + begun outs) (tr @ outs)"
| read_done: "transport_run c t (add_mset Io_read io) tr \<Longrightarrow> on_read ops rx t = (t', outs) \<Longrightarrow>
    transport_run c t' (io + begun outs) (tr @ outs)"
| write_done: "transport_run c t (add_mset Io_write io) tr \<Longrightarrow> on_write ec t = Inr (t', outs) \<Longrightarrow>
    transport_run c t' (io + begun outs) (tr @ outs)"
| closed: "transport_run c t (add_mset Io_close io) tr \<Longrightarrow> on_close t = (t', outs) \<Longrightarrow>
    transport_run c t' (io + begun outs) (tr @ outs)"

section \<open>Invariant\<close>

definition handshakes :: "io multiset \<Rightarrow> nat" where
  "handshakes io = count io Io_resolve + count io Io_connect + count io Io_tls + count io Io_ws"

fun opened_calls :: "'c tout list \<Rightarrow> nat" where
  "opened_calls [] = 0"
| "opened_calls (Opened c r # outs) = Suc (opened_calls outs)"
| "opened_calls (out # outs) = opened_calls outs"

text \<open>The invariant of one state and what is under way: handshakes, handlers, and the send queue.\<close>

definition live :: "'c transport \<Rightarrow> bool" where
  "live t \<longleftrightarrow> wt_phase t = Ph_Open \<or> wt_phase t = Ph_Closing"

definition connecting :: "'c transport \<Rightarrow> bool" where
  "connecting t \<longleftrightarrow> wt_phase t \<in> {Ph_Resolving, Ph_Connecting, Ph_TlsHandshake, Ph_WsHandshake}"

definition handshake_ok :: "'c transport \<Rightarrow> nat \<Rightarrow> bool" where
  "handshake_ok t hs \<longleftrightarrow> hs \<le> 1 \<and> (live t \<longrightarrow> hs = 0) \<and> (hs \<noteq> 0 \<longrightarrow> \<not> wt_write_active t)"

definition handlers_ok :: "'c transport \<Rightarrow> bool" where
  "handlers_ok t \<longleftrightarrow> wt_phase t \<noteq> Ph_Idle \<and> (wt_open_completion t \<noteq> None \<longrightarrow> connecting t) \<and>
     (wt_close_handler t \<noteq> None \<longrightarrow> live t)"

definition queue_inv :: "bool \<Rightarrow> bool \<Rightarrow> (string \<times> 'c option) list \<Rightarrow> bool \<Rightarrow> bool" where
  "queue_inv lv sending q active \<longleftrightarrow>
     length q \<le> 100 \<and> (\<forall>fh \<in> set q. length (fst fh) \<le> 4096) \<and>
     (if q = [] then \<not> (lv \<and> active) else lv \<and> (sending \<longrightarrow> active))"

definition queue_ok :: "'c transport \<Rightarrow> bool" where
  "queue_ok t \<longleftrightarrow>
     queue_inv (live t) (wt_phase t = Ph_Open \<and> \<not> wt_user_close t) (wt_queue t) (wt_write_active t)"

definition core_ok :: "'c transport \<Rightarrow> io multiset \<Rightarrow> bool" where
  "core_ok t io \<longleftrightarrow> handshake_ok t (handshakes io) \<and> handlers_ok t \<and> count io Io_write = of_bool (wt_write_active t)"

definition transport_ok :: "'c transport \<Rightarrow> io multiset \<Rightarrow> bool" where
  "transport_ok t io \<longleftrightarrow> core_ok t io \<and> queue_ok t"

definition waiting_open :: "'c transport \<Rightarrow> nat" where
  "waiting_open t = of_bool (wt_open_completion t \<noteq> None)"

text \<open>What every step keeps: the invariant, and one call of the open completion in all.\<close>

definition step_ok :: "'c transport \<Rightarrow> io multiset \<Rightarrow> 'c transport \<times> 'c tout list \<Rightarrow> bool" where
  "step_ok t io r \<longleftrightarrow> transport_ok (fst r) (io + begun (snd r)) \<and>
     opened_calls (snd r) + waiting_open (fst r) = waiting_open t"

lemma opened_calls_append [simp]: "opened_calls (xs @ ys) = opened_calls xs + opened_calls ys"
  by (induction xs rule: opened_calls.induct) simp_all

lemma begun_simps [simp]: "begun [] = {#}" "begun (x # xs) = mset (started x) + begun xs"
    "begun (xs @ ys) = begun xs + begun ys"
  by (simp_all add: begun_def)

lemma fail_queue_quiet [simp]: "begun (fail_queue e q) = {#}" "opened_calls (fail_queue e q) = 0"
  by (induction q) (auto simp: fail_queue_def split: option.split)

lemma refuse_send_quiet [simp]: "begun (refuse_send c e) = {#}" "opened_calls (refuse_send c e) = 0"
  by (simp_all add: refuse_send_def split: option.split)

lemma handshakes_simps [simp]: "handshakes {#} = 0" "handshakes (a + b) = handshakes a + handshakes b"
  "handshakes (add_mset x io) = of_bool (x \<in> {Io_resolve, Io_connect, Io_tls, Io_ws}) + handshakes io"
  by (cases x; simp add: handshakes_def)+

lemma queue_inv_mono: "queue_inv lv sn q w \<Longrightarrow> (sn' \<Longrightarrow> sn) \<Longrightarrow> queue_inv lv sn' q w"
  by (auto simp: queue_inv_def split: if_splits)

lemma queue_inv_Nil [simp]: "queue_inv lv sn [] w \<longleftrightarrow> \<not> (lv \<and> w)"
  by (simp add: queue_inv_def)

lemma core_ok_closed:
  assumes "core_ok t io" "wt_phase t' = Ph_Closed"
    and "wt_open_completion t' = None" "wt_close_handler t' = None" "wt_write_active t' = wt_write_active t"
  shows "core_ok t' io"
  using assms by (simp add: core_ok_def handshake_ok_def handlers_ok_def live_def)

lemma finish_state:
  assumes "handlers_ok t"
  shows "wt_phase (fst (finish e t)) = Ph_Closed" "wt_open_completion (fst (finish e t)) = None"
    "wt_close_handler (fst (finish e t)) = None" "wt_write_active (fst (finish e t)) = wt_write_active t"
    "wt_queue (fst (finish e t)) = (if wt_phase t = Ph_Closed then wt_queue t else [])"
  using assms by (auto simp: finish_def Let_def handlers_ok_def live_def connecting_def split: option.split)

lemma finish_outs:
  assumes "handlers_ok t"
  shows "begun (snd (finish e t)) = {#}" "opened_calls (snd (finish e t)) = waiting_open t"
  using assms
  by (auto simp: finish_def Let_def waiting_open_def handlers_ok_def connecting_def split: option.split)

lemma finish_step:
  assumes core: "core_ok t io" and q: "wt_phase t = Ph_Closed \<Longrightarrow> wt_queue t = []"
  shows "step_ok t io (finish e t)"
proof -
  have h: "handlers_ok t" using core by (simp add: core_ok_def)
  have "wt_queue (fst (finish e t)) = []" using q finish_state(5) [OF h] by simp
  then have "queue_ok (fst (finish e t))" by (simp add: queue_ok_def live_def finish_state(1) [OF h])
  with core_ok_closed [OF core finish_state(1-4) [OF h]] show ?thesis
    by (simp add: step_ok_def transport_ok_def finish_outs [OF h] finish_state(2) [OF h] waiting_open_def)
qed

lemma transport_ok_queue: "transport_ok t io \<Longrightarrow> \<not> live t \<Longrightarrow> wt_queue t = []"
  by (auto simp: transport_ok_def queue_ok_def queue_inv_def split: if_splits)

lemma finish_ok: "transport_ok t io \<Longrightarrow> step_ok t io (finish e t)"
  using transport_ok_queue [of t io] by (intro finish_step) (auto simp: transport_ok_def live_def)

lemma user_close_ok:
  assumes "transport_ok t io"
  shows "transport_ok (t\<lparr>wt_user_close := True\<rparr>) io"
proof -
  let ?t = "t\<lparr>wt_user_close := True\<rparr>"
  have l: "live ?t = live t" and c: "connecting ?t = connecting t" by (simp_all add: live_def connecting_def)
  have "core_ok ?t io = core_ok t io"
    by (simp add: core_ok_def handshake_ok_def handlers_ok_def l c)
  moreover have "queue_ok t \<Longrightarrow> queue_ok ?t" by (simp add: queue_ok_def l queue_inv_mono)
  ultimately show ?thesis using assms by (simp add: transport_ok_def)
qed

lemma finish_user_close:
  assumes "transport_ok t io"
  shows "step_ok t io (finish e (t\<lparr>wt_user_close := True\<rparr>))"
  using finish_ok [OF user_close_ok [OF assms]] by (simp add: step_ok_def waiting_open_def)

lemma quiet_outs:
  assumes "step_ok t io r" "begun pre = {#}" "opened_calls pre = 0"
  shows "step_ok t io (fst r, pre @ snd r)"
  using assms by (simp add: step_ok_def)

section \<open>The operations keep the invariant\<close>

lemma no_step: "transport_ok t io \<Longrightarrow> begun outs = {#} \<Longrightarrow> opened_calls outs = 0 \<Longrightarrow> step_ok t io (t, outs)"
  by (simp add: step_ok_def)

lemma cancel_step:
  assumes "transport_ok t io"
  shows "step_ok t io (cancel t)"
proof -
  let ?r = "finish (cancelled_error ''connect'') (t\<lparr>wt_user_close := True\<rparr>)"
  have "cancel t = (if wt_phase t = Ph_Closed \<or> wt_phase t = Ph_Closing then (t, [])
      else (fst ?r, [Cancel_resolve_timer, Cancel_resolver] @ snd ?r))"
    by (simp add: cancel_def case_prod_beta)
  then show ?thesis
    using no_step [OF assms, of "[]"] quiet_outs [OF finish_user_close [OF assms], of "[Cancel_resolve_timer, Cancel_resolver]"]
    by simp
qed

lemma close_step:
  assumes ok: "transport_ok t io"
  shows "step_ok t io (close code reason t)"
proof (cases "wt_phase t = Ph_Open")
  case True
  let ?t = "t\<lparr>wt_user_close := True, wt_phase := Ph_Closing\<rparr>"
  have "core_ok t io" "queue_ok t" using ok by (simp_all add: transport_ok_def)
  then have "core_ok ?t (add_mset Io_close io)"
    using True by (simp add: core_ok_def handshake_ok_def handlers_ok_def live_def connecting_def)
  moreover have "queue_ok ?t"
    using \<open>queue_ok t\<close> True by (simp add: queue_ok_def live_def) (erule queue_inv_mono, simp)
  moreover have "close code reason t = (?t, [Start_close code reason])"
    using True by (simp add: close_def)
  ultimately show ?thesis by (simp add: step_ok_def transport_ok_def waiting_open_def)
next
  case False
  let ?r = "finish (make_error Dom_Disconnected TransportClosed (''closed during connect: '' @ reason))
      (t\<lparr>wt_user_close := True\<rparr>)"
  have "close code reason t = (if wt_phase t = Ph_Closed \<or> wt_phase t = Ph_Closing then (t, [])
      else (fst ?r, [Cancel_resolve_timer, Cancel_resolver] @ snd ?r))"
    using False by (simp add: close_def Let_def case_prod_beta)
  then show ?thesis
    using no_step [OF ok, of "[]"] quiet_outs [OF finish_user_close [OF ok], of "[Cancel_resolve_timer, Cancel_resolver]"]
    by simp
qed

lemma send_step:
  assumes ok: "transport_ok t io"
  shows "step_ok t io (async_send f c t)"
proof (cases "wt_phase t = Ph_Open \<and> length f \<le> 4096 \<and> length (wt_queue t) < 100")
  case True
  let ?t = "t\<lparr>wt_queue := wt_queue t @ [(f, c)], wt_write_active := True\<rparr>"
  have core: "core_ok t io" "queue_ok t" using ok by (simp_all add: transport_ok_def)
  have "core_ok ?t (if wt_write_active t then io else add_mset Io_write io)"
    using core True by (simp add: core_ok_def handshake_ok_def handlers_ok_def live_def connecting_def)
  moreover have "queue_ok ?t"
    using core True by (auto simp: queue_ok_def queue_inv_def live_def split: if_splits)
  moreover have "async_send f c t = (?t, if wt_write_active t then [] else [Start_write (fst (hd (wt_queue t @ [(f, c)])))])"
    using True by (auto simp: async_send_def begin_write_def kMaxTxFrameSize_def kMaxTxQueue_def)
  ultimately show ?thesis by (simp add: step_ok_def transport_ok_def waiting_open_def split: if_splits)
next
  case False
  then have "\<exists>e. async_send f c t = (t, refuse_send c e)"
    by (auto simp: async_send_def kMaxTxFrameSize_def kMaxTxQueue_def)
  then show ?thesis using no_step [OF ok] by auto
qed

lemma client_op_step: "transport_ok t io \<Longrightarrow> step_ok t io (run_client_op x t)"
  by (cases x) (simp_all add: send_step close_step cancel_step)

lemma step_ok_trans:
  assumes "step_ok t io (t1, o1)" "step_ok t1 (io + begun o1) (t2, o2)"
  shows "step_ok t io (t2, o1 @ o2)"
  using assms by (simp add: step_ok_def add.assoc)

lemma client_ops_step: "transport_ok t io \<Longrightarrow> step_ok t io (client_ops xs t)"
proof (induction xs arbitrary: t io)
  case (Cons x xs)
  obtain t1 o1 where x: "run_client_op x t = (t1, o1)" by (cases "run_client_op x t")
  obtain t2 o2 where xs: "client_ops xs t1 = (t2, o2)" by (cases "client_ops xs t1")
  have 1: "step_ok t io (t1, o1)" using client_op_step [OF Cons.prems, of x] by (simp add: x)
  then have "step_ok t1 (io + begun o1) (t2, o2)" using Cons.IH [of t1 "io + begun o1"] by (simp add: step_ok_def xs)
  from step_ok_trans [OF 1 this] show ?case by (simp add: x xs)
qed (simp add: no_step)

text \<open>Completions: an operation that is no longer under way, and a handshake that ends.\<close>

lemma drop_io: "transport_ok t (add_mset x io) \<Longrightarrow> x \<noteq> Io_write \<Longrightarrow> transport_ok t io"
  by (auto simp: transport_ok_def core_ok_def handshake_ok_def split: if_splits)

lemma handshake_pending:
  assumes "transport_ok t (add_mset x io)" "x \<in> {Io_resolve, Io_connect, Io_tls, Io_ws}"
  shows "handshakes io = 0" "\<not> live t" "\<not> wt_write_active t" "wt_queue t = []" "wt_close_handler t = None"
    and "count io Io_write = 0"
proof -
  have c: "handshake_ok t (Suc (handshakes io))" "handlers_ok t" and
    w: "count (add_mset x io) Io_write = of_bool (wt_write_active t)"
    using assms by (auto simp: transport_ok_def core_ok_def)
  then show l: "\<not> live t" and "handshakes io = 0" and n: "\<not> wt_write_active t" by (auto simp: handshake_ok_def)
  from l c show "wt_close_handler t = None" by (auto simp: handlers_ok_def)
  show "wt_queue t = []" using transport_ok_queue [OF assms(1) l] .
  show "count io Io_write = 0" using w n by (simp split: if_splits)
qed

text \<open>The next phase of a handshake: \<open>y\<close> is what is begun.\<close>

lemma handshake_next:
  assumes p: "transport_ok t (add_mset x io)" "x \<in> {Io_resolve, Io_connect, Io_tls, Io_ws}"
    and y: "y \<in> {Io_connect, Io_tls, Io_ws}" and ph: "ph \<in> {Ph_Connecting, Ph_TlsHandshake, Ph_WsHandshake}"
    and outs: "begun outs = {#y#}" "opened_calls outs = 0"
  shows "step_ok t io (t\<lparr>wt_phase := ph\<rparr>, outs)"
proof -
  have "handshake_ok (t\<lparr>wt_phase := ph\<rparr>) (handshakes (add_mset y io))"
    using ph y handshake_pending [OF p] by (auto simp: handshake_ok_def live_def)
  moreover have "handlers_ok (t\<lparr>wt_phase := ph\<rparr>)"
    using ph handshake_pending [OF p] by (auto simp: handlers_ok_def connecting_def)
  moreover have "queue_ok (t\<lparr>wt_phase := ph\<rparr>)"
    using handshake_pending [OF p] by (simp add: queue_ok_def)
  moreover have "count (add_mset y io) Io_write = of_bool (wt_write_active t)"
    using y handshake_pending [OF p] by auto
  ultimately show ?thesis using outs by (simp add: step_ok_def transport_ok_def core_ok_def waiting_open_def)
qed

lemma on_resolve_step:
  assumes "transport_ok t (add_mset Io_resolve io)"
  shows "step_ok t io (on_resolve ec t)"
proof (cases ec)
  case None
  then show ?thesis using handshake_next [OF assms, of Io_connect Ph_Connecting] by (simp add: on_resolve_def)
next
  case (Some e)
  from quiet_outs [OF finish_ok [OF drop_io [OF assms]], of "[Cancel_resolve_timer]"] Some
  show ?thesis by (simp add: on_resolve_def case_prod_beta)
qed

lemma on_connect_step:
  assumes "transport_ok t (add_mset Io_connect io)"
  shows "step_ok t io (on_connect ip ec t)"
  using handshake_next [OF assms, of Io_tls Ph_TlsHandshake] finish_ok [OF drop_io [OF assms]]
  by (cases ec) (simp_all add: on_connect_def)

lemma on_tls_step:
  assumes "transport_ok t (add_mset Io_tls io)"
  shows "step_ok t io (on_tls_handshake ec t)"
  using handshake_next [OF assms, of Io_ws Ph_WsHandshake] finish_ok [OF drop_io [OF assms]]
  by (cases ec) (simp_all add: on_tls_handshake_def)

lemma on_ws_step:
  assumes p: "transport_ok t (add_mset Io_ws io)"
  shows "step_ok t io (on_ws_handshake ec t)"
proof (cases ec)
  case None
  let ?t = "t\<lparr>wt_phase := Ph_Open, wt_open_completion := None\<rparr>"
  note h = handshake_pending [OF p, simplified]
  have "core_ok ?t (add_mset Io_read io)"
    using h by (simp add: core_ok_def handshake_ok_def handlers_ok_def)
  moreover have "queue_ok ?t" using h by (simp add: queue_ok_def)
  ultimately show ?thesis using None
    by (auto simp: step_ok_def transport_ok_def on_ws_handshake_def waiting_open_def split: option.split)
next
  case (Some e)
  then show ?thesis using finish_ok [OF drop_io [OF p]] by (simp add: on_ws_handshake_def)
qed

lemma on_close_step: "transport_ok t (add_mset Io_close io) \<Longrightarrow> step_ok t io (on_close t)"
  using finish_ok [OF drop_io [of t Io_close io]] by (simp add: on_close_def)

lemma read_again: "step_ok t io (t', outs) \<Longrightarrow> step_ok t io (t', outs @ (if b then [Start_read] else []))"
  by (auto simp: step_ok_def transport_ok_def core_ok_def)

lemma on_read_step:
  assumes "transport_ok t (add_mset Io_read io)"
  shows "step_ok t io (on_read ops rx t)"
proof -
  have ok: "transport_ok t io" using drop_io [OF assms] by simp
  have again: "step_ok t io (t, if b then [Start_read] else [])" for b
    using read_again [OF no_step [OF ok, of "[]"], of b] by simp
  show ?thesis
  proof (cases rx)
    case (Rx_text frame)
    show ?thesis
    proof (cases "wt_receive_handler t")
      case (Some h)
      from quiet_outs [OF read_again [of t io "fst (client_ops ops t)" "snd (client_ops ops t)"], of "[Received h frame]"]
      show ?thesis using client_ops_step [OF ok, of ops] Some Rx_text by (simp add: on_read_def case_prod_beta)
    qed (use again Rx_text in \<open>simp add: on_read_def\<close>)
  qed (use again no_step [OF ok, of "[]"] finish_ok [OF ok] in \<open>simp_all add: on_read_def\<close>)
qed

text \<open>When a write ends, the popped queue is in order except that it may have to be sent on or dropped.\<close>

lemma write_pending:
  assumes p: "transport_ok t (add_mset Io_write io)"
  shows "core_ok (t\<lparr>wt_write_active := False, wt_queue := q\<rparr>) io" "live t \<Longrightarrow> wt_queue t \<noteq> []"
    and "\<not> live t \<Longrightarrow> wt_queue t = []" "wt_write_active t" "handshakes io = 0" "count io Io_write = 0"
proof -
  have w: "Suc (count io Io_write) = of_bool (wt_write_active t)" and c: "handshake_ok t (handshakes io)" "handlers_ok t"
    and q: "queue_ok t"
    using p by (simp_all add: transport_ok_def core_ok_def)
  from w show a: "wt_write_active t" and n: "count io Io_write = 0" by (cases "wt_write_active t"; simp)+
  with c show hs: "handshakes io = 0" by (auto simp: handshake_ok_def)
  show "core_ok (t\<lparr>wt_write_active := False, wt_queue := q\<rparr>) io"
    using c hs n by (simp add: core_ok_def handshake_ok_def handlers_ok_def live_def connecting_def)
  show "live t \<Longrightarrow> wt_queue t \<noteq> []" "\<not> live t \<Longrightarrow> wt_queue t = []"
    using q a by (auto simp: queue_ok_def queue_inv_def split: if_splits)
qed

lemma popped_queue_ok:
  assumes "queue_ok t" "wt_queue t = x # q" "sn \<Longrightarrow> q \<noteq> [] \<Longrightarrow> w" "w \<Longrightarrow> q \<noteq> []"
  shows "queue_inv (live t) sn q w"
  using assms by (auto simp: queue_ok_def queue_inv_def)

lemma on_write_failed_step:
  assumes p: "transport_ok t (add_mset Io_write io)" and r: "on_write (Some e) t = Inr r"
  shows "step_ok t io r"
proof -
  let ?t = "t\<lparr>wt_write_active := False, wt_queue := tl (wt_queue t)\<rparr>"
  have core: "core_ok ?t io" by (rule write_pending(1) [OF p])
  have nil: "\<not> live t \<Longrightarrow> wt_queue t = []" by (rule write_pending(3) [OF p])
  define pre where "pre = (case wt_queue t of [] \<Rightarrow> [] | (f, c) # q \<Rightarrow> refuse_send c (write_failed e))"
  have pre: "begun pre = {#}" "opened_calls pre = 0" by (simp_all add: pre_def split: list.split)
  have "(case wt_queue t of [] \<Rightarrow> (t\<lparr>wt_write_active := False\<rparr>, [])
      | (f, c) # q \<Rightarrow> (t\<lparr>wt_write_active := False, wt_queue := q\<rparr>, refuse_send c (write_failed e))) = (?t, pre)"
    by (cases t; cases "wt_queue t") (auto simp: pre_def)
  then have "r = (if wt_user_close t then (?t, pre) else (fst (finish (retry (write_failed e)) ?t),
       pre @ snd (finish (retry (write_failed e)) ?t)))"
    using r by (simp add: on_write_def Let_def case_prod_beta split: if_splits)
  moreover have "step_ok t io (?t, pre)" if "wt_user_close t"
  proof -
    have "queue_ok t" using p by (simp add: transport_ok_def)
    then have "queue_ok ?t" using that
      by (cases "wt_queue t") (auto simp: queue_ok_def live_def queue_inv_def split: if_splits)
    with core pre show ?thesis by (simp add: step_ok_def transport_ok_def waiting_open_def)
  qed
  moreover have "step_ok t io (finish (retry (write_failed e)) ?t)"
    using finish_step [OF core] nil by (simp add: live_def step_ok_def waiting_open_def)
  ultimately show ?thesis using quiet_outs [OF _ pre, of t io] by auto
qed

lemma on_write_done_step:
  assumes p: "transport_ok t (add_mset Io_write io)" and r: "on_write None t = Inr r"
  shows "step_ok t io r"
proof -
  obtain f c q where q: "wt_queue t = (f, c) # q"
    using r by (cases "wt_queue t") (auto simp: on_write_def)
  let ?more = "q \<noteq> [] \<and> wt_phase t = Ph_Open"
  let ?t = "t\<lparr>wt_write_active := ?more, wt_queue := q\<rparr>"
  define pre where "pre = (case c of None \<Rightarrow> [] | Some h \<Rightarrow> [Sent h (Inr ())])"
  have pre: "begun pre = {#}" "opened_calls pre = 0" by (simp_all add: pre_def split: option.split)
  have r: "r = (?t, pre @ (if ?more then [Start_write (fst (hd q))] else []))"
    using r q by (cases ?more) (auto simp: on_write_def Let_def begin_write_def pre_def)
  have "core_ok ?t (if ?more then add_mset Io_write io else io)"
    using write_pending(1) [OF p, of q] write_pending(5,6) [OF p]
    by (auto simp: core_ok_def handshake_ok_def handlers_ok_def live_def connecting_def)
  moreover have "queue_ok ?t"
    using popped_queue_ok [of t "(f, c)" q "wt_phase t = Ph_Open \<and> \<not> wt_user_close t" ?more] p q
    by (simp add: transport_ok_def queue_ok_def live_def)
  ultimately show ?thesis using pre
    by (cases ?more) (auto simp: r step_ok_def transport_ok_def waiting_open_def)
qed

lemma on_write_step:
  "transport_ok t (add_mset Io_write io) \<Longrightarrow> on_write ec t = Inr r \<Longrightarrow> step_ok t io r"
  by (cases ec) (auto intro: on_write_failed_step on_write_done_step)

section \<open>Every run\<close>

lemma receive_handler_ok: "transport_ok (set_receive_handler h t) io = transport_ok t io"
  by (simp add: transport_ok_def core_ok_def handshake_ok_def handlers_ok_def queue_ok_def live_def connecting_def
      set_receive_handler_def)

lemma close_handler_ok: "transport_ok t io \<Longrightarrow> is_open t \<Longrightarrow> transport_ok (set_close_handler h t) io"
  by (simp add: transport_ok_def core_ok_def handshake_ok_def handlers_ok_def queue_ok_def live_def connecting_def
      set_close_handler_def is_open_def)

lemma open_step: "transport_ok t' (begun outs) \<and> opened_calls outs + waiting_open t' = 1"
  if "async_open (Some c) (make_transport ep policy options) = (t', outs)"
  using that by (auto simp: async_open_def make_transport_def transport_ok_def core_ok_def handshake_ok_def
      handlers_ok_def queue_ok_def live_def connecting_def waiting_open_def)

lemma run_step:
  assumes "opened_calls tr + waiting_open t = 1" "step_ok t io (t', outs)"
  shows "transport_ok t' (io + begun outs) \<and> opened_calls (tr @ outs) + waiting_open t' = 1"
  using assms by (simp add: step_ok_def)

lemma transport_run_ok: "transport_run c t io tr \<Longrightarrow> transport_ok t io \<and> opened_calls tr + waiting_open t = 1"
proof (induction rule: transport_run.induct)
  case (start ep policy options t outs)
  then show ?case by (rule open_step)
next
  case (client t io tr x t' outs)
  then show ?case using client_op_step [of t io x] by (intro run_step) simp_all
next
  case (receive_handler t io tr h)
  then show ?case by (simp add: receive_handler_ok) (simp add: waiting_open_def set_receive_handler_def)
next
  case (close_handler t io tr h)
  then show ?case by (simp add: close_handler_ok) (simp add: waiting_open_def set_close_handler_def)
next
  case (resolved t io tr ec t' outs)
  then show ?case using on_resolve_step [of t io ec] by (intro run_step) simp_all
next
  case (connected t io tr ip ec t' outs)
  then show ?case using on_connect_step [of t io ip ec] by (intro run_step) simp_all
next
  case (tls t io tr ec t' outs)
  then show ?case using on_tls_step [of t io ec] by (intro run_step) simp_all
next
  case (ws t io tr ec t' outs)
  then show ?case using on_ws_step [of t io ec] by (intro run_step) simp_all
next
  case (read_done t io tr ops rx t' outs)
  then show ?case using on_read_step [of t io ops rx] by (intro run_step) simp_all
next
  case (write_done t io tr ec t' outs)
  then show ?case using on_write_step [of t io ec] by (intro run_step) simp_all
next
  case (closed t io tr t' outs)
  then show ?case using on_close_step [of t io] by (intro run_step) simp_all
qed


section \<open>Runs of the code\<close>

text \<open>A run in which every step of the handshake succeeds, up to each of its phases.\<close>

lemma demo_resolving:
  "\<exists>tr. transport_run c ((fst (async_open (Some c) (make_transport ep policy options)))) {#Io_resolve#} tr"
  using transport_run.start [of c ep policy options] by (fastforce simp: async_open_def make_transport_def)

lemma demo_open:
  assumes "transport_run c t {#Io_resolve#} tr" "wt_queue t = []" "\<not> wt_write_active t"
  shows "\<exists>t' tr'. transport_run c t' {#Io_read#} tr' \<and> wt_phase t' = Ph_Open \<and> wt_queue t' = [] \<and>
    \<not> wt_write_active t' \<and> wt_user_close t' = wt_user_close t"
proof -
  let ?c = "t\<lparr>wt_phase := Ph_Connecting\<rparr>" and ?s = "t\<lparr>wt_phase := Ph_TlsHandshake\<rparr>" and ?w = "t\<lparr>wt_phase := Ph_WsHandshake\<rparr>"
  obtain tr1 where "transport_run c ?c {#Io_connect#} tr1"
    using transport_run.resolved [of c t "{#}" tr None] assms by (fastforce simp: on_resolve_def)
  then obtain tr2 where "transport_run c ?s {#Io_tls#} tr2"
    using transport_run.connected [of c ?c "{#}" tr1 True None] by (fastforce simp: on_connect_def)
  then obtain tr3 where w: "transport_run c ?w {#Io_ws#} tr3"
    using transport_run.tls [of c ?s "{#}" tr2 None] by (fastforce simp: on_tls_handshake_def)
  have "begun (snd (on_ws_handshake None ?w)) = {#Io_read#}"
    by (simp add: on_ws_handshake_def split: option.split)
  with transport_run.ws [of c ?w "{#}" tr3 None, OF _ surjective_pairing] w assms show ?thesis
    by (fastforce simp: on_ws_handshake_def)
qed

lemma run_to_open:
  "\<exists>t tr. transport_run c t {#Io_read#} tr \<and> wt_phase t = Ph_Open \<and> wt_queue t = [] \<and> \<not> wt_write_active t"
proof -
  fix ep :: endpoint and policy :: identity_policy and options :: wss_options
  let ?t = "fst (async_open (Some c) (make_transport ep policy options))"
  obtain tr where r: "transport_run c ?t {#Io_resolve#} tr" using demo_resolving [of c ep policy options] by (elim exE)
  have q: "wt_queue ?t = []" "\<not> wt_write_active ?t" by (simp_all add: async_open_def make_transport_def)
  obtain t' tr' where "transport_run c t' {#Io_read#} tr'" "wt_phase t' = Ph_Open" "wt_queue t' = []"
    "\<not> wt_write_active t'"
    using demo_open [OF r q] by (elim exE conjE)
  then show ?thesis by (intro exI conjI)
qed


text \<open>
  A cancelled attempt comes back to life: \<open>finish\<close> has answered the open completion and closed the
  socket, but a resolver result that was already queued starts the next phase, and the transport ends up
  open with nobody holding it.
\<close>

lemma cancelled_attempt_revives:
  "\<exists>t tr. transport_run c t {#Io_read#} tr \<and> wt_phase t = Ph_Open \<and> wt_user_close t"
proof -
  fix ep :: endpoint and policy :: identity_policy and options :: wss_options
  let ?t = "fst (async_open (Some c) (make_transport ep policy options))" and ?x = "Op_cancel :: 'a client_op"
  obtain tr where "transport_run c ?t {#Io_resolve#} tr" using demo_resolving [of c ep policy options] by (elim exE)
  from transport_run.client [OF this, of ?x] have "\<exists>tr. transport_run c (fst (cancel ?t)) {#Io_resolve#} tr"
    by (fastforce simp: async_open_def make_transport_def cancel_def finish_def fail_queue_def)
  moreover have "wt_queue (fst (cancel ?t)) = []" "\<not> wt_write_active (fst (cancel ?t))" "wt_user_close (fst (cancel ?t))"
    by (simp_all add: async_open_def make_transport_def cancel_def finish_def fail_queue_def)
  ultimately show ?thesis using demo_open by metis
qed

text \<open>
  The end of a connection drops the frame that is being written. There are runs in which a peer's
  close is handled while a write is under way; if that write then completes without an error,
  \<open>on_write\<close> takes the front of an empty queue, which is undefined.
\<close>

theorem write_after_close_undefined:
  "\<exists>t tr. transport_run c t {#Io_write#} tr \<and> wt_phase t = Ph_Closed \<and>
     on_write None t = Inl (Undefined_behaviour ''front of an empty queue'')"
proof -
  obtain t tr where t: "transport_run c t {#Io_read#} tr" "wt_phase t = Ph_Open" "wt_queue t = []" "\<not> wt_write_active t"
    using run_to_open [of c] by (elim exE conjE)
  let ?s = "t\<lparr>wt_queue := [([], None)], wt_write_active := True\<rparr>"
  have "run_client_op (Op_send [] None) t = (?s, [Start_write []])"
    using t by (simp add: async_send_def begin_write_def kMaxTxFrameSize_def kMaxTxQueue_def)
  from transport_run.client [OF t(1) this] have s: "transport_run c ?s (add_mset Io_read {#Io_write#}) (tr @ [Start_write []])"
    by (simp add: add_mset_commute)
  let ?r = "on_read [] Rx_closed ?s"
  have "begun (snd ?r) = {#}" "wt_phase (fst ?r) = Ph_Closed" "wt_queue (fst ?r) = []"
    using t by (simp_all add: on_read_def finish_def fail_queue_def Let_def split: option.split)
  with transport_run.read_done [OF s, of "[]" Rx_closed, OF surjective_pairing] show ?thesis
    by (auto simp: on_write_def intro!: exI [of _ "fst ?r"])
qed

end
