(* ===== verification/Client_Safety.thy ===== *)
theory Client_Safety
  imports Client Transport_Safety
begin

text \<open>
  Runs of a client: posted calls, timers and network events in any order. The invariant ties the state
  of the client to its transport and its session; with it every \<open>connect()\<close> and every \<open>disconnect()\<close>
  is answered exactly once. The reconnect delays follow the configured policy.
\<close>

section \<open>Sequences of effects\<close>

lemma andthen_Inr:
  "andthen f g c = Inr (c', outs) \<longleftrightarrow>
    (\<exists>c1 o1 o2. f c = Inr (c1, o1) \<and> g c1 = Inr (c', o2) \<and> outs = o1 @ o2)"
  by (auto simp: andthen_def exec_simps)

lemma modify_Inr: "modify f c = Inr (c', outs) \<longleftrightarrow> c' = f c \<and> outs = []"
  by (auto simp: modify_def)

lemma null_pointer_Inr [simp]: "null_pointer \<noteq> Inr x"
  by (simp add: null_pointer_def)

lemmas seq_simps = andthen_Inr modify_Inr

section \<open>Connect and disconnect calls\<close>

fun connect_call :: "'h cout \<Rightarrow> 'h list" where
  "connect_call (Connect_done h r) = [h]" | "connect_call _ = []"

fun disconnect_call :: "'h cout \<Rightarrow> 'h list" where
  "disconnect_call (Disconnect_done h) = [h]" | "disconnect_call _ = []"

definition connect_calls :: "'h cout list \<Rightarrow> 'h multiset" where
  "connect_calls outs = mset (concat (map connect_call outs))"

definition disconnect_calls :: "'h cout list \<Rightarrow> 'h multiset" where
  "disconnect_calls outs = mset (concat (map disconnect_call outs))"

lemma calls_simps [simp]:
  "connect_calls [] = {#}" "connect_calls (x # xs) = mset (connect_call x) + connect_calls xs"
  "connect_calls (xs @ ys) = connect_calls xs + connect_calls ys"
  "disconnect_calls [] = {#}" "disconnect_calls (x # xs) = mset (disconnect_call x) + disconnect_calls xs"
  "disconnect_calls (xs @ ys) = disconnect_calls xs + disconnect_calls ys"
  by (simp_all add: connect_calls_def disconnect_calls_def)

lemma calls_net [simp]: "connect_calls (map Net outs) = {#}" "disconnect_calls (map Net outs) = {#}"
  by (induction outs) simp_all

lemma calls_events [simp]:
  "connect_calls (map (\<lambda>(h, e). Event_call h e) evs) = {#}" "disconnect_calls (map (\<lambda>(h, e). Event_call h e) evs) = {#}"
  by (induction evs) auto

lemma calls_changes [simp]:
  "connect_calls (map (\<lambda>(h, e). Change_call h e) chs) = {#}" "disconnect_calls (map (\<lambda>(h, e). Change_call h e) chs) = {#}"
  by (induction chs) auto

lemma calls_done [simp]:
  "connect_calls (map (\<lambda>h. Connect_done h r) hs) = mset hs" "disconnect_calls (map (\<lambda>h. Connect_done h r) hs) = {#}"
  "connect_calls (map Disconnect_done hs) = {#}" "disconnect_calls (map Disconnect_done hs) = mset hs"
  by (induction hs) simp_all

text \<open>What a step owes and pays: nobody waiting is forgotten and nobody is called twice.\<close>

definition balanced :: "'h client \<Rightarrow> 'h client \<Rightarrow> 'h cout list \<Rightarrow> bool" where
  "balanced c c' outs \<longleftrightarrow>
     connect_calls outs + mset (cl_connect_completions c') = mset (cl_connect_completions c) \<and>
     disconnect_calls outs + mset (cl_disconnect_waiters c') = mset (cl_disconnect_waiters c)"

lemma balanced_refl [simp]: "balanced c c []"
  by (simp add: balanced_def)

lemma balanced_trans: "balanced c c1 o1 \<Longrightarrow> balanced c1 c2 o2 \<Longrightarrow> balanced c c2 (o1 @ o2)"
  by (auto simp: balanced_def add.assoc)

section \<open>The invariant\<close>

text \<open>A transport that is being opened for the client, and one that is up with the client's handlers.\<close>

definition dialing :: "unit transport \<Rightarrow> bool" where
  "dialing t \<longleftrightarrow> handlers_ok t \<and> wt_open_completion t \<noteq> None"

definition up :: "unit transport \<Rightarrow> bool" where
  "up t \<longleftrightarrow> handlers_ok t \<and> live t \<and> wt_open_completion t = None \<and> wt_close_handler t \<noteq> None"

text \<open>Transport, session and state of the client belong together; \<open>waits\<close> are the disconnect calls.\<close>

definition conn_ok ::
  "unit transport option \<Rightarrow> unit transport option \<Rightarrow> bool \<Rightarrow> client_state \<Rightarrow> bool \<Rightarrow> 'h list \<Rightarrow> 'h list \<Rightarrow> bool \<Rightarrow> bool" where
  "conn_ok tr di session st info comps waits user \<longleftrightarrow>
     (case (tr, di) of
        (None, None) \<Rightarrow> st \<in> {Disconnected_state, Reconnecting} \<and> comps = [] \<and> waits = []
      | (Some t, None) \<Rightarrow> up t \<and> session \<and> st \<in> {FountainHandshaking, Ready}
      | (None, Some t) \<Rightarrow> dialing t \<and> session \<and> st = Resolving
      | (Some _, Some _) \<Rightarrow> False) \<and>
     (st = Ready \<longrightarrow> info \<and> comps = []) \<and> (waits \<noteq> [] \<longrightarrow> user)"

definition client_ok :: "'h client \<Rightarrow> bool" where
  "client_ok c \<longleftrightarrow> conn_ok (cl_transport c) (cl_dialer c) (cl_session c \<noteq> None) (cl_state c) (cl_info c \<noteq> None)
     (cl_connect_completions c) (cl_disconnect_waiters c) (cl_user_disconnect c)"

text \<open>Two states the invariant cannot tell apart.\<close>

definition same_conn :: "'h client \<Rightarrow> 'h client \<Rightarrow> bool" where
  "same_conn c c' \<longleftrightarrow> cl_transport c' = cl_transport c \<and> cl_dialer c' = cl_dialer c \<and>
     (cl_session c' = None \<longleftrightarrow> cl_session c = None) \<and> cl_state c' = cl_state c \<and> (cl_info c' = None \<longleftrightarrow> cl_info c = None) \<and>
     cl_connect_completions c' = cl_connect_completions c \<and> cl_disconnect_waiters c' = cl_disconnect_waiters c \<and>
     cl_user_disconnect c' = cl_user_disconnect c"

lemma same_conn_ok: "same_conn c c' \<Longrightarrow> client_ok c' = client_ok c"
  by (simp add: same_conn_def client_ok_def)

lemma same_conn_trans: "same_conn c c1 \<Longrightarrow> same_conn c1 c2 \<Longrightarrow> same_conn c c2"
  by (simp add: same_conn_def)

lemma same_conn_balanced: "same_conn c c' \<Longrightarrow> balanced c c' outs = (connect_calls outs = {#} \<and> disconnect_calls outs = {#})"
  by (simp add: same_conn_def balanced_def)

section \<open>Loss of a connection\<close>

lemma enter_state_Inr:
  assumes "enter_state st i e c = Inr (c', outs)"
  shows "c' = c\<lparr>cl_state := st\<rparr> \<and> connect_calls outs = {#} \<and> disconnect_calls outs = {#}"
  using assms by (auto simp: enter_state_def Let_def split: if_splits)

text \<open>After the loss there is no transport, and everybody who waited has been told.\<close>

lemma connection_lost_effect:
  assumes "handle_connection_lost ce cause c = Inr (c', outs)"
  shows "cl_transport c' = cl_transport c" "cl_dialer c' = cl_dialer c" "cl_session c' = cl_session c"
    "cl_connect_completions c' = []" "connect_calls outs = mset (cl_connect_completions c)"
    "cl_state c' \<in> {Disconnected_state, Reconnecting}" "cl_user_disconnect c' = cl_user_disconnect c"
    "cl_disconnect_waiters c' = (if cl_user_disconnect c then [] else cl_disconnect_waiters c)"
    "disconnect_calls outs = (if cl_user_disconnect c then mset (cl_disconnect_waiters c) else {#})"
proof -
  consider "cl_user_disconnect c" | "\<not> cl_user_disconnect c" "\<not> cl_was_ready c \<or> \<not> rp_enabled (op_reconnect (cl_options c))"
    | "\<not> cl_user_disconnect c" "cl_was_ready c" "rp_enabled (op_reconnect (cl_options c))" by blast
  then have "cl_transport c' = cl_transport c \<and> cl_dialer c' = cl_dialer c \<and> cl_session c' = cl_session c \<and>
    cl_connect_completions c' = [] \<and> connect_calls outs = mset (cl_connect_completions c) \<and>
    cl_state c' \<in> {Disconnected_state, Reconnecting} \<and> cl_user_disconnect c' = cl_user_disconnect c \<and>
    cl_disconnect_waiters c' = (if cl_user_disconnect c then [] else cl_disconnect_waiters c) \<and>
    disconnect_calls outs = (if cl_user_disconnect c then mset (cl_disconnect_waiters c) else {#})"
  proof cases
    case 1
    with assms show ?thesis
      by (auto simp: handle_connection_lost_def seq_simps complete_connect_def complete_disconnect_def unlock_security_def
          dest!: enter_state_Inr)
  next
    case 2
    with assms show ?thesis
      by (auto simp: handle_connection_lost_def seq_simps complete_connect_def unlock_security_def dest!: enter_state_Inr)
  next
    case 3
    with assms show ?thesis
      by (auto simp: handle_connection_lost_def seq_simps complete_connect_def schedule_reconnect_def Let_def
          dest!: enter_state_Inr split: if_splits)
  qed
  then show "cl_transport c' = cl_transport c" "cl_dialer c' = cl_dialer c" "cl_session c' = cl_session c"
    "cl_connect_completions c' = []" "connect_calls outs = mset (cl_connect_completions c)"
    "cl_state c' \<in> {Disconnected_state, Reconnecting}" "cl_user_disconnect c' = cl_user_disconnect c"
    "cl_disconnect_waiters c' = (if cl_user_disconnect c then [] else cl_disconnect_waiters c)"
    "disconnect_calls outs = (if cl_user_disconnect c then mset (cl_disconnect_waiters c) else {#})"
    by simp_all
qed

lemma connection_lost_ok:
  assumes "handle_connection_lost ce cause c = Inr (c', outs)" "cl_transport c = None" "cl_dialer c = None"
    and "cl_disconnect_waiters c \<noteq> [] \<Longrightarrow> cl_user_disconnect c"
  shows "client_ok c' \<and> balanced c c' outs"
  using connection_lost_effect [OF assms(1)] assms(2-) by (auto simp: client_ok_def conn_ok_def balanced_def)

section \<open>Callbacks\<close>

lemma answer_handler_effect:
  assumes "answer_handler ce h r c = Inr (c', outs)"
  shows "same_conn c c' \<and> balanced c c' outs"
  using assms by (cases h) (auto simp: answer_handler_def exec_simps same_conn_def balanced_def)

lemma on_ready_effect:
  assumes "on_ready info c = Inr (c', outs)"
  shows "cl_transport c' = cl_transport c \<and> cl_dialer c' = cl_dialer c \<and> cl_session c' = cl_session c \<and> cl_state c' = Ready \<and>
    cl_info c' \<noteq> None \<and> cl_connect_completions c' = [] \<and> cl_disconnect_waiters c' = cl_disconnect_waiters c \<and>
    cl_user_disconnect c' = cl_user_disconnect c \<and> balanced c c' outs"
  using assms by (auto simp: on_ready_def seq_simps complete_connect_def balanced_def dest!: enter_state_Inr)

fun is_ready_call :: "'h sout \<Rightarrow> bool" where
  "is_ready_call (On_ready i) = True" | "is_ready_call _ = False"

lemma callback_effect:
  assumes "callback ce x c = Inr (c', outs)" "\<not> is_ready_call x"
  shows "same_conn c c' \<and> balanced c c' outs"
  using assms
proof (cases x)
  case (Answer h r)
  with assms show ?thesis by (simp add: answer_handler_effect)
qed (auto simp: same_conn_def balanced_def split: prod.splits)

text \<open>Whatever the session reports, the callbacks leave the transports alone.\<close>

definition same_transports :: "'h client \<Rightarrow> 'h client \<Rightarrow> bool" where
  "same_transports c c' \<longleftrightarrow> cl_transport c' = cl_transport c \<and> cl_dialer c' = cl_dialer c \<and>
     cl_disconnect_waiters c' = cl_disconnect_waiters c \<and> cl_user_disconnect c' = cl_user_disconnect c"

lemma callback_transports:
  assumes "callback ce x c = Inr (c', outs)"
  shows "same_transports c c' \<and> balanced c c' outs"
proof (cases "is_ready_call x")
  case True
  then obtain i where "x = On_ready i" by (cases x) auto
  with assms on_ready_effect [of i c c' outs] show ?thesis by (simp add: same_transports_def)
next
  case False
  from callback_effect [OF assms this] show ?thesis by (simp add: same_conn_def same_transports_def)
qed

lemma callbacks_transports:
  "callbacks ce xs c = Inr (c', outs) \<Longrightarrow> same_transports c c' \<and> balanced c c' outs"
proof (induction xs arbitrary: c outs)
  case (Cons x xs)
  then obtain c1 o1 o2 where "callback ce x c = Inr (c1, o1)" "callbacks ce xs c1 = Inr (c', o2)" "outs = o1 @ o2"
    by (auto simp: seq_simps)
  with callback_transports [of ce x c c1 o1] Cons.IH [of c1 o2] show ?case
    by (auto simp: same_transports_def intro: balanced_trans)
qed (simp add: same_transports_def)

lemma transport_closed_ok:
  assumes "handle_transport_closed ce e c = Inr (c', outs)" "cl_dialer c = None"
    and waits: "cl_disconnect_waiters c \<noteq> [] \<Longrightarrow> cl_user_disconnect c"
  shows "client_ok c' \<and> balanced c c' outs"
proof -
  let ?c = "c\<lparr>cl_tick_timer := False, cl_transport := None\<rparr>"
  let ?cause = "case cl_session_failure ?c of Some f \<Rightarrow> f | None \<Rightarrow> e"
  let ?close = "\<lambda>c. case cl_session c of None \<Rightarrow> Inr (c, [])
     | Some s \<Rightarrow> (case on_transport_closed ?cause s of (s', outs) \<Rightarrow> callbacks ce outs (c\<lparr>cl_session := Some s'\<rparr>))"
  from assms(1) obtain c1 o1 o2 where 1: "?close ?c = Inr (c1, o1)"
    and 2: "handle_connection_lost ce ?cause (c1\<lparr>cl_datapoints := mark_all_stale (cl_datapoints c1)\<rparr>) = Inr (c', o2)"
    and outs: "outs = o1 @ o2"
    unfolding handle_transport_closed_def Let_def andthen_Inr modify_Inr by blast
  have t: "same_transports ?c c1 \<and> balanced ?c c1 o1"
  proof (cases "cl_session c")
    case None
    with 1 show ?thesis by (simp add: same_transports_def)
  next
    case (Some s)
    obtain s' xs where "on_transport_closed ?cause s = (s', xs)" by fastforce
    with 1 Some callbacks_transports [of ce xs "?c\<lparr>cl_session := Some s'\<rparr>" c1 o1] show ?thesis
      by (auto simp: same_transports_def balanced_def)
  qed
  with connection_lost_ok [OF 2] assms(2) waits
  have "client_ok c'" "balanced (c1\<lparr>cl_datapoints := mark_all_stale (cl_datapoints c1)\<rparr>) c' o2"
    by (auto simp: same_transports_def)
  with t outs show ?thesis by (auto simp: balanced_def add.assoc)
qed

section \<open>What a transport calls\<close>

fun is_call :: "'c tout \<Rightarrow> bool" where
  "is_call (Opened c r) = True" | "is_call (Closed_call c e) = True" | "is_call _ = False"

definition calls :: "'c tout list \<Rightarrow> 'c tout list" where
  "calls outs = filter is_call outs"

lemma calls_of [simp]:
  "calls [] = []" "calls (x # xs) = (if is_call x then x # calls xs else calls xs)" "calls (xs @ ys) = calls xs @ calls ys"
  by (simp_all add: calls_def)

lemma calls_quiet [simp]: "calls (fail_queue e q) = []" "calls (refuse_send h e) = []"
  by (induction q) (auto simp: fail_queue_def refuse_send_def split: option.split)

lemma finish_dialing: "dialing t \<Longrightarrow> \<exists>u. calls (snd (finish e t)) = [Opened u (Inl e)]"
  by (auto simp: dialing_def handlers_ok_def connecting_def finish_def Let_def)

lemma finish_up: "up t \<Longrightarrow> \<exists>u. calls (snd (finish e t)) = [Closed_call u e]"
  by (auto simp: up_def live_def finish_def Let_def)

text \<open>A transport that is being opened stays so, fails, or opens.\<close>

definition dial_result :: "unit transport \<times> unit tout list \<Rightarrow> bool" where
  "dial_result r \<longleftrightarrow>
     (calls (snd r) = [] \<and> dialing (fst r)) \<or> (\<exists>u e. calls (snd r) = [Opened u (Inl e)]) \<or>
     (\<exists>u. calls (snd r) = [Opened u (Inr ())] \<and> wt_phase (fst r) = Ph_Open \<and> handlers_ok (fst r) \<and> wt_open_completion (fst r) = None)"

lemma dial_result_finish: "dialing t \<Longrightarrow> dial_result (finish e t)"
  using finish_dialing [of t e] by (auto simp: dial_result_def)

lemma dialing_next:
  "dialing t \<Longrightarrow> ph \<in> {Ph_Connecting, Ph_TlsHandshake, Ph_WsHandshake} \<Longrightarrow> dialing (t\<lparr>wt_phase := ph\<rparr>)"
  by (auto simp: dialing_def handlers_ok_def connecting_def live_def)

lemma dialing_user_close: "dialing t \<Longrightarrow> dialing (t\<lparr>wt_user_close := True\<rparr>)"
  by (simp add: dialing_def handlers_ok_def connecting_def live_def)

lemma dial_results:
  assumes "dialing t"
  shows "dial_result (on_resolve ec t)" "dial_result (on_connect ip ec t)" "dial_result (on_tls_handshake ec t)"
    "dial_result (on_ws_handshake ec t)" "dial_result (cancel t)"
proof -
  note fin = dial_result_finish [OF assms] and nxt = dialing_next [OF assms]
  show "dial_result (on_resolve ec t)" "dial_result (on_connect ip ec t)" "dial_result (on_tls_handshake ec t)"
    using fin nxt by (cases ec; simp add: on_resolve_def on_connect_def on_tls_handshake_def dial_result_def case_prod_beta)+
  have "handlers_ok (t\<lparr>wt_phase := Ph_Open, wt_open_completion := None\<rparr>)"
    using assms by (auto simp: dialing_def handlers_ok_def live_def)
  then show "dial_result (on_ws_handshake ec t)"
    using fin assms by (cases ec) (auto simp: on_ws_handshake_def dial_result_def dialing_def)
  show "dial_result (cancel t)"
    using dial_result_finish [OF dialing_user_close [OF assms]] assms
    by (auto simp: cancel_def dial_result_def case_prod_beta dialing_def handlers_ok_def connecting_def)
qed

text \<open>A transport that is up stays so or calls the close handler, once.\<close>

definition up_result :: "unit transport \<times> unit tout list \<Rightarrow> bool" where
  "up_result r \<longleftrightarrow> (calls (snd r) = [] \<and> up (fst r)) \<or> (\<exists>u e. calls (snd r) = [Closed_call u e])"

lemma up_result_finish: "up t \<Longrightarrow> up_result (finish e t)"
  using finish_up [of t e] by (auto simp: up_result_def)

lemma up_update:
  "up t \<Longrightarrow> up (t\<lparr>wt_queue := q\<rparr>)" "up t \<Longrightarrow> up (t\<lparr>wt_write_active := b\<rparr>)"
  by (simp_all add: up_def handlers_ok_def connecting_def live_def)

lemma send_up: "up t \<Longrightarrow> calls (snd (async_send f c t)) = [] \<and> up (fst (async_send f c t))"
  by (auto simp: async_send_def begin_write_def Let_def up_update)

lemma close_up: "up t \<Longrightarrow> calls (snd (close code reason t)) = [] \<and> up (fst (close code reason t))"
  by (auto simp: close_def Let_def up_def handlers_ok_def connecting_def live_def)

lemma up_results:
  assumes "up t"
  shows "up_result (on_close t)" "up_result (on_read [] rx t)" "on_write ec t = Inr r \<Longrightarrow> up_result r"
proof -
  note fin = up_result_finish [OF assms]
  show "up_result (on_close t)" using fin by (simp add: on_close_def)
  show "up_result (on_read [] rx t)"
    using fin assms by (cases rx) (auto simp: on_read_def up_result_def split: option.split)
  have fin': "up_result (finish e (t\<lparr>wt_write_active := False\<rparr>))"
    "up_result (finish e (t\<lparr>wt_write_active := False, wt_queue := q\<rparr>))" for e q
    using up_result_finish assms up_update by blast+
  show "up_result r" if "on_write ec t = Inr r"
  proof (cases ec)
    case None
    with that assms show ?thesis
      by (cases "wt_queue t") (auto simp: on_write_def begin_write_def up_result_def Let_def up_update split: option.splits if_splits)
  next
    case (Some e)
    with that assms fin'(1) [of "retry (write_failed e)"] fin'(2) [of "retry (write_failed e)" "tl (wt_queue t)"]
    show ?thesis
      by (cases "wt_queue t") (auto simp: on_write_def up_result_def Let_def up_update case_prod_beta split: if_splits)
  qed
qed

section \<open>Routing\<close>

definition route_call :: "client_env \<Rightarrow> unit transport \<Rightarrow> unit tout \<Rightarrow> 'h cstep" where
  "route_call ce t x c = (case x of Opened u r \<Rightarrow> on_opened ce t r c | Closed_call u e \<Rightarrow> handle_transport_closed ce e c
     | _ \<Rightarrow> Inr (c, [Net x]))"

lemma route_quiet: "calls outs = [] \<Longrightarrow> route ce t outs c = Inr (c, map Net outs)"
proof (induction outs arbitrary: c)
  case (Cons x outs)
  then show ?case by (cases x) (simp_all add: andthen_def)
qed simp

text \<open>With one call, the effect is that of the call, among outputs to the network.\<close>

lemma route_one:
  assumes "calls outs = [x]" "route ce t outs c = Inr (c', os)"
  shows "\<exists>o1. route_call ce t x c = Inr (c', o1) \<and> connect_calls os = connect_calls o1 \<and> disconnect_calls os = disconnect_calls o1"
  using assms
proof (induction outs arbitrary: c os)
  case (Cons y outs)
  show ?case
  proof (cases "is_call y")
    case True
    with Cons.prems have y: "x = y" "calls outs = []" by auto
    with Cons.prems(2) True obtain o1 where "route_call ce t x c = Inr (c', o1)" "os = o1 @ map Net outs"
      by (auto simp: seq_simps route_quiet route_call_def)
    then show ?thesis by auto
  next
    case False
    then have "\<exists>o2. route ce t outs c = Inr (c', o2) \<and> os = Net y # o2"
      using Cons.prems(2) by (cases y) (auto simp: seq_simps)
    with Cons.IH [of c] Cons.prems(1) False show ?thesis by auto
  qed
qed simp

lemma balanced_same_calls:
  "balanced c c' o1 \<Longrightarrow> connect_calls os = connect_calls o1 \<Longrightarrow> disconnect_calls os = disconnect_calls o1 \<Longrightarrow> balanced c c' os"
  by (simp add: balanced_def)

text \<open>The open completion leaves a client whose transport is up, or one without a transport.\<close>

lemma on_opened_ok:
  assumes ok: "client_ok c" "cl_dialer c = Some d" and r: "on_opened ce t r c = Inr (c', outs)"
    and t: "r = Inr () \<Longrightarrow> wt_phase t = Ph_Open \<and> handlers_ok t \<and> wt_open_completion t = None"
  shows "client_ok c' \<and> balanced c c' outs"
proof (cases r)
  case (Inl e)
  have "cl_transport c = None" "cl_disconnect_waiters c \<noteq> [] \<Longrightarrow> cl_user_disconnect c"
    using ok by (auto simp: client_ok_def conn_ok_def split: option.splits)
  moreover have "handle_connection_lost ce e (c\<lparr>cl_dialer := None\<rparr>) = Inr (c', outs)"
    using r Inl by (simp add: on_opened_def)
  ultimately have "client_ok c' \<and> balanced (c\<lparr>cl_dialer := None\<rparr>) c' outs"
    by (intro connection_lost_ok) simp_all
  then show ?thesis by (simp add: balanced_def)
next
  case (Inr u)
  let ?t = "set_close_handler (Some ()) (set_receive_handler (Some ()) t)"
  have "up ?t" using t Inr
    by (simp add: up_def handlers_ok_def live_def connecting_def set_close_handler_def set_receive_handler_def)
  moreover from r Inr obtain c2 c3 o2 where 2: "enter_state FountainHandshaking None None (c\<lparr>cl_dialer := None, cl_transport := Some ?t\<rparr>) = Inr (c2, o2)"
    and 3: "(case cl_session c2 of None \<Rightarrow> null_pointer
        | Some s \<Rightarrow> bindE (on_transport_open (session_env ce c2) s) (\<lambda>s'. Inr (c2\<lparr>cl_session := Some s'\<rparr>, []))) = Inr (c3, [])"
    and 4: "c' = arm_tick c3" "outs = o2"
    by (simp add: on_opened_def Let_def seq_simps) (auto simp: exec_simps split: option.splits)
  moreover obtain s' where "c3 = c2\<lparr>cl_session := Some s'\<rparr>"
    using 3 by (cases "cl_session c2") (auto simp: exec_simps)
  moreover note enter_state_Inr [OF 2]
  ultimately show ?thesis using ok by (simp add: client_ok_def conn_ok_def balanced_def arm_tick_def split: option.splits)
qed

lemma dialer_event_ok:
  assumes ok: "client_ok c" and f: "\<And>t. dialing t \<Longrightarrow> dial_result (f t)" and r: "dialer_event ce f c = Inr (c', outs)"
  shows "client_ok c' \<and> balanced c c' outs"
proof (cases "cl_dialer c")
  case None
  with r ok show ?thesis by (auto simp: dialer_event_def)
next
  case (Some t)
  let ?c = "c\<lparr>cl_dialer := Some (fst (f t))\<rparr>"
  have d: "dialing t" "cl_transport c = None" using ok Some by (auto simp: client_ok_def conn_ok_def split: option.splits)
  have route: "route ce (fst (f t)) (snd (f t)) ?c = Inr (c', outs)"
    using r Some by (simp add: dialer_event_def case_prod_beta)
  from f [OF d(1)] consider "calls (snd (f t)) = []" "dialing (fst (f t))"
    | u r' where "calls (snd (f t)) = [Opened u r']"
        "r' = Inr () \<Longrightarrow> wt_phase (fst (f t)) = Ph_Open \<and> handlers_ok (fst (f t)) \<and> wt_open_completion (fst (f t)) = None"
    by (fastforce simp: dial_result_def)
  then show ?thesis
  proof cases
    case 1
    with route have "c' = ?c" "outs = map Net (snd (f t))" by (simp_all add: route_quiet)
    with 1 ok Some d show ?thesis by (simp add: client_ok_def conn_ok_def balanced_def)
  next
    case (2 u r')
    from route_one [OF 2(1) route] obtain o1 where o1: "on_opened ce (fst (f t)) r' ?c = Inr (c', o1)"
      "connect_calls outs = connect_calls o1" "disconnect_calls outs = disconnect_calls o1"
      by (auto simp: route_call_def)
    moreover have "on_opened ce (fst (f t)) r' ?c = on_opened ce (fst (f t)) r' c" by (simp add: on_opened_def)
    ultimately show ?thesis using on_opened_ok [OF ok Some, of ce "fst (f t)" r' c' o1] 2(2)
      by (auto intro: balanced_same_calls)
  qed
qed

lemma transport_event_ok:
  assumes ok: "client_ok c" and f: "\<And>t r. up t \<Longrightarrow> f t = Inr r \<Longrightarrow> up_result r" and r: "transport_event ce f c = Inr (c', outs)"
  shows "client_ok c' \<and> balanced c c' outs"
proof (cases "cl_transport c")
  case None
  with r ok show ?thesis by (auto simp: transport_event_def)
next
  case (Some t)
  have d: "up t" "cl_dialer c = None" "cl_disconnect_waiters c \<noteq> [] \<Longrightarrow> cl_user_disconnect c"
    using ok Some by (auto simp: client_ok_def conn_ok_def split: option.splits)
  from r Some obtain t' os where ft: "f t = Inr (t', os)" and route: "route ce t' os (c\<lparr>cl_transport := Some t'\<rparr>) = Inr (c', outs)"
    by (auto simp: transport_event_def exec_simps)
  from f [OF d(1) ft] consider "calls os = []" "up t'" | u e where "calls os = [Closed_call u e]"
    by (fastforce simp: up_result_def)
  then show ?thesis
  proof cases
    case 1
    with route have "c' = c\<lparr>cl_transport := Some t'\<rparr>" "outs = map Net os" by (simp_all add: route_quiet)
    with 1 ok Some d show ?thesis by (simp add: client_ok_def conn_ok_def balanced_def)
  next
    case (2 u e)
    from route_one [OF 2 route] obtain o1 where o1: "handle_transport_closed ce e (c\<lparr>cl_transport := Some t'\<rparr>) = Inr (c', o1)"
      "connect_calls outs = connect_calls o1" "disconnect_calls outs = disconnect_calls o1"
      by (auto simp: route_call_def)
    from transport_closed_ok [OF o1(1)] d have "client_ok c'" "balanced c c' o1"
      by (auto simp: balanced_def)
    with o1(2,3) show ?thesis by (auto intro: balanced_same_calls)
  qed
qed

lemma transport_event_pure:
  assumes "client_ok c" "\<And>t. up t \<Longrightarrow> up_result (f t)" "transport_event ce (\<lambda>t. Inr (f t)) c = Inr (c', outs)"
  shows "client_ok c' \<and> balanced c c' outs"
proof (rule transport_event_ok [OF assms(1) _ assms(3)])
  show "up_result r" if "up t" "(Inr (f t) :: _ exec) = Inr r" for t r
    using assms(2) [OF that(1)] that(2) by (metis sum.inject(2))
qed

text \<open>
  What the session's user relies on in a text transport: sending and closing are safe from within a
  callback, because they never call back and leave the transport usable.
\<close>

locale text_transport =
  fixes usable :: "'t \<Rightarrow> bool"
    and callbacks_of :: "'o list \<Rightarrow> 'o list"
    and tsend :: "string \<Rightarrow> 't \<Rightarrow> 't \<times> 'o list"
    and tclose :: "nat \<Rightarrow> string \<Rightarrow> 't \<Rightarrow> 't \<times> 'o list"
  assumes tsend_quiet: "usable t \<Longrightarrow> callbacks_of (snd (tsend f t)) = [] \<and> usable (fst (tsend f t))"
    and tclose_quiet: "usable t \<Longrightarrow> callbacks_of (snd (tclose n r t)) = [] \<and> usable (fst (tclose n r t))"
begin

lemma send_all_usable: "usable t \<Longrightarrow> usable (fold (\<lambda>f t. fst (tsend f t)) fs t)"
  by (induction fs arbitrary: t) (simp_all add: tsend_quiet)

lemma send_then_close_usable: "usable t \<Longrightarrow> usable (fst (tclose n r (fold (\<lambda>f t. fst (tsend f t)) fs t)))"
  by (simp add: tclose_quiet send_all_usable)

end

interpretation wss: text_transport up calls "\<lambda>f. async_send f (Some ())" close
  by unfold_locales (simp_all add: send_up close_up)

text \<open>Sending and closing never end a transport that is up.\<close>

lemma transport_event_stays:
  assumes ok: "client_ok c" "cl_transport c \<noteq> None" and f: "\<And>t. up t \<Longrightarrow> calls (snd (f t)) = [] \<and> up (fst (f t))"
    and r: "transport_event ce (\<lambda>t. Inr (f t)) c = Inr (c', outs)"
  shows "client_ok c' \<and> balanced c c' outs \<and> cl_transport c' \<noteq> None"
proof -
  obtain t where t: "cl_transport c = Some t" using ok by auto
  have "up t" using ok t by (auto simp: client_ok_def conn_ok_def split: option.splits)
  with f have "calls (snd (f t)) = []" by blast
  with r t have "c' = c\<lparr>cl_transport := Some (fst (f t))\<rparr>"
    by (auto simp: transport_event_def route_quiet case_prod_beta)
  moreover have "client_ok c' \<and> balanced c c' outs"
    using f r by (intro transport_event_pure [OF ok(1), of f]) (simp_all add: up_result_def)
  ultimately show ?thesis by simp
qed

lemma session_out_ok:
  assumes ok: "client_ok c" and r: "session_out ce x c = Inr (c', outs)"
    and x: "is_ready_call x \<Longrightarrow> cl_transport c \<noteq> None"
  shows "client_ok c' \<and> balanced c c' outs \<and> (cl_transport c' = None \<longleftrightarrow> cl_transport c = None)"
proof -
  have no_transport: ?thesis if "c' = c" "outs = []" using that ok by simp
  have cb: ?thesis if "callback ce x c = Inr (c', outs)"
  proof (cases "is_ready_call x")
    case True
    then obtain i where i: "x = On_ready i" by (cases x) auto
    with that have "on_ready i c = Inr (c', outs)" by simp
    from on_ready_effect [OF this] ok x i show ?thesis
      by (auto simp: client_ok_def conn_ok_def split: option.splits)
  next
    case False
    from callback_effect [OF that this] ok same_conn_ok [of c c'] show ?thesis by (auto simp: same_conn_def)
  qed
  show ?thesis
  proof (cases x)
    case (Frame f)
    show ?thesis
    proof (cases "cl_transport c")
      case None
      with r Frame show ?thesis by (intro no_transport) (simp_all add: send_frame_def)
    next
      case (Some t)
      with r Frame ok transport_event_stays [OF ok, of "async_send f (Some ())" ce c' outs] wss.tsend_quiet show ?thesis
        by (auto simp: send_frame_def split: if_splits)
    qed
  next
    case (Close_connection code reason)
    with r ok transport_event_stays [OF ok, of "close code reason" ce c' outs] wss.tclose_quiet show ?thesis
      by (cases "cl_transport c") (auto simp: transport_event_def)
  qed (use r cb in auto)
qed

lemma session_outs_ok:
  assumes "client_ok c" "session_outs ce xs c = Inr (c', outs)" "\<exists>x \<in> set xs. is_ready_call x \<Longrightarrow> cl_transport c \<noteq> None"
  shows "client_ok c' \<and> balanced c c' outs \<and> (cl_transport c' = None \<longleftrightarrow> cl_transport c = None)"
  using assms
proof (induction xs arbitrary: c outs)
  case (Cons x xs)
  then obtain c1 o1 o2 where 1: "session_out ce x c = Inr (c1, o1)" "session_outs ce xs c1 = Inr (c', o2)" "outs = o1 @ o2"
    by (auto simp: seq_simps)
  have a: "client_ok c1 \<and> balanced c c1 o1 \<and> (cl_transport c1 = None \<longleftrightarrow> cl_transport c = None)"
    using session_out_ok [OF Cons.prems(1) 1(1)] Cons.prems(3) by auto
  with Cons.IH [of c1 o2] 1 Cons.prems(3) have "client_ok c' \<and> balanced c1 c' o2 \<and> (cl_transport c' = None \<longleftrightarrow> cl_transport c1 = None)"
    by auto
  with a 1(3) show ?case by (auto intro: balanced_trans)
qed simp

section \<open>Tasks\<close>

lemma with_session_ok:
  assumes ok: "client_ok c" and r: "with_session ce f c = Inr (c', outs)"
    and f: "\<And>en s s' xs. f en s = Inr (s', xs) \<Longrightarrow> \<exists>x \<in> set xs. is_ready_call x \<Longrightarrow> cl_transport c \<noteq> None"
  shows "client_ok c' \<and> balanced c c' outs \<and> (cl_transport c' = None \<longleftrightarrow> cl_transport c = None)"
proof -
  from r obtain s s' xs where s: "cl_session c = Some s" "f (session_env ce c) s = Inr (s', xs)"
    and outs: "session_outs ce xs (c\<lparr>cl_session := Some s'\<rparr>) = Inr (c', outs)"
    by (auto simp: with_session_def exec_simps split: option.splits)
  have same: "same_conn c (c\<lparr>cl_session := Some s'\<rparr>)" using s by (simp add: same_conn_def)
  have "client_ok (c\<lparr>cl_session := Some s'\<rparr>)" using same_conn_ok [OF same] ok by simp
  from session_outs_ok [OF this outs] f [OF s(2)] show ?thesis by (simp add: balanced_def)
qed

lemma lift_out_not_ready: "\<not> is_ready_call (lift_out x)"
  by (cases x) (simp_all add: warn_def)

lemma with_session_quiet:
  assumes "client_ok c" "with_session ce f c = Inr (c', outs)"
    and "\<And>en s s' xs. f en s = Inr (s', xs) \<Longrightarrow> \<forall>x \<in> set xs. \<not> is_ready_call x"
  shows "client_ok c' \<and> balanced c c' outs"
  using with_session_ok [OF assms(1,2)] assms(3) by blast

lemma run_submit_ok:
  assumes ok: "client_ok c" and r: "run_submit ce spec h c = Inr (c', outs)"
  shows "client_ok c' \<and> balanced c c' outs"
proof (cases "cl_session c")
  case None
  with r have "answer_handler ce h (Inl not_connected) c = Inr (c', outs)" by (simp add: run_submit_def)
  from answer_handler_effect [OF this] same_conn_ok [of c c'] ok show ?thesis by simp
next
  case (Some s)
  with r have "with_session ce (\<lambda>en s. request en spec (Some h) s) c = Inr (c', outs)" by (simp add: run_submit_def)
  then show ?thesis
    by (rule with_session_quiet [OF ok]) (auto simp: request_def lift_step_def exec_simps lift_out_not_ready)
qed

lemma run_send_ok:
  assumes ok: "client_ok c" and r: "run_send ce ty body c = Inr (c', outs)"
  shows "client_ok c' \<and> balanced c c' outs"
proof (cases "cl_session c")
  case None
  with r ok show ?thesis by (simp add: run_send_def)
next
  case (Some s)
  with r have "with_session ce (\<lambda>en s. bindE (send_message en ty body [] (se_core s)) (\<lambda>(ok, core, frames).
      Inr (s\<lparr>se_core := core\<rparr>, map Frame frames))) c = Inr (c', outs)"
    by (simp add: run_send_def)
  then show ?thesis by (rule with_session_quiet [OF ok]) (auto simp: exec_simps)
qed

lemma post_same: "same_conn c (fold post ks c)"
  by (induction ks arbitrary: c) (auto simp: same_conn_def post_def)

lemma tick_poller_ok:
  assumes "tick_poller ce c = Inr (c', outs)"
  shows "same_conn c c' \<and> outs = []"
proof -
  have "same_conn c (fold post ks (c\<lparr>cl_poller := p\<rparr>))" for ks p
    using post_same [of "c\<lparr>cl_poller := p\<rparr>" ks] by (simp add: same_conn_def)
  then show ?thesis using assms
    by (auto simp: tick_poller_def exec_simps same_conn_def split: if_splits option.splits)
qed

lemma run_tick_ok:
  assumes ok: "client_ok c" and r: "run_tick ce c = Inr (c', outs)"
  shows "client_ok c' \<and> balanced c c' outs"
proof (cases "\<exists>t. cl_transport c = Some t \<and> is_open t")
  case True
  with r obtain c1 c2 o1 o2 where 1: "with_session ce (\<lambda>en s. session_tick en (en_now en) s) c = Inr (c1, o1)"
    and 2: "tick_poller ce c1 = Inr (c2, o2)" and 3: "c' = arm_tick c2" "outs = o1 @ o2"
    by (auto simp: run_tick_def seq_simps)
  from with_session_ok [OF ok 1] True have "client_ok c1" "balanced c c1 o1" by auto
  moreover have "same_conn c1 c'" "o2 = []"
    using tick_poller_ok [OF 2] 3 by (auto simp: same_conn_def arm_tick_def)
  ultimately show ?thesis using same_conn_ok [of c1 c'] 3(2) by (simp add: balanced_def same_conn_def)
next
  case False
  with r ok show ?thesis by (auto simp: run_tick_def split: option.splits if_splits)
qed

lemma run_read_ok:
  assumes ok: "client_ok c" and r: "run_read ce rx c = Inr (c', outs)"
  shows "client_ok c' \<and> balanced c c' outs"
proof -
  consider "cl_transport c = None"
    | t frame u where "cl_transport c = Some t" "rx = Rx_text frame" "wt_receive_handler t = Some u"
    | "transport_event ce (\<lambda>t. Inr (on_read [] rx t)) c = Inr (c', outs)"
    using r by (cases "cl_transport c"; cases rx) (auto simp: run_read_def split: option.splits)
  then show ?thesis
  proof cases
    case 1
    with r ok show ?thesis by (simp add: run_read_def)
  next
    case (2 t frame u)
    with r obtain o1 o2 where "with_session ce (\<lambda>en s. on_text en frame s) c = Inr (c', o1)" "outs = o1 @ o2"
      "connect_calls o2 = {#}" "disconnect_calls o2 = {#}"
      by (auto simp: run_read_def seq_simps split: option.splits if_splits)
    with with_session_ok [OF ok, of ce "\<lambda>en s. on_text en frame s" c' o1] 2(1) show ?thesis by (simp add: balanced_def)
  next
    case 3
    then show ?thesis using transport_event_pure [of c "on_read [] rx" ce c' outs] ok up_results(2) by blast
  qed
qed

section \<open>Connecting and disconnecting\<close>

text \<open>A step that adds one waiting call: what it adds is paid or still waiting.\<close>

lemma complete_connect_ok:
  assumes r: "complete_connect r c = Inr (c', outs)" and idle: "cl_transport c = None" "cl_dialer c = None"
    and "cl_state c \<in> {Disconnected_state, Reconnecting}" "cl_disconnect_waiters c = []"
  shows "client_ok c' \<and> balanced c c' outs"
  using assms by (auto simp: complete_connect_def client_ok_def conn_ok_def balanced_def)

lemma dial_effect: "dial ce c = Inr (c', outs) \<Longrightarrow> \<exists>t os. c' = c\<lparr>cl_dialer := Some t\<rparr> \<and> dialing t \<and> outs = map Net os"
  by (auto simp: dial_def dialer_event_def async_open_def make_transport_def Let_def andthen_def dialing_def handlers_ok_def
      connecting_def intro!: exI [of _ "[_, _]"])

lemma ensure_session_effect: "cl_session c = None \<Longrightarrow> \<exists>s. ensure_session c = c\<lparr>cl_session := Some s\<rparr>"
  by (simp add: ensure_session_def Let_def) blast

lemma start_attempt_ok:
  assumes idle: "cl_transport c = None" "cl_dialer c = None" "cl_state c \<in> {Disconnected_state, Reconnecting}"
    "cl_disconnect_waiters c = []" and r: "start_attempt ce c = Inr (c', outs)"
  shows "client_ok c' \<and> balanced c c' outs"
proof -
  let ?c = "c\<lparr>cl_reconnect_timer := None\<rparr>"
  let ?c1 = "c\<lparr>cl_reconnect_timer := None, cl_security := sec_lock (cl_security c), cl_user_disconnect := False,
     cl_session_failure := None, cl_session := None\<rparr>"
  consider e where "complete_connect (Inl e) ?c = Inr (c', outs)"
    | e where "complete_connect (Inl e) ?c1 = Inr (c', outs)"
    | "andthen (modify ensure_session) (andthen (enter_state Resolving None None) (dial ce)) ?c1 = Inr (c', outs)"
    using r by (auto simp: start_attempt_def Let_def split: sum.splits)
  then show ?thesis
  proof cases
    case (1 e)
    from complete_connect_ok [OF this] idle show ?thesis by (simp add: balanced_def)
  next
    case (2 e)
    from complete_connect_ok [OF this] idle show ?thesis by (simp add: balanced_def)
  next
    case 3
    obtain s where "ensure_session ?c1 = ?c1\<lparr>cl_session := Some s\<rparr>" using ensure_session_effect [of ?c1] by auto
    with 3 obtain t o1 os where "c' = ?c1\<lparr>cl_session := Some s, cl_state := Resolving, cl_dialer := Some t\<rparr>"
      "dialing t" "outs = o1 @ map Net os" "connect_calls o1 = {#}" "disconnect_calls o1 = {#}"
      by (auto simp: seq_simps dest!: enter_state_Inr dial_effect)
    then show ?thesis using idle by (simp add: client_ok_def conn_ok_def balanced_def)
  qed
qed

text \<open>One more call waits before the step, and the step owes it like the others.\<close>

definition owing :: "'h multiset \<Rightarrow> 'h multiset \<Rightarrow> 'h client \<Rightarrow> 'h client \<Rightarrow> 'h cout list \<Rightarrow> bool" where
  "owing conns discs c c' outs \<longleftrightarrow>
     connect_calls outs + mset (cl_connect_completions c') = conns + mset (cl_connect_completions c) \<and>
     disconnect_calls outs + mset (cl_disconnect_waiters c') = discs + mset (cl_disconnect_waiters c)"

definition asked :: "'h option \<Rightarrow> 'h multiset" where
  "asked h = (case h of None \<Rightarrow> {#} | Some x \<Rightarrow> {#x#})"

lemma asked_simps [simp]: "asked None = {#}" "asked (Some x) = {#x#}"
  by (simp_all add: asked_def)

lemma balanced_owing: "balanced c c' outs \<longleftrightarrow> owing {#} {#} c c' outs"
  by (simp add: balanced_def owing_def)

lemma mset_option [simp]: "mset (case h of None \<Rightarrow> [] | Some x \<Rightarrow> [x]) = asked h"
  by (cases h) simp_all

lemma begin_connect_ok:
  assumes ok: "client_ok c" and r: "begin_connect ce h c = Inr (c', outs)"
  shows "client_ok c' \<and> owing (asked h) {#} c c' outs"
proof -
  let ?c = "c\<lparr>cl_connect_completions := cl_connect_completions c @ (case h of None \<Rightarrow> [] | Some x \<Rightarrow> [x])\<rparr>"
  consider "cl_state c = Ready" | "cl_state c = Closing"
    | "cl_state c \<notin> {Ready, Closing, Disconnected_state, Reconnecting}" | "cl_state c \<in> {Disconnected_state, Reconnecting}" by blast
  then show ?thesis
  proof cases
    case 1
    with r ok show ?thesis by (auto simp: begin_connect_def owing_def split: option.splits)
  next
    case 2
    with ok show ?thesis by (auto simp: client_ok_def conn_ok_def split: option.splits)
  next
    case 3
    with r have "c' = ?c" "outs = []" by (auto simp: begin_connect_def Let_def)
    with 3 ok show ?thesis by (auto simp: client_ok_def conn_ok_def owing_def split: option.splits)
  next
    case 4
    with ok have "cl_transport ?c = None" "cl_dialer ?c = None" "cl_state ?c \<in> {Disconnected_state, Reconnecting}"
      "cl_disconnect_waiters ?c = []"
      by (auto simp: client_ok_def conn_ok_def split: option.splits)
    moreover have "start_attempt ce ?c = Inr (c', outs)" using r 4 by (auto simp: begin_connect_def Let_def)
    ultimately have "client_ok c' \<and> balanced ?c c' outs" by (rule start_attempt_ok)
    then show ?thesis by (simp add: balanced_def owing_def)
  qed
qed

lemma request_disconnect_ok:
  assumes ok: "client_ok c" and r: "request_disconnect ce h c = Inr (c', outs)"
  shows "client_ok c' \<and> owing {#} (asked h) c c' outs"
proof -
  let ?c = "c\<lparr>cl_user_disconnect := True, cl_poller := poll_stop (cl_poller c), cl_reconnect_timer := None, cl_tick_timer := False\<rparr>"
  let ?w = "?c\<lparr>cl_disconnect_waiters := cl_disconnect_waiters c @ (case h of None \<Rightarrow> [] | Some x \<Rightarrow> [x])\<rparr>"
  consider "cl_transport c \<noteq> None" | "cl_transport c = None" "cl_dialer c \<noteq> None"
    | "cl_transport c = None" "cl_dialer c = None" by blast
  then show ?thesis
  proof cases
    case 1
    then have "client_ok ?w" using ok by (auto simp: client_ok_def conn_ok_def split: option.splits)
    moreover have "transport_event ce (\<lambda>t. Inr (close kCloseNormal ''client shutdown'' t)) ?w = Inr (c', outs)"
      using r 1 by (simp add: request_disconnect_def Let_def)
    ultimately have "client_ok c' \<and> balanced ?w c' outs"
      using close_up by (intro transport_event_pure [of ?w "close kCloseNormal ''client shutdown''"]) (auto simp: up_result_def)
    then show ?thesis by (simp add: balanced_def owing_def)
  next
    case 2
    then have "client_ok ?w" using ok by (auto simp: client_ok_def conn_ok_def split: option.splits)
    moreover have "dialer_event ce cancel ?w = Inr (c', outs)" using r 2 by (simp add: request_disconnect_def Let_def)
    ultimately have "client_ok c' \<and> balanced ?w c' outs" using dial_results(5) by (intro dialer_event_ok)
    then show ?thesis by (simp add: balanced_def owing_def)
  next
    case 3
    with r ok show ?thesis
      by (auto simp: request_disconnect_def Let_def seq_simps unlock_security_def client_ok_def conn_ok_def owing_def
          dest!: enter_state_Inr split: option.splits)
  qed
qed

section \<open>Every run\<close>

text \<open>The \<open>connect\<close> and \<open>disconnect\<close> calls a step takes from the queue.\<close>

fun connects :: "'h action \<Rightarrow> 'h client \<Rightarrow> 'h multiset" where
  "connects Run_next c = (case cl_tasks c of Connect_task h # ks \<Rightarrow> asked h | _ \<Rightarrow> {#})" | "connects _ c = {#}"

fun disconnects :: "'h action \<Rightarrow> 'h client \<Rightarrow> 'h multiset" where
  "disconnects Run_next c = (case cl_tasks c of Disconnect_task h # ks \<Rightarrow> asked h | _ \<Rightarrow> {#})" | "disconnects _ c = {#}"

lemma run_task_ok:
  assumes ok: "client_ok c" and r: "run_task ce k c = Inr (c', outs)"
  shows "client_ok c' \<and> owing (case k of Connect_task h \<Rightarrow> asked h | _ \<Rightarrow> {#}) (case k of Disconnect_task h \<Rightarrow> asked h | _ \<Rightarrow> {#}) c c' outs"
proof (cases k)
  case Reconnect_task
  show ?thesis
  proof (cases "cl_user_disconnect c")
    case True
    with r Reconnect_task have "c' = c" "outs = []" by simp_all
    with ok Reconnect_task show ?thesis by (simp add: owing_def)
  next
    case False
    with r Reconnect_task have "begin_connect ce None c = Inr (c', outs)" by simp
    from begin_connect_ok [OF ok this] Reconnect_task show ?thesis by simp
  qed
next
  case (Submit_task spec h)
  with r run_submit_ok [OF ok, of ce spec h c' outs] show ?thesis by (simp add: balanced_owing)
next
  case (Send_task ty body)
  with r run_send_ok [OF ok, of ce ty body c' outs] show ?thesis by (simp add: balanced_owing)
next
  case (Connect_task h)
  with r begin_connect_ok [OF ok, of ce h c' outs] show ?thesis by simp
next
  case (Disconnect_task h)
  with r request_disconnect_ok [OF ok, of ce h c' outs] show ?thesis by simp
next
  case Tick_task
  with r run_tick_ok [OF ok, of ce c' outs] show ?thesis by (simp add: balanced_owing)
qed

lemma client_step_ok:
  assumes ok: "client_ok c" and r: "client_step ce a c = Inr (c', outs)"
  shows "client_ok c' \<and> owing (connects a c) (disconnects a c) c c' outs"
proof -
  have same: "client_ok c' \<and> balanced c c' outs" if "same_conn c c'" "outs = []"
    using that ok same_conn_ok by (auto simp: same_conn_balanced)
  have dial: "client_ok c' \<and> balanced c c' outs"
    if "dialer_event ce f c = Inr (c', outs)" "\<And>t. dialing t \<Longrightarrow> dial_result (f t)" for f
    using dialer_event_ok [OF ok that(2) that(1)] .
  show ?thesis
  proof (cases a)
    case Run_next
    show ?thesis
    proof (cases "cl_tasks c")
      case Nil
      with r Run_next ok show ?thesis by (simp add: owing_def)
    next
      case (Cons k ks)
      let ?c = "c\<lparr>cl_tasks := ks\<rparr>"
      have "client_ok ?c" using ok by (simp add: client_ok_def)
      from run_task_ok [OF this, of ce k c' outs] r Run_next Cons show ?thesis
        by (cases k) (auto simp: owing_def)
    qed
  next
    case (Io_read_done rx)
    with r run_read_ok [OF ok, of ce rx] show ?thesis by (simp add: balanced_owing)
  next
    case (Io_write_done ec)
    with r transport_event_ok [OF ok, of "on_write ec" ce] up_results(3) show ?thesis by (auto simp: balanced_owing)
  next
    case Io_close_done
    with r transport_event_pure [OF ok, of on_close ce] up_results(1) show ?thesis by (auto simp: balanced_owing)
  next
    case (Io_resolved ec)
    with r dial have "client_ok c' \<and> balanced c c' outs" by (auto intro: dial_results)
    then show ?thesis by (simp add: balanced_owing Io_resolved)
  next
    case (Io_connected ec)
    with r dial have "client_ok c' \<and> balanced c c' outs" by (auto intro: dial_results)
    then show ?thesis by (simp add: balanced_owing Io_connected)
  next
    case (Io_tls_done ec)
    with r dial have "client_ok c' \<and> balanced c c' outs" by (auto intro: dial_results)
    then show ?thesis by (simp add: balanced_owing Io_tls_done)
  next
    case (Io_ws_done ec)
    with r dial have "client_ok c' \<and> balanced c c' outs" by (auto intro: dial_results)
    then show ?thesis by (simp add: balanced_owing Io_ws_done)
  next
    case (Post k)
    with r same show ?thesis by (auto simp: balanced_owing [symmetric] same_conn_def post_def)
  next
    case Reconnect_expires
    with r same show ?thesis by (auto simp: balanced_owing [symmetric] same_conn_def post_def split: if_splits)
  next
    case Tick_expires
    with r same show ?thesis by (auto simp: balanced_owing [symmetric] same_conn_def post_def split: if_splits)
  qed
qed

text \<open>
  Runs of a client that is configured by the user at any time. \<open>conns\<close> and \<open>discs\<close> are the calls
  taken from the queue so far, \<open>tr\<close> is everything the client did.
\<close>

inductive client_run :: "'h client \<Rightarrow> 'h multiset \<Rightarrow> 'h multiset \<Rightarrow> 'h cout list \<Rightarrow> bool" where
  start: "client_run (make_client ep) {#} {#} []"
| configure: "client_run c conns discs tr \<Longrightarrow>
    client_run (c\<lparr>cl_options := opts, cl_security := sec, cl_ota_policy := pol, cl_datapoints := m, cl_poller := p, cl_events := b\<rparr>)
      conns discs tr"
| step: "client_run c conns discs tr \<Longrightarrow> client_step ce a c = Inr (c', outs) \<Longrightarrow>
    client_run c' (conns + connects a c) (discs + disconnects a c) (tr @ outs)"

lemma client_run_ok:
  "client_run c conns discs tr \<Longrightarrow> client_ok c \<and> connect_calls tr + mset (cl_connect_completions c) = conns \<and>
    disconnect_calls tr + mset (cl_disconnect_waiters c) = discs"
proof (induction rule: client_run.induct)
  case (start ep)
  show ?case by (simp add: make_client_def client_ok_def conn_ok_def)
next
  case (configure c conns discs tr opts sec pol m p b)
  then show ?case by (simp add: client_ok_def)
next
  case (step c conns discs tr ce a c' outs)
  then have 1: "client_ok c'" "owing (connects a c) (disconnects a c) c c' outs" using client_step_ok by blast+
  then show ?case using step.IH by (auto simp: owing_def ac_simps)
qed

text \<open>
  C6: In every run of a client, whatever the order of calls, timers and network events, each
  \<open>connect()\<close> and each \<open>disconnect()\<close> taken from the queue has either been answered exactly once or
  is still waiting; nobody waits while there is neither an attempt nor a connection, and the client is
  then disconnected or waits to reconnect. A client that is ready has its connection, its session and
  its device information, and nobody waits for it to connect.
\<close>

theorem connect_answered_once:
  assumes "client_run c conns discs tr"
  shows "connect_calls tr + mset (cl_connect_completions c) = conns \<and>
    disconnect_calls tr + mset (cl_disconnect_waiters c) = discs \<and>
    (cl_transport c = None \<and> cl_dialer c = None \<longrightarrow>
       cl_connect_completions c = [] \<and> cl_disconnect_waiters c = [] \<and> cl_state c \<in> {Disconnected_state, Reconnecting}) \<and>
    (cl_state c = Ready \<longrightarrow> cl_info c \<noteq> None \<and> cl_session c \<noteq> None \<and> cl_connect_completions c = [] \<and> cl_dialer c = None \<and>
       (\<exists>t. cl_transport c = Some t \<and> live t \<and> wt_close_handler t \<noteq> None)) \<and>
    (cl_disconnect_waiters c \<noteq> [] \<longrightarrow> cl_user_disconnect c)"
proof -
  have ok: "client_ok c" and n: "connect_calls tr + mset (cl_connect_completions c) = conns"
    "disconnect_calls tr + mset (cl_disconnect_waiters c) = discs"
    using client_run_ok [OF assms] by auto
  have "cl_state c = Ready \<Longrightarrow> \<exists>t. cl_transport c = Some t \<and> up t \<and> cl_dialer c = None"
    using ok by (auto simp: client_ok_def conn_ok_def split: option.splits)
  then have "cl_state c = Ready \<longrightarrow> cl_info c \<noteq> None \<and> cl_session c \<noteq> None \<and> cl_connect_completions c = [] \<and> cl_dialer c = None \<and>
       (\<exists>t. cl_transport c = Some t \<and> live t \<and> wt_close_handler t \<noteq> None)"
    using ok by (auto simp: client_ok_def conn_ok_def up_def split: option.splits)
  moreover have "cl_transport c = None \<and> cl_dialer c = None \<longrightarrow>
       cl_connect_completions c = [] \<and> cl_disconnect_waiters c = [] \<and> cl_state c \<in> {Disconnected_state, Reconnecting}"
    and "cl_disconnect_waiters c \<noteq> [] \<longrightarrow> cl_user_disconnect c"
    using ok by (auto simp: client_ok_def conn_ok_def split: option.splits)
  ultimately show ?thesis using n by simp
qed

text \<open>A client without credentials: its first \<open>connect()\<close> is refused.\<close>

lemma unconfigured_connect:
  "\<exists>c tr. client_run c {#7 :: nat#} {#} tr \<and> cl_transport c = None \<and> cl_dialer c = None"
proof -
  fix ep :: endpoint and ce :: client_env
  let ?c = "make_client ep :: nat client" and ?a = "Post (Connect_task (Some 7)) :: nat action"
  have "client_run (post (Connect_task (Some 7)) ?c) {#} {#} []"
    using client_run.step [OF client_run.start, of ce ?a ep] by simp
  from client_run.step [OF this, of ce Run_next] show ?thesis
    by (fastforce simp: post_def make_client_def begin_connect_def start_attempt_def sec_validate_def make_security_def
        complete_connect_def)
qed

theorem connect_answered_once_witness:
  "\<exists>c tr. client_run c {#7 :: nat#} {#} tr \<and> connect_calls tr = {#7#}"
proof -
  obtain c tr where r: "client_run c {#7 :: nat#} {#} tr" and n: "cl_transport c = None" "cl_dialer c = None"
    using unconfigured_connect by (elim exE conjE)
  from connect_answered_once [OF r] n have "connect_calls tr = {#7#}" by auto
  with r show ?thesis by blast
qed

section \<open>Reconnecting\<close>

lemma next_backoff_power:
  assumes "0 < rp_initial_delay p" "rp_initial_delay p \<le> rp_max_delay p"
  shows "(next_backoff p ^^ Suc n) 0 = min (rp_max_delay p) (rp_initial_delay p * 2 ^ n)"
proof (induction n)
  case 0
  show ?case using assms by (simp add: next_backoff_def)
next
  case (Suc n)
  have "0 < rp_initial_delay p * 2 ^ n" using assms by simp
  then have "min (rp_max_delay p) (rp_initial_delay p * 2 ^ n) \<noteq> 0" using assms by linarith
  with Suc show ?case using assms by (simp add: next_backoff_def min_def)
qed

lemma lost_schedules:
  assumes "\<not> cl_user_disconnect c" "cl_was_ready c" "rp_enabled (op_reconnect (cl_options c))"
    and "schedule_reconnect ce cause (c\<lparr>cl_connect_completions := []\<rparr>) = (d, c1)"
  shows "\<exists>outs. handle_connection_lost ce cause c = Inr (c1\<lparr>cl_state := Reconnecting, cl_reconnect_timer := Some d\<rparr>, outs)"
  using assms
  by (auto simp: handle_connection_lost_def andthen_def modify_def complete_connect_def enter_state_def Let_def)



text \<open>
  If the credentials can no longer be read when the client reconnects, the attempt ends without a new
  timer: the client stays in the state \<open>Reconnecting\<close> and nothing will ever happen there.
\<close>

lemma reconnect_gives_up:
  assumes "cl_state c = Reconnecting" "sec_validate (ce_files ce) (cl_security c) = Inl e"
  shows "\<exists>c' outs. begin_connect ce None c = Inr (c', outs) \<and> cl_state c' = Reconnecting \<and>
    cl_reconnect_timer c' = None \<and> cl_tasks c' = cl_tasks c \<and> cl_dialer c' = cl_dialer c"
  using assms by (simp add: begin_connect_def start_attempt_def complete_connect_def)

end
