(* ===== verification/Session_Safety.thy ===== *)
theory Session_Safety
  imports Session
begin

text \<open>
  The life of a session as a step relation over its public operations, its invariant by rule
  induction, and the properties of the handshake, of the outgoing control messages and of the
  handlers that every run has.
\<close>

section \<open>Steps\<close>

datatype 'h sop =
    Op_open
  | Op_closed error
  | Op_text string
  | Op_tick int
  | Op_request request_spec "'h option"
  | Op_send string json string

fun session_step :: "env \<Rightarrow> 'h sop \<Rightarrow> 'h session \<Rightarrow> 'h sstep" where
  "session_step en Op_open s = bindE (on_transport_open en s) (\<lambda>s'. Inr (s', []))"
| "session_step en (Op_closed e) s = Inr (on_transport_closed e s)"
| "session_step en (Op_text frame) s = on_text en frame s"
| "session_step en (Op_tick now) s = session_tick en now s"
| "session_step en (Op_request spec h) s = request en spec h s"
| "session_step en (Op_send ty body rep) s =
     bindE (send_message en ty body rep (se_core s)) (\<lambda>(ok, c, frames).
       Inr (s\<lparr>se_core := c\<rparr>, map Frame frames))"

fun op_handlers :: "'h sop \<Rightarrow> 'h multiset" where
  "op_handlers (Op_request spec (Some h)) = {#h#}"
| "op_handlers _ = {#}"

text \<open>
  A run from construction: the transport opens a session only when it is closed (one connection at a
  time). It records the handlers submitted so far and the output so far.
\<close>

inductive session_run :: "session_config \<Rightarrow> 'h session \<Rightarrow> 'h multiset \<Rightarrow> 'h sout list \<Rightarrow> bool" for cfg where
  start: "session_run cfg (make_session cfg) {#} []"
| step: "session_run cfg s hs outs \<Longrightarrow> op = Op_open \<longrightarrow> ss_state (se_core s) = Closed \<Longrightarrow>
    session_step en op s = Inr (s', outs') \<Longrightarrow>
    session_run cfg s' (hs + op_handlers op) (outs @ outs')"

section \<open>Invariant\<close>

definition session_ok :: "'h session \<Rightarrow> bool" where
  "session_ok s \<longleftrightarrow>
     (ss_failed (se_core s) \<longrightarrow> ss_state (se_core s) = Closed) \<and>
     (ss_state (se_core s) \<noteq> Running \<longrightarrow> dq_pending (se_dispatcher s) = []) \<and>
     (dq_sending_enabled (se_dispatcher s) \<longleftrightarrow> ss_state (se_core s) = Running) \<and>
     \<not> dq_draining (se_dispatcher s) \<and>
     omap_ok (dq_pending (se_dispatcher s)) \<and>
     ses.tracked (se_dispatcher s) (se_core s) \<and>
     length (dq_pending (se_dispatcher s)) \<le> rb_max_in_flight (dq_budget (se_dispatcher s))"

definition answers :: "'h sout list \<Rightarrow> 'h multiset" where
  "answers outs = mset (concat (map (\<lambda>x. case x of Answer h r \<Rightarrow> [h] | _ \<Rightarrow> []) outs))"

lemma answers_simps [simp]:
  "answers [] = {#}" "answers (xs @ ys) = answers xs + answers ys"
  "answers (Frame f # xs) = answers xs" "answers (Close_connection n r # xs) = answers xs"
  "answers (On_failed e # xs) = answers xs" "answers (On_ready i # xs) = answers xs"
  "answers (On_event v # xs) = answers xs" "answers (On_dp_report j q # xs) = answers xs"
  "answers (map Frame fs) = {#}" "answers (warn a b # xs) = answers xs"
  by (auto simp: answers_def warn_def comp_def)

lemma answers_lift [simp]: "answers (map lift_out outs) = answered outs"
proof -
  have "(case lift_out x of Answer h r \<Rightarrow> [h] | _ \<Rightarrow> []) = (case x of Done h r \<Rightarrow> [h] | _ \<Rightarrow> [])"
    for x :: "('a, string) dout"
    by (cases x) (simp_all add: warn_def)
  then show ?thesis by (simp add: answers_def answered_def comp_def)
qed

text \<open>The parts of the core that sending a message never touches.\<close>

definition core_frame :: "session_core \<Rightarrow> session_core \<Rightarrow> bool" where
  "core_frame c c' \<longleftrightarrow>
     ss_state c' = ss_state c \<and> ss_failed c' = ss_failed c \<and> ss_auth c' = ss_auth c \<and>
     ss_replay c' = ss_replay c \<and> ss_info c' = ss_info c \<and> ss_config c' = ss_config c \<and>
     ss_handshake_deadline c' = ss_handshake_deadline c \<and>
     ss_msg_seq c \<le> ss_msg_seq c' \<and> ss_s2c_seq c \<le> ss_s2c_seq c'"

lemma core_frame_refl [simp]: "core_frame c c"
  by (simp add: core_frame_def)

lemma core_frame_trans: "core_frame a b \<Longrightarrow> core_frame b c \<Longrightarrow> core_frame a c"
  by (auto simp: core_frame_def)

lemma encode_and_send_frame: "encode_and_send en spec c = Inr (r, c', fs) \<Longrightarrow> core_frame c c'"
  using encode_and_send_seq by (fastforce simp: core_frame_def)

lemma send_message_frame:
  assumes "send_message en ty body rep c = Inr (ok, c', fs)"
  shows "core_frame c c' \<and> ss_msg_seq c' = ss_msg_seq c"
proof -
  from assms obtain m smsg c1 where "sign_control en (find_meta ty) m c = Inr (smsg, c1)"
    and t: "transmit en smsg c1 = Inr (ok, c', fs)"
    by (auto simp: send_message_def exec_simps)
  then obtain n where "c1 = c\<lparr>ss_s2c_seq := n\<rparr>" "ss_s2c_seq c \<le> n" by (elim sign_control_core)
  with t show ?thesis by (auto simp: transmit_def exec_simps core_frame_def split: if_splits)
qed

lemma tracked_frame: "ses.tracked d c \<Longrightarrow> ss_msg_seq c \<le> ss_msg_seq c' \<Longrightarrow> ses.tracked d c'"
  by (auto simp: ses.tracked_def intro: used_id_mono)

lemma session_ok_core:
  assumes "session_ok s" and "ss_state c = ss_state (se_core s)" and "ss_failed c = ss_failed (se_core s)"
    and "ss_msg_seq (se_core s) \<le> ss_msg_seq c"
  shows "session_ok (s\<lparr>se_core := c\<rparr>)"
  using assms tracked_frame by (fastforce simp: session_ok_def)

lemma session_ok_make: "session_ok (make_session cfg)"
  by (auto simp: session_ok_def make_session_def make_dispatcher_def ses.tracked_def)

lemma enter_simps [simp]:
  "ss_state (se_core (enter x s)) = x"
  "ss_failed (se_core (enter x s)) = ss_failed (se_core s)"
  "ss_msg_seq (se_core (enter x s)) = ss_msg_seq (se_core s)"
  "ss_info (se_core (enter x s)) = ss_info (se_core s)"
  "ss_auth (se_core (enter x s)) = ss_auth (se_core s)"
  "ss_replay (se_core (enter x s)) = ss_replay (se_core s)"
  "ss_s2c_seq (se_core (enter x s)) = ss_s2c_seq (se_core s)"
  "dq_pending (se_dispatcher (enter x s)) = dq_pending (se_dispatcher s)"
  "dq_queue (se_dispatcher (enter x s)) = dq_queue (se_dispatcher s)"
  "dq_draining (se_dispatcher (enter x s)) = dq_draining (se_dispatcher s)"
  "dq_budget (se_dispatcher (enter x s)) = dq_budget (se_dispatcher s)"
  "held (se_dispatcher (enter x s)) = held (se_dispatcher s)"
  by (auto simp: enter_def held_def)

lemma enter_enabled:
  "session_ok s \<Longrightarrow> dq_sending_enabled (se_dispatcher (enter x s)) \<longleftrightarrow> x = Running"
  by (auto simp: enter_def session_ok_def)

lemma session_ok_enter:
  assumes "session_ok s" and "dq_pending (se_dispatcher s) = []" and "ss_failed (se_core s) \<longrightarrow> x = Closed"
  shows "session_ok (enter x s)"
  using assms enter_enabled [OF assms(1), of x] by (simp add: session_ok_def ses.tracked_def)

section \<open>Each operation keeps the invariant and every handler\<close>

text \<open>The two facts go together in every case: \<open>keeps s hs s' outs\<close>.\<close>

definition keeps :: "'h session \<Rightarrow> 'h multiset \<Rightarrow> 'h session \<Rightarrow> 'h sout list \<Rightarrow> bool" where
  "keeps s hs s' outs \<longleftrightarrow>
     session_ok s' \<and> dq_budget (se_dispatcher s') = dq_budget (se_dispatcher s) \<and>
     held (se_dispatcher s') + answers outs = held (se_dispatcher s) + hs"

lemma fail_all_simps [simp]:
  "dq_pending (fst (fail_all e d)) = []" "dq_queue (fst (fail_all e d)) = []"
  "dq_sending_enabled (fst (fail_all e d)) = dq_sending_enabled d"
  "dq_draining (fst (fail_all e d)) = dq_draining d" "dq_budget (fst (fail_all e d)) = dq_budget d"
  by (simp_all add: fail_all_def)

lemma fail_requests_keeps:
  assumes "\<not> dq_draining (se_dispatcher s)"
    and "ss_failed (se_core s) \<longrightarrow> ss_state (se_core s) = Closed"
    and "dq_sending_enabled (se_dispatcher s) \<longleftrightarrow> ss_state (se_core s) = Running"
    and "fail_requests e s = (s', outs)"
  shows "keeps s {#} s' outs \<and> se_core s' = se_core s \<and> held (se_dispatcher s') = {#}"
proof -
  obtain d' and xs :: "('a, string) dout list" where f: "fail_all e (se_dispatcher s) = (d', xs)" by fastforce
  then have s': "s' = s\<lparr>se_dispatcher := d'\<rparr>" "outs = map lift_out xs"
    using assms(4) by (auto simp: fail_requests_def)
  have "d' = fst (fail_all e (se_dispatcher s) :: 'a dispatcher \<times> ('a, string) dout list)" by (simp add: f)
  then show ?thesis
    using assms ses.fail_all_conserves [OF f] by (auto simp: keeps_def session_ok_def s' ses.tracked_def)
qed

lemma on_transport_closed_keeps:
  assumes "session_ok s" and "on_transport_closed e s = (s', outs)"
  shows "keeps s {#} s' outs \<and> held (se_dispatcher s') = {#}"
proof -
  have "keeps (enter Closed s) {#} s' outs \<and> held (se_dispatcher s') = {#}"
    using fail_requests_keeps [of "enter Closed s" e s' outs] assms enter_enabled [OF assms(1), of Closed]
    by (auto simp: on_transport_closed_def session_ok_def)
  then show ?thesis by (auto simp: keeps_def)
qed

lemma abort_keeps:
  assumes "session_ok s" and "abort e n r s = (s', outs)"
  shows "keeps s {#} s' outs \<and> ss_state (se_core s') = Closed \<and> ss_failed (se_core s')"
proof (cases "ss_failed (se_core s)")
  case True
  with assms show ?thesis by (auto simp: abort_def keeps_def session_ok_def)
next
  case False
  let ?s1 = "enter Closed (s\<lparr>se_core := (se_core s)\<lparr>ss_failed := True\<rparr>\<rparr>)"
  obtain s2 outs2 where f: "fail_requests e ?s1 = (s2, outs2)" by fastforce
  with False assms(2) have s': "s' = s2" "outs = outs2 @ [Close_connection n r, On_failed e]"
    by (auto simp: abort_def)
  have "\<not> dq_sending_enabled (se_dispatcher ?s1)"
    using assms(1) by (auto simp: enter_def session_ok_def)
  then have "keeps ?s1 {#} s2 outs2 \<and> se_core s2 = se_core ?s1"
    using fail_requests_keeps [OF _ _ _ f] assms(1) by (simp add: session_ok_def)
  then show ?thesis by (simp add: keeps_def s')
qed

text \<open>Steps of the dispatcher that may send.\<close>

lemma lift_step_keeps:
  assumes ok: "session_ok s"
    and step: "lift_step s r = Inr (s', outs)"
    and r: "\<And>d c xs. r = Inr (d, c, xs) \<Longrightarrow>
      frame_kept (se_dispatcher s) d \<and> core_frame (se_core s) c \<and>
      (\<not> dq_sending_enabled (se_dispatcher s) \<longrightarrow> set (dq_pending d) \<subseteq> set (dq_pending (se_dispatcher s))) \<and>
      length (dq_pending d) \<le> max (length (dq_pending (se_dispatcher s)))
        (rb_max_in_flight (dq_budget (se_dispatcher s))) \<and>
      ses.tracked d c \<and> held d + answered xs = held (se_dispatcher s) + hs"
  shows "keeps s hs s' outs \<and> core_frame (se_core s) (se_core s')"
proof -
  from step obtain d c xs where *: "r = Inr (d, c, xs)" "s' = s\<lparr>se_core := c, se_dispatcher := d\<rparr>"
    "outs = map lift_out xs"
    by (auto simp: lift_step_def exec_simps)
  from r [OF *(1)] ok show ?thesis
    by (auto simp: *(2,3) keeps_def session_ok_def core_frame_def frame_kept_def)
qed

lemma request_keeps:
  assumes "session_ok s" and "request en spec h s = Inr (s', outs)"
  shows "keeps s (mset (live [h])) s' outs \<and> core_frame (se_core s) (se_core s')"
proof (rule lift_step_keeps [OF assms(1)])
  show "lift_step s (submit (encode_and_send en) spec h (en_now en) (se_dispatcher s) (se_core s)) = Inr (s', outs)"
    using assms(2) by (simp add: request_def)
  fix d c xs
  assume r: "submit (encode_and_send en) spec h (en_now en) (se_dispatcher s) (se_core s) = Inr (d, c, xs)"
  have "core_frame (se_core s) c"
    by (rule submit_owner [OF r]) (auto intro: core_frame_trans encode_and_send_frame)
  with submit_frame [OF r] submit_in_flight [OF r] submit_disabled [OF _ r] ses.submit_conserves [OF r] assms(1)
  show "frame_kept (se_dispatcher s) d \<and> core_frame (se_core s) c \<and>
      (\<not> dq_sending_enabled (se_dispatcher s) \<longrightarrow> set (dq_pending d) \<subseteq> set (dq_pending (se_dispatcher s))) \<and>
      length (dq_pending d) \<le> max (length (dq_pending (se_dispatcher s)))
        (rb_max_in_flight (dq_budget (se_dispatcher s))) \<and>
      ses.tracked d c \<and> held d + answered xs = held (se_dispatcher s) + mset (live [h])"
    by (simp add: session_ok_def)
qed

lemma dispatcher_tick_keeps:
  assumes "session_ok s"
    and "lift_step s (tick (encode_and_send en) now (se_dispatcher s) (se_core s)) = Inr (s', outs)"
  shows "keeps s {#} s' outs \<and> core_frame (se_core s) (se_core s')"
proof (rule lift_step_keeps [OF assms])
  fix d c xs
  assume r: "tick (encode_and_send en) now (se_dispatcher s) (se_core s) = Inr (d, c, xs)"
  have "core_frame (se_core s) c"
    by (rule tick_owner [OF r]) (auto intro: core_frame_trans encode_and_send_frame)
  with tick_frame [OF r] tick_in_flight [OF r] tick_disabled [OF _ r] ses.tick_conserves [OF r] assms(1)
  show "frame_kept (se_dispatcher s) d \<and> core_frame (se_core s) c \<and>
      (\<not> dq_sending_enabled (se_dispatcher s) \<longrightarrow> set (dq_pending d) \<subseteq> set (dq_pending (se_dispatcher s))) \<and>
      length (dq_pending d) \<le> max (length (dq_pending (se_dispatcher s)))
        (rb_max_in_flight (dq_budget (se_dispatcher s))) \<and>
      ses.tracked d c \<and> held d + answered xs = held (se_dispatcher s) + {#}"
    by (simp add: session_ok_def)
qed

lemma session_tick_keeps:
  assumes "session_ok s" and "session_tick en now s = Inr (s', outs)"
  shows "keeps s {#} s' outs"
  using assms dispatcher_tick_keeps [OF assms(1)] abort_keeps [OF assms(1)]
  by (auto simp: session_tick_def split: if_splits)

text \<open>Incoming messages.\<close>

lemma omap_erase_length: "length (omap_erase k m) \<le> length m"
  by (simp add: omap_erase_def)

lemma on_message_session_ok:
  assumes "session_ok s" and r: "on_message message (se_dispatcher s) = Inr (b, d', outs)"
  shows "keeps s {#} (s\<lparr>se_dispatcher := d'\<rparr>) (map lift_out outs)"
proof -
  have "ses.tracked d' (se_core s) \<and> held d' + answered outs = held (se_dispatcher s)"
    by (rule ses.on_message_conserves [OF r]) (use assms(1) in \<open>auto simp: session_ok_def\<close>)
  with on_message_cases [OF r] assms(1) show ?thesis
    by (auto simp: keeps_def session_ok_def omap_simps intro: order.trans [OF omap_erase_length])
qed

lemma spontaneous_answers: "spontaneous en ty message = Inr outs \<Longrightarrow> answers outs = {#}"
  by (auto simp: spontaneous_def exec_simps split: if_splits)

lemma deliver_keeps:
  assumes "session_ok s" and "deliver en ty message s = Inr (s', outs)"
  shows "keeps s {#} s' outs \<and> se_core s' = se_core s"
proof -
  from assms(2) obtain b d' xs where r: "on_message message (se_dispatcher s) = Inr (b, d', xs)"
    and s': "s' = s\<lparr>se_dispatcher := d'\<rparr>" "answers outs = answers (map lift_out xs)"
    by (auto simp: deliver_def exec_simps Let_def spontaneous_answers split: if_splits)
  from on_message_session_ok [OF assms(1) r] show ?thesis by (simp add: keeps_def s')
qed

lemma session_ok_replay: "session_ok s \<Longrightarrow> session_ok (s\<lparr>se_core := (se_core s)\<lparr>ss_replay := r\<rparr>\<rparr>)"
  by (rule session_ok_core) auto

lemma dispatch_running_keeps:
  assumes ok: "session_ok s" and r: "dispatch_running en message s = Inr (s', outs)"
  shows "keeps s {#} s' outs \<and> ss_state (se_core s') = ss_state (se_core s) \<and>
    ss_replay (se_core s) \<le> ss_replay (se_core s')"
proof (cases "map_of message ''auth''")
  case None
  with r deliver_keeps [OF ok] show ?thesis by (auto simp: dispatch_running_def exec_simps)
next
  case (Some a)
  have *: "session_ok (s\<lparr>se_core := (se_core s)\<lparr>ss_replay := n\<rparr>\<rparr>)" for n by (rule session_ok_replay [OF ok])
  from r Some ok * show ?thesis
    by (auto simp: dispatch_running_def exec_simps Let_def replay_check_def keeps_def split: if_splits
        dest!: deliver_keeps [OF *])
qed

lemma keeps_trans:
  assumes "keeps s hs s1 outs1" and "keeps s1 hs1 s2 outs2"
  shows "keeps s (hs + hs1) s2 (outs1 @ outs2)"
proof -
  have "held (se_dispatcher s2) + answers (outs1 @ outs2) =
      (held (se_dispatcher s2) + answers outs2) + answers outs1" by (simp add: ac_simps)
  also have "\<dots> = (held (se_dispatcher s1) + answers outs1) + hs1"
    using assms(2) by (simp add: keeps_def ac_simps)
  also have "\<dots> = held (se_dispatcher s) + (hs + hs1)"
    using assms(1) by (simp add: keeps_def ac_simps)
  finally show ?thesis using assms by (simp add: keeps_def)
qed

lemma send_message_keeps:
  assumes "session_ok s" and "send_message en ty body rep (se_core s) = Inr (ok, c, fs)"
  shows "keeps s {#} (s\<lparr>se_core := c\<rparr>) (map Frame fs)"
  using assms(1) send_message_frame [OF assms(2)]
  by (auto simp: keeps_def core_frame_def intro: session_ok_core)

lemma refuse_hello_keeps:
  assumes "session_ok s" and "refuse_hello en message reason e s = Inr (s', outs)"
  shows "keeps s {#} s' outs \<and> ss_state (se_core s') = Closed"
proof -
  from assms(2) obtain rep ok c fs
    where m: "send_message en ''hello_ack'' (ack_rejected en reason) rep (se_core s) = Inr (ok, c, fs)"
      and s': "s' = fst (abort e 4004 reason (s\<lparr>se_core := c\<rparr>))"
      and outs: "outs = map Frame fs @ snd (abort e 4004 reason (s\<lparr>se_core := c\<rparr>))"
    by (auto simp: refuse_hello_def exec_simps Let_def case_prod_beta)
  obtain outs2 where a: "abort e 4004 reason (s\<lparr>se_core := c\<rparr>) = (s', outs2)" "outs = map Frame fs @ outs2"
    using s' outs by (metis prod.collapse)
  have k: "keeps s {#} (s\<lparr>se_core := c\<rparr>) (map Frame fs)" by (rule send_message_keeps [OF assms(1) m])
  with abort_keeps [OF _ a(1)] have "keeps (s\<lparr>se_core := c\<rparr>) {#} s' outs2" "ss_state (se_core s') = Closed"
    by (auto simp: keeps_def)
  with keeps_trans [OF k this(1)] show ?thesis by (simp add: a)
qed

text \<open>How a hello can end: the session aborts, refuses the device, or waits for its proof.\<close>

lemma handle_hello_cases:
  assumes "handle_hello en message s = Inr (s', outs)"
  obtains (aborted) e n why where "abort e n why s = (s', outs)"
  | (refused) i a reason e
      where "refuse_hello en message reason e (s\<lparr>se_core := (se_core s)\<lparr>ss_info := i, ss_auth := a\<rparr>\<rparr>)
        = Inr (s', outs)"
  | (accepted) i a kid rep b c fs where
      "send_message en ''hello_ack'' (ack_accepted en kid (ac_server_nonce (ss_auth (se_core s)))) rep
        ((se_core s)\<lparr>ss_auth := a, ss_info := i\<rparr>) = Inr (b, c, fs)"
      "s' = enter AwaitProof (s\<lparr>se_core := c\<rparr>)" "outs = map Frame fs"
      "ac_server_nonce a = ac_server_nonce (ss_auth (se_core s))" "ac_kid a = kid" "kid \<noteq> []"
proof -
  from assms obtain ty where ty: "msg_value get_string message ''type'' [] = Inr ty"
    by (auto simp: handle_hello_def exec_simps)
  show ?thesis
  proof (cases "ty = ''hello''")
    case False
    with assms ty show ?thesis
      by (simp add: handle_hello_def ty split: if_splits) (blast intro: aborted)+
  next
    case True
    with assms ty obtain info nonce schemes kids where
      p: "read_hello en message (ss_info (se_core s)) = Inr info"
        "msg_value get_string message ''client_nonce'' [] = Inr nonce"
        "msg_value get_json message ''auth_schemes'' (JArr []) = Inr schemes"
        "msg_value get_json message ''auth_kids'' (JArr []) = Inr kids"
      by (auto simp: handle_hello_def exec_simps)
    let ?cfg = "ss_config (se_core s)"
    obtain kid key err where k: "choose_key ?cfg (ci_device_id info) kids = (kid, key, err)"
      using prod_cases3 by blast
    show ?thesis
    proof (cases "(cf_expected_device_id ?cfg \<noteq> [] \<and> ci_device_id info \<noteq> cf_expected_device_id ?cfg) \<or>
        \<not> scheme_offered schemes \<or> kid = []")
      case True
      with assms ty \<open>ty = ''hello''\<close> show ?thesis
        by (auto simp: handle_hello_def p k Let_def split: if_splits intro: refused)
    next
      case False
      let ?a = "(ss_auth (se_core s))\<lparr>ac_client_nonce := nonce, ac_key := key, ac_kid := kid,
        ac_device_id := ci_device_id info\<rparr>"
      let ?i = "info\<lparr>ci_auth_scheme := kAuthScheme, ci_auth_scope := kAuthScope, ci_auth_kid := kid\<rparr>"
      from False assms ty \<open>ty = ''hello''\<close> obtain rep b c fs where
        "send_message en ''hello_ack'' (ack_accepted en kid (ac_server_nonce (ss_auth (se_core s)))) rep
          ((se_core s)\<lparr>ss_auth := ?a, ss_info := ?i\<rparr>) = Inr (b, c, fs)"
        "s' = enter AwaitProof (s\<lparr>se_core := c\<rparr>)" "outs = map Frame fs"
        by (auto simp: handle_hello_def p k Let_def exec_simps split: if_splits)
      with False show ?thesis by (intro accepted [where a = ?a and i = ?i and kid = kid]) auto
    qed
  qed
qed

lemma handle_hello_keeps:
  assumes ok: "session_ok s" and hello: "ss_state (se_core s) = AwaitHello"
    and r: "handle_hello en message s = Inr (s', outs)"
  shows "keeps s {#} s' outs \<and> ss_state (se_core s') \<noteq> Running"
  using r
proof (cases rule: handle_hello_cases)
  case (aborted e n why)
  with abort_keeps [OF ok] show ?thesis by fastforce
next
  case (refused i a reason e)
  have "session_ok (s\<lparr>se_core := (se_core s)\<lparr>ss_info := i, ss_auth := a\<rparr>\<rparr>)"
    by (rule session_ok_core [OF ok]) auto
  with refuse_hello_keeps [OF this refused] show ?thesis by (simp add: keeps_def)
next
  case (accepted i a kid rep b c fs)
  let ?s1 = "s\<lparr>se_core := (se_core s)\<lparr>ss_auth := a, ss_info := i\<rparr>\<rparr>"
  have s1: "session_ok ?s1" by (rule session_ok_core [OF ok]) auto
  have k: "keeps ?s1 {#} (?s1\<lparr>se_core := c\<rparr>) (map Frame fs)"
    by (rule send_message_keeps [OF s1]) (use accepted(1) in simp)
  have c: "ss_state c = AwaitHello" "ss_failed c = ss_failed (se_core s)"
    using send_message_frame [OF accepted(1)] hello by (auto simp: core_frame_def)
  have "session_ok (enter AwaitProof (s\<lparr>se_core := c\<rparr>))"
    by (rule session_ok_enter) (use k ok hello c in \<open>auto simp: keeps_def session_ok_def\<close>)
  with k show ?thesis by (simp add: accepted(2,3) keeps_def)
qed

lemma answer_ota_check_frame:
  assumes "answer_ota_check en message c = Inr (ok, c', fs)"
  shows "core_frame c c' \<and> ss_msg_seq c' = ss_msg_seq c"
proof -
  from assms obtain cv hw rep where
    *: "(case (case cf_ota_policy (ss_config c) of None \<Rightarrow> no_update_policy | Some p \<Rightarrow> p) (ss_info c)
          \<lparr>oc_current_version = cv, oc_hw_rev = hw\<rparr> of
        OtaAvailable version url sha sz \<Rightarrow>
          send_message en ''ota_available''
            (JObj (put_all [(''version'', JStr version), (''url'', JStr url), (''sha256'', JStr sha),
                            (''size'', JUInt (unat sz))] [])) rep c
      | NoUpdate \<Rightarrow> send_message en ''ota_none'' (JObj []) rep c) = Inr (ok, c', fs)"
    unfolding answer_ota_check_def Let_def by (auto simp only: exec_simps)
  then show ?thesis by (auto dest: send_message_frame split: ota_decision.split_asm)
qed

text \<open>How a proof can end: the session aborts, or it runs, and then the message was verified and new.\<close>

lemma handle_proof_cases:
  assumes "handle_proof en message s = Inr (s', outs)"
  obtains (aborted) e where "abort e 4004 ''auth_failed'' s = (s', outs)"
  | (ota) n i b c fs where
      "verify (en_numlib en) (en_crypto en) message (ss_auth (se_core s)) C2s = Inr (True, ''ok'')"
      "auth_seq en message = Inr n" "ss_replay (se_core s) < n"
      "answer_ota_check en message ((se_core s)\<lparr>ss_replay := n, ss_info := i\<rparr>) = Inr (b, c, fs)"
      "s' = enter Running (s\<lparr>se_core := c\<rparr>)" "outs = map Frame fs @ [On_ready (ss_info c)]"
  | (other) n i outs2 where
      "verify (en_numlib en) (en_crypto en) message (ss_auth (se_core s)) C2s = Inr (True, ''ok'')"
      "auth_seq en message = Inr n" "ss_replay (se_core s) < n"
      "dispatch_running en message (enter Running (s\<lparr>se_core := (se_core s)\<lparr>ss_replay := n, ss_info := i\<rparr>\<rparr>))
        = Inr (s', outs2)"
      "outs = On_ready i # outs2"
proof -
  from assms obtain ok why where v: "verify (en_numlib en) (en_crypto en) message (ss_auth (se_core s)) C2s = Inr (ok, why)"
    by (auto simp: handle_proof_def exec_simps)
  show ?thesis
  proof (cases ok)
    case False
    with assms v show ?thesis by (auto simp: handle_proof_def intro: aborted)
  next
    case True
    then have why: "why = ''ok''" using v verify_ok_iff by simp
    from assms v True obtain n where n: "auth_seq en message = Inr n"
      by (auto simp: handle_proof_def exec_simps)
    let ?i = "(ss_info (se_core s))\<lparr>ci_established_at := en_now en\<rparr>"
    show ?thesis
    proof (cases "n \<le> ss_replay (se_core s)")
      case old: True
      with assms v True n show ?thesis
        by (auto simp: handle_proof_def replay_check_def intro: aborted)
    next
      case False
      then obtain ty where ty: "msg_value get_string message ''type'' [] = Inr ty"
        using assms v True n by (auto simp: handle_proof_def replay_check_def exec_simps Let_def)
      show ?thesis
      proof (cases "ty = kSessionProofMsg")
        case t: True
        with assms v True n ty False why show ?thesis
          by (auto simp: handle_proof_def replay_check_def exec_simps Let_def intro: ota)
      next
        case t: False
        with assms v True n ty False why show ?thesis
          by (auto simp: handle_proof_def replay_check_def exec_simps Let_def intro: other)
      qed
    qed
  qed
qed

lemma handle_proof_keeps:
  assumes ok: "session_ok s" and wait: "ss_state (se_core s) = AwaitProof"
    and r: "handle_proof en message s = Inr (s', outs)"
  shows "keeps s {#} s' outs"
  using r
proof (cases rule: handle_proof_cases)
  case (aborted e)
  with abort_keeps [OF ok] show ?thesis by blast
next
  case (ota n i b c fs)
  have "ss_state c = AwaitProof" "ss_failed c = ss_failed (se_core s)" "ss_msg_seq (se_core s) \<le> ss_msg_seq c"
    using answer_ota_check_frame [OF ota(4)] wait by (auto simp: core_frame_def)
  moreover from this have "session_ok (s\<lparr>se_core := c\<rparr>)"
    using wait by (intro session_ok_core [OF ok]) auto
  ultimately have "session_ok (enter Running (s\<lparr>se_core := c\<rparr>))"
    by (intro session_ok_enter) (use ok wait in \<open>auto simp: session_ok_def\<close>)
  then show ?thesis by (simp add: keeps_def ota)
next
  case (other n i outs2)
  let ?s1 = "s\<lparr>se_core := (se_core s)\<lparr>ss_replay := n, ss_info := i\<rparr>\<rparr>"
  have "session_ok ?s1" by (rule session_ok_core [OF ok]) auto
  then have "session_ok (enter Running ?s1)"
    by (rule session_ok_enter) (use ok wait in \<open>auto simp: session_ok_def\<close>)
  from dispatch_running_keeps [OF this other(4)] show ?thesis
    by (simp add: keeps_def other(5))
qed

lemma on_text_cases:
  assumes "on_text en frame s = Inr (s', outs)"
  obtains (ignored) "s' = s" "answers outs = {#}"
  | (aborted) e n r where "abort e n r s = (s', outs)"
  | (hello) message where "ss_state (se_core s) = AwaitHello" "handle_hello en message s = Inr (s', outs)"
  | (device_proof) message where "en_parse en frame = JObj message" "ss_state (se_core s) = AwaitProof"
      "handle_proof en message s = Inr (s', outs)"
  | (running) message where "ss_state (se_core s) = Running" "dispatch_running en message s = Inr (s', outs)"
proof (cases "\<exists>message. en_parse en frame = JObj message")
  case True
  then obtain message where m: "en_parse en frame = JObj message" by blast
  show ?thesis
    by (cases "ss_state (se_core s)")
      (use assms m in \<open>auto simp: on_text_def intro: ignored hello device_proof running\<close>)
next
  case False
  then have "on_text en frame s =
    (if ss_state (se_core s) = Running then Inr (s, [warn ''invalid JSON discarded'' []])
     else Inr (abort (protocol_error MalformedMessage ''peer sent something that is not a JSON object'')
                 4000 ''invalid_json'' s))"
    by (simp add: on_text_def split: json.splits)
  with assms show ?thesis by (auto split: if_splits intro: ignored aborted)
qed

lemma on_text_keeps:
  assumes ok: "session_ok s" and r: "on_text en frame s = Inr (s', outs)"
  shows "keeps s {#} s' outs"
  using r
proof (cases rule: on_text_cases)
  case ignored
  with ok show ?thesis by (simp add: keeps_def)
next
  case (aborted e n r)
  with abort_keeps [OF ok] show ?thesis by blast
next
  case (hello message)
  with handle_hello_keeps [OF ok] show ?thesis by blast
next
  case (device_proof message)
  with handle_proof_keeps [OF ok] show ?thesis by blast
next
  case (running message)
  with dispatch_running_keeps [OF ok] show ?thesis by blast
qed

lemma on_transport_open_keeps:
  assumes ok: "session_ok s" and "ss_state (se_core s) = Closed" and r: "on_transport_open en s = Inr s'"
  shows "keeps s {#} s' []"
proof -
  from r obtain c where s': "s' = enter AwaitHello (s\<lparr>se_core := c\<rparr>)" "ss_state c = Closed" "\<not> ss_failed c"
    using assms(2) by (auto simp: on_transport_open_def exec_simps)
  have "session_ok (s\<lparr>se_core := c\<rparr>)"
    using ok assms(2) s' by (simp add: session_ok_def ses.tracked_def)
  then have "session_ok s'"
    unfolding s'(1) by (rule session_ok_enter) (use ok assms(2) s' in \<open>auto simp: session_ok_def\<close>)
  then show ?thesis by (simp add: keeps_def s')
qed

lemma session_step_keeps:
  assumes ok: "session_ok s" and "op = Op_open \<longrightarrow> ss_state (se_core s) = Closed"
    and r: "session_step en op s = Inr (s', outs)"
  shows "keeps s (op_handlers op) s' outs"
proof (cases op)
  case Op_open
  with assms on_transport_open_keeps [OF ok] show ?thesis by (auto simp: exec_simps)
next
  case (Op_closed e)
  with r on_transport_closed_keeps [OF ok] show ?thesis by auto
next
  case (Op_text frame)
  with r on_text_keeps [OF ok] show ?thesis by auto
next
  case (Op_tick now)
  with r session_tick_keeps [OF ok] show ?thesis by auto
next
  case (Op_request spec h)
  with r have "keeps s (mset (live [h])) s' outs" using request_keeps [OF ok] by auto
  with Op_request show ?thesis by (cases h) simp_all
next
  case (Op_send ty body rep)
  with r send_message_keeps [OF ok] show ?thesis by (auto simp: exec_simps)
qed

lemma session_run_invariant:
  assumes "session_run cfg s hs outs"
  shows "session_ok s \<and> dq_budget (se_dispatcher s) = cf_budget cfg \<and>
    held (se_dispatcher s) + answers outs = hs"
  using assms
proof induction
  case start
  show ?case by (simp add: session_ok_make) (simp add: make_session_def make_dispatcher_def held_def)
next
  case (step s hs outs op en s' outs')
  then have k: "keeps s (op_handlers op) s' outs'" by (blast intro: session_step_keeps)
  have "held (se_dispatcher s') + answers (outs @ outs') =
      (held (se_dispatcher s') + answers outs') + answers outs" by (simp add: ac_simps)
  also have "\<dots> = (held (se_dispatcher s) + answers outs) + op_handlers op"
    using k by (simp add: keeps_def ac_simps)
  also have "\<dots> = hs + op_handlers op" using step.IH by simp
  finally show ?case using k step.IH by (simp add: keeps_def)
qed

section \<open>Signed messages\<close>

lemma sign_content:
  assumes "sign nl cr msg ctx n dir = Inr smsg"
  shows "canonical_body smsg = canonical_body msg \<and> (\<forall>k. k \<noteq> ''auth'' \<longrightarrow> map_of smsg k = map_of msg k)"
  using assms
  by (auto simp: sign_def exec_simps omap_simps kEnvelopeFields_def intro!: canonical_body_put_envelope)

lemma sign_control_content:
  assumes "sign_control en meta message c = Inr (smsg, c')"
  shows "canonical_body smsg = canonical_body message \<and>
    (\<forall>k. k \<noteq> ''auth'' \<longrightarrow> map_of smsg k = map_of message k)"
  using assms sign_content by (auto simp: sign_control_def Let_def exec_simps split: if_splits)

lemma sign_control_signed:
  assumes "sign_control en (Some meta) message c = Inr (smsg, c')" and "mm_auth meta = Auth_Control"
  shows "verify (en_numlib en) (en_crypto en) smsg (ss_auth c) S2c = Inr (True, ''ok'') \<and>
    auth_seq en smsg = Inr (ss_s2c_seq c') \<and> ss_s2c_seq c < ss_s2c_seq c'"
proof -
  from assms have s: "sign (en_numlib en) (en_crypto en) message (ss_auth c) (ss_s2c_seq c + 1) S2c = Inr smsg"
    and c': "c' = c\<lparr>ss_s2c_seq := ss_s2c_seq c + 1\<rparr>"
    by (auto simp: sign_control_def Let_def exec_simps)
  have "auth_seq en smsg = Inr (ss_s2c_seq c + 1)"
    using s by (auto simp: sign_def exec_simps auth_seq_def omap_simps)
  with verify_sign_ok [OF s] show ?thesis by (simp add: c')
qed

section \<open>A concrete session\<close>

text \<open>
  Runs of a list of operations, and a device that offers the key \<open>k1\<close>: primitives small enough to
  evaluate, for the instances below.
\<close>

fun run_ops :: "env \<Rightarrow> 'h sop list \<Rightarrow> 'h session \<Rightarrow> 'h sstep" where
  "run_ops en [] s = Inr (s, [])"
| "run_ops en (op # ops) s =
    (if (case op of Op_open \<Rightarrow> ss_state (se_core s) \<noteq> Closed | _ \<Rightarrow> False)
     then Inl (Runtime_error ''already open'')
     else bindE (session_step en op s) (\<lambda>(s1, outs1).
       bindE (run_ops en ops s1) (\<lambda>(s2, outs2). Inr (s2, outs1 @ outs2))))"

lemma run_ops_session_run:
  assumes "run_ops en ops s = Inr (s', outs')" and "session_run cfg s hs outs"
  shows "session_run cfg s' (hs + sum_list (map op_handlers ops)) (outs @ outs')"
  using assms
proof (induction en ops s arbitrary: outs' s' hs outs rule: run_ops.induct)
  case (1 en s)
  then show ?case by simp
next
  case (2 en op ops s)
  from "2.prems"(1) obtain s1 outs1 outs2 where
    g: "op = Op_open \<longrightarrow> ss_state (se_core s) = Closed" and s1: "session_step en op s = Inr (s1, outs1)"
    and r: "run_ops en ops s1 = Inr (s', outs2)" "outs' = outs1 @ outs2"
    by (auto simp: exec_simps split: if_splits sop.splits)
  from "2.IH" [OF _ s1 refl r(1) session_run.step [OF "2.prems"(2) g s1]] show ?case
    using "2.prems"(1) r by (auto simp: ac_simps split: if_splits)
qed

definition demo_env :: env where
  "demo_env =
     \<lparr>en_parse = (\<lambda>f.
        if f = ''H'' then JObj [(''auth_kids'', JArr [JStr ''k1'']), (''auth_schemes'', JArr [JStr ''hmac-sha256'']),
                              (''client_nonce'', JStr ''n''), (''device_id'', JStr ''d''), (''type'', JStr ''hello'')]
        else if f = ''P'' then JObj [(''auth'', JObj [(''kid'', JStr ''k1''), (''mac'', JStr ''bWFj''), (''seq'', JInt 1)]),
                              (''msg_id'', JStr ''7''), (''type'', JStr ''ota_check'')]
        else if f = ''R'' then JObj [(''in_reply_to'', JStr ''s-1''), (''type'', JStr ''dp_report'')]
        else JDiscarded),
      en_dump = (\<lambda>j. Inr ''frame''),
      en_numlib = demo_numlib, en_crypto = demo_crypto,
      en_now = 0, en_wall = 0, en_random = Some (replicate 16 0), en_send = (\<lambda>f. True)\<rparr>"

definition demo_cfg :: session_config where
  "demo_cfg =
     \<lparr>cf_credentials = Some (\<lambda>dev kid. Inr [1, 2, 3]), cf_kid = ''1'', cf_expected_device_id = [],
      cf_ota_policy = None, cf_handshake_timeout = 15000, cf_default_request_timeout = 10000,
      cf_budget = default_budget\<rparr>"

definition demo_read :: request_spec where
  "demo_read = \<lparr>rs_type = ''dp_read'', rs_body = JObj [], rs_timeout = None,
     rs_priority = InteractiveRead, rs_coalesce_key = []\<rparr>"

definition demo_after :: "nat sop list \<Rightarrow> nat session \<times> nat sout list" where
  "demo_after ops = (case run_ops demo_env ops (make_session demo_cfg) of Inr r \<Rightarrow> r | Inl e \<Rightarrow> (make_session demo_cfg, []))"

lemma demo_after_run:
  assumes "\<not> isl (run_ops demo_env ops (make_session demo_cfg))"
  shows "session_run demo_cfg (fst (demo_after ops)) (sum_list (map op_handlers ops)) (snd (demo_after ops))"
proof -
  obtain s outs where r: "run_ops demo_env ops (make_session demo_cfg) = Inr (s, outs)"
    using assms by (cases "run_ops demo_env ops (make_session demo_cfg)") auto
  from run_ops_session_run [OF r session_run.start] show ?thesis by (simp add: demo_after_def r)
qed

section \<open>Properties\<close>

text \<open>
  C1: In every run of a session, each submitted response handler is either still held by the
  dispatcher or has been called, and exactly once: as multisets, the submitted handlers are the held
  ones together with the called ones. When the connection then closes, nothing stays behind.
\<close>

theorem handlers_answered_once:
  assumes "session_run cfg s hs outs"
  shows "hs = held (se_dispatcher s) + answers outs \<and>
    answers (outs @ snd (on_transport_closed e s)) = hs"
proof -
  have ok: "session_ok s" and hs: "held (se_dispatcher s) + answers outs = hs"
    using session_run_invariant [OF assms] by auto
  obtain s' outs' where c: "on_transport_closed e s = (s', outs')" by fastforce
  from on_transport_closed_keeps [OF ok c] have "answers outs' = held (se_dispatcher s)"
    by (auto simp: keeps_def)
  with hs show ?thesis by (auto simp: c ac_simps)
qed

theorem handlers_answered_once_witness:
  "held (se_dispatcher (fst (demo_after [Op_open, Op_text ''H'', Op_text ''P'', Op_request demo_read (Some 5)]))) +
     answers (snd (demo_after [Op_open, Op_text ''H'', Op_text ''P'', Op_request demo_read (Some 5)])) = {#5#}"
proof -
  have "\<not> isl (run_ops demo_env [Op_open, Op_text ''H'', Op_text ''P'', Op_request demo_read (Some 5)]
      (make_session demo_cfg :: nat session))"
    by code_simp
  from handlers_answered_once [OF demo_after_run [OF this]] show ?thesis by simp
qed

text \<open>
  C2: The session starts running in one way only: a text frame arrives while it waits for the proof,
  the frame is a JSON object whose MAC verifies under the key, the nonces and the device id of this
  handshake, and its number is above every number accepted before.
\<close>

theorem running_needs_verified_proof:
  assumes "session_run cfg s hs outs" and "op = Op_open \<longrightarrow> ss_state (se_core s) = Closed"
    and "session_step en op s = Inr (s', outs')"
    and "ss_state (se_core s) \<noteq> Running" and "ss_state (se_core s') = Running"
  shows "\<exists>frame message n. op = Op_text frame \<and> ss_state (se_core s) = AwaitProof \<and>
    en_parse en frame = JObj message \<and>
    verify (en_numlib en) (en_crypto en) message (ss_auth (se_core s)) C2s = Inr (True, ''ok'') \<and>
    auth_seq en message = Inr n \<and> ss_replay (se_core s) < n"
proof -
  have ok: "session_ok s" using session_run_invariant [OF assms(1)] by simp
  show ?thesis
  proof (cases op)
    case (Op_text frame)
    then have "on_text en frame s = Inr (s', outs')" using assms(3) by simp
    then show ?thesis
    proof (cases rule: on_text_cases)
      case (aborted e n r)
      with abort_keeps [OF ok] assms(5) show ?thesis by fastforce
    next
      case (hello message)
      with handle_hello_keeps [OF ok] assms(5) show ?thesis by blast
    next
      case (device_proof message)
      from device_proof(3) show ?thesis
      proof (cases rule: handle_proof_cases)
        case (aborted e)
        with abort_keeps [OF ok] assms(5) show ?thesis by fastforce
      qed (use device_proof Op_text in blast)+
    qed (use assms(4,5) in auto)
  next
    case (Op_tick now)
    then show ?thesis
      using assms(3-5) dispatcher_tick_keeps [OF ok, of en now s' outs'] abort_keeps [OF ok]
      by (fastforce simp: session_tick_def core_frame_def split: if_splits)
  next
    case (Op_request spec h)
    then show ?thesis using assms(3-5) request_keeps [OF ok, of en spec h s' outs'] by (auto simp: core_frame_def)
  next
    case (Op_send ty body rep)
    then show ?thesis using assms(3-5) send_message_frame by (fastforce simp: exec_simps core_frame_def)
  next
    case (Op_closed e)
    then show ?thesis using assms(3,5) by (auto simp: on_transport_closed_def fail_requests_def case_prod_beta)
  next
    case Op_open
    then show ?thesis using assms(3,5) by (auto simp: exec_simps on_transport_open_def)
  qed
qed

theorem running_needs_verified_proof_witness:
  "\<exists>frame message n. Op_text ''P'' = (Op_text frame :: nat sop) \<and>
    ss_state (se_core (fst (demo_after [Op_open, Op_text ''H'']))) = AwaitProof \<and>
    en_parse demo_env frame = JObj message \<and>
    verify (en_numlib demo_env) (en_crypto demo_env) message
      (ss_auth (se_core (fst (demo_after [Op_open, Op_text ''H''])))) C2s = Inr (True, ''ok'') \<and>
    auth_seq demo_env message = Inr n \<and> ss_replay (se_core (fst (demo_after [Op_open, Op_text ''H'']))) < n"
proof -
  let ?s = "fst (demo_after [Op_open, Op_text ''H''])"
  have run: "\<not> isl (run_ops demo_env [Op_open, Op_text ''H''] (make_session demo_cfg :: nat session))"
    by code_simp
  have st: "ss_state (se_core ?s) \<noteq> Running" by code_simp
  have step: "case session_step demo_env (Op_text ''P'') ?s of Inr (s', outs) \<Rightarrow> ss_state (se_core s') = Running
      | Inl e \<Rightarrow> False" by code_simp
  then obtain s' outs where "session_step demo_env (Op_text ''P'') ?s = Inr (s', outs)"
    and "ss_state (se_core s') = Running"
    by (auto split: sum.splits)
  then show ?thesis
    by (intro running_needs_verified_proof [OF demo_after_run [OF run] _ _ st]) auto
qed

text \<open>
  C11: At no point of a run are more requests open than the budget allows, none is open unless the
  session runs, the ids of the open requests are among those issued on this connection, and a failed
  session is closed.
\<close>

theorem in_flight_bounded:
  assumes "session_run cfg s hs outs"
  shows "length (dq_pending (se_dispatcher s)) \<le> rb_max_in_flight (cf_budget cfg) \<and>
    (ss_state (se_core s) \<noteq> Running \<longrightarrow> dq_pending (se_dispatcher s) = []) \<and>
    (\<forall>i \<in> fst ` set (dq_pending (se_dispatcher s)). \<exists>n. n \<le> ss_msg_seq (se_core s) \<and> i = ''s-'' @ int_dec n) \<and>
    (ss_failed (se_core s) \<longrightarrow> ss_state (se_core s) = Closed)"
  using session_run_invariant [OF assms]
  by (auto simp: session_ok_def ses.tracked_def used_id_def)

theorem in_flight_bounded_witness:
  "length (dq_pending (se_dispatcher (fst (demo_after
     [Op_open, Op_text ''H'', Op_text ''P'', Op_request demo_read (Some 5)])))) \<le> 4"
proof -
  have "\<not> isl (run_ops demo_env [Op_open, Op_text ''H'', Op_text ''P'', Op_request demo_read (Some 5)]
      (make_session demo_cfg :: nat session))"
    by code_simp
  from in_flight_bounded [OF demo_after_run [OF this]] show ?thesis
    by (simp add: demo_cfg_def default_budget_def)
qed



lemma lift_step_no_frame:
  assumes "lift_step s r = Inr (s', outs)"
    and "\<And>d c xs f. r = Inr (d, c, xs) \<Longrightarrow> Emitted f \<notin> set xs"
  shows "Frame f \<notin> set outs"
proof -
  from assms obtain d c xs where r: "r = Inr (d, c, xs)" and outs: "outs = map lift_out xs"
    by (auto simp: lift_step_def exec_simps)
  have "x = Emitted f" if "lift_out x = Frame f" for x :: "('a, string) dout"
    using that by (cases x) (auto simp: warn_def)
  with assms(2) [OF r, of f] show ?thesis by (auto simp: outs)
qed

text \<open>
  While the session does not run, neither submitting a request nor letting time pass sends a
  frame: requests wait in the queue until the device has proved itself.
\<close>

theorem no_request_before_running:
  assumes "session_run cfg s hs outs" and "ss_state (se_core s) \<noteq> Running"
    and "session_step en op s = Inr (s', outs')" and "op = Op_tick now \<or> op = Op_request spec h"
  shows "Frame f \<notin> set outs'"
proof -
  have off: "\<not> dq_sending_enabled (se_dispatcher s)"
    using session_run_invariant [OF assms(1)] assms(2) by (simp add: session_ok_def)
  have fail: "Frame f \<notin> set (snd (fail_requests e t))" for e and t :: "'a session"
    by (auto simp: fail_requests_def fail_all_def complete_def)
  from assms(4) show ?thesis
  proof
    assume op: "op = Op_request spec h"
    with assms(3) have "lift_step s (submit (encode_and_send en) spec h (en_now en) (se_dispatcher s) (se_core s))
        = Inr (s', outs')"
      by (simp add: request_def)
    then show ?thesis
      by (rule lift_step_no_frame) (frule submit_disabled [OF off], simp)
  next
    assume op: "op = Op_tick now"
    have "Frame f \<notin> set outs'" if "abort e n r s = (s', outs')" for e n r
      using that fail [of e "enter Closed (s\<lparr>se_core := (se_core s)\<lparr>ss_failed := True\<rparr>\<rparr>)"]
      by (auto simp: abort_def case_prod_beta Let_def split: if_splits)
    moreover have "Frame f \<notin> set outs'"
      if "lift_step s (tick (encode_and_send en) now (se_dispatcher s) (se_core s)) = Inr (s', outs')"
      using that by (rule lift_step_no_frame) (frule tick_disabled [OF off], simp)
    ultimately show ?thesis using assms(3) op by (auto simp: session_tick_def split: if_splits)
  qed
qed

theorem no_request_before_running_witness:
  "Frame ''frame'' \<notin> set (case session_step demo_env (Op_request demo_read (Some 5))
      (fst (demo_after [Op_open, Op_text ''H''])) of Inr (s', outs) \<Rightarrow> outs | Inl e \<Rightarrow> [])"
proof -
  let ?s = "fst (demo_after [Op_open, Op_text ''H''])"
  have run: "\<not> isl (run_ops demo_env [Op_open, Op_text ''H''] (make_session demo_cfg :: nat session))"
    by code_simp
  have st: "ss_state (se_core ?s) \<noteq> Running" by code_simp
  have "\<not> isl (session_step demo_env (Op_request demo_read (Some 5)) ?s)" by code_simp
  then obtain s' outs where r: "session_step demo_env (Op_request demo_read (Some 5)) ?s = Inr (s', outs)"
    by (cases "session_step demo_env (Op_request demo_read (Some 5)) ?s") auto
  from no_request_before_running [OF demo_after_run [OF run] st r, of 0 demo_read "Some 5" "''frame''"]
  have "Frame ''frame'' \<notin> set outs" by blast
  then show ?thesis unfolding r by simp
qed

text \<open>
  C14: In a running session a signed message whose MAC does not verify, or whose number is not above
  every accepted number, changes nothing and leads to exactly one warning.
\<close>

theorem unverified_message_dropped:
  assumes "ss_state (se_core s) = Running" and "en_parse en frame = JObj message"
    and "map_of message ''auth'' = Some a"
    and "verify (en_numlib en) (en_crypto en) message (ss_auth (se_core s)) C2s = Inr (ok, why)"
    and "\<not> ok \<or> auth_seq en message = Inr n \<and> n \<le> ss_replay (se_core s)"
    and "on_text en frame s = Inr (s', outs)"
  shows "s' = s \<and> (\<exists>reason ty. outs = [warn (''dropping message: '' @ reason) ty])"
proof -
  have d: "dispatch_running en message s = Inr (s', outs)" using assms(1,2,6) by (simp add: on_text_def)
  then obtain ty where ty: "msg_value get_string message ''type'' [] = Inr ty"
    by (auto simp: dispatch_running_def exec_simps)
  show ?thesis
  proof (cases ok)
    case False
    with d assms(3,4) ty show ?thesis by (auto simp: dispatch_running_def)
  next
    case True
    with assms(5) have "auth_seq en message = Inr n" "n \<le> ss_replay (se_core s)" by auto
    moreover have "warn ''dropping message: replay'' ty = warn (''dropping message: '' @ ''replay'') ty"
      by simp
    ultimately show ?thesis
      using d assms(3,4) ty True by (auto simp: dispatch_running_def replay_check_def)
  qed
qed

theorem unverified_message_dropped_witness:
  "case on_text demo_env ''P'' (fst (demo_after [Op_open, Op_text ''H'', Op_text ''P''])) of
     Inr (s', outs) \<Rightarrow> s' = fst (demo_after [Op_open, Op_text ''H'', Op_text ''P'']) \<and>
       (\<exists>reason ty. outs = [warn (''dropping message: '' @ reason) ty])
   | Inl e \<Rightarrow> False"
proof -
  let ?s = "fst (demo_after [Op_open, Op_text ''H'', Op_text ''P''])"
  let ?m = "[(''auth'', JObj [(''kid'', JStr ''k1''), (''mac'', JStr ''bWFj''), (''seq'', JInt 1)]),
    (''msg_id'', JStr ''7''), (''type'', JStr ''ota_check'')]"
  have st: "ss_state (se_core ?s) = Running" by code_simp
  have m: "en_parse demo_env ''P'' = JObj ?m" by (simp add: demo_env_def)
  have v: "verify (en_numlib demo_env) (en_crypto demo_env) ?m (ss_auth (se_core ?s)) C2s = Inr (True, ''ok'')"
    by code_simp
  have old: "auth_seq demo_env ?m = Inr 1" "1 \<le> ss_replay (se_core ?s)" by code_simp+
  have "\<not> isl (on_text demo_env ''P'' ?s)" by code_simp
  then obtain s' outs where r: "on_text demo_env ''P'' ?s = Inr (s', outs)"
    by (cases "on_text demo_env ''P'' ?s") auto
  from unverified_message_dropped [OF st m _ v _ r, of _ 1] old show ?thesis
    unfolding r by (simp del: One_nat_def)
qed

text \<open>
  C15: A handshake that is not finished at its deadline ends the session: the next tick closes the
  connection with code 4000, answers every waiting request, and reports the failure once.
\<close>

theorem handshake_timeout:
  assumes "session_run cfg s hs outs"
    and "ss_state (se_core s) = AwaitHello \<or> ss_state (se_core s) = AwaitProof"
    and "ss_handshake_deadline (se_core s) \<le> now"
  shows "\<exists>s' outs'. session_tick en now s = Inr (s', outs' @ [Close_connection 4000 ''handshake_timeout'',
      On_failed (make_error Dom_Protocol HandshakeFailed ''no Fountain handshake within the deadline'')]) \<and>
    ss_state (se_core s') = Closed \<and> ss_failed (se_core s') \<and> held (se_dispatcher s') = {#} \<and>
    answers outs' = held (se_dispatcher s)"
proof -
  have ok: "session_ok s" using session_run_invariant [OF assms(1)] by simp
  then have nf: "\<not> ss_failed (se_core s)" using assms(2) by (auto simp: session_ok_def)
  let ?e = "make_error Dom_Protocol HandshakeFailed ''no Fountain handshake within the deadline''"
  let ?s1 = "enter Closed (s\<lparr>se_core := (se_core s)\<lparr>ss_failed := True\<rparr>\<rparr>)"
  obtain s2 outs2 where f: "fail_requests ?e ?s1 = (s2, outs2)" by fastforce
  have a: "abort ?e 4000 ''handshake_timeout'' s =
      (s2, outs2 @ [Close_connection 4000 ''handshake_timeout'', On_failed ?e])"
    using nf f by (simp add: abort_def)
  from abort_keeps [OF ok a] have st: "ss_state (se_core s2) = Closed" "ss_failed (se_core s2)"
    "held (se_dispatcher s2) + answers outs2 = held (se_dispatcher s)"
    by (auto simp: keeps_def)
  have "held (se_dispatcher s2) = {#}"
    using f by (auto simp: fail_requests_def fail_all_def held_def)
  then show ?thesis using st a assms(2,3) by (auto simp: session_tick_def)
qed

theorem handshake_timeout_witness:
  "\<exists>s' outs'. session_tick demo_env 15000000000 (fst (demo_after [Op_open, Op_text ''H''])) =
     Inr (s', outs' @ [Close_connection 4000 ''handshake_timeout'',
      On_failed (make_error Dom_Protocol HandshakeFailed ''no Fountain handshake within the deadline'')]) \<and>
    ss_state (se_core s') = Closed"
proof -
  let ?s = "fst (demo_after [Op_open, Op_text ''H''])"
  have run: "\<not> isl (run_ops demo_env [Op_open, Op_text ''H''] (make_session demo_cfg :: nat session))"
    by code_simp
  have "ss_state (se_core ?s) = AwaitProof" and "ss_handshake_deadline (se_core ?s) \<le> 15000000000"
    by code_simp+
  then show ?thesis using handshake_timeout [OF demo_after_run [OF run], of 15000000000 demo_env] by auto
qed

end
