(* ===== verification/Client_Ready.thy ===== *)
theory Client_Ready
  imports Client_Safety Session_Safety
begin

text \<open>
  How a client becomes ready: whatever happens on the IO thread, the only step that leads there is the
  receipt of a frame whose proof of the shared key the session has verified. The lemmas follow the calls
  of \<open>client.cpp\<close> from the session's outputs up to a step.
\<close>

section \<open>Outputs of the session\<close>

definition quiet :: "'h sout list \<Rightarrow> bool" where
  "quiet outs \<longleftrightarrow> (\<forall>x \<in> set outs. \<not> is_ready_call x)"

lemma quiet_simps [simp]:
  "quiet []" "quiet (x # xs) \<longleftrightarrow> \<not> is_ready_call x \<and> quiet xs" "quiet (xs @ ys) \<longleftrightarrow> quiet xs \<and> quiet ys"
  "quiet (map lift_out os)" "quiet (map Frame fs)"
  by (auto simp: quiet_def lift_out_not_ready)

lemma quiet_warn [simp]: "\<not> is_ready_call (warn reason ty)"
  by (simp add: warn_def)

lemma on_transport_closed_quiet: "quiet (snd (on_transport_closed e s))"
  by (simp add: on_transport_closed_def fail_requests_def case_prod_beta)

lemma abort_quiet: "quiet (snd (abort e n why s))"
  by (simp add: abort_def fail_requests_def Let_def case_prod_beta)

lemma abort_quiet_outs: "abort e n why s = (s', outs) \<Longrightarrow> quiet outs"
  using abort_quiet [of e n why s] by simp

lemma request_quiet: "request en spec h s = Inr (s', outs) \<Longrightarrow> quiet outs"
  by (auto simp: request_def lift_step_def exec_simps)

lemma session_tick_quiet: "session_tick en now s = Inr (s', outs) \<Longrightarrow> quiet outs"
  by (auto simp: session_tick_def lift_step_def exec_simps abort_quiet_outs split: if_splits)

lemma spontaneous_quiet: "spontaneous en ty message = Inr outs \<Longrightarrow> quiet outs"
  by (auto simp: spontaneous_def exec_simps split: if_splits)

lemma deliver_quiet: "deliver en ty message s = Inr (s', outs) \<Longrightarrow> quiet outs"
  by (auto simp: deliver_def exec_simps Let_def spontaneous_quiet split: if_splits)

lemma dispatch_running_quiet:
  assumes "dispatch_running en message s = Inr (s', outs)"
  shows "quiet outs"
proof -
  from assms obtain ty where ty: "msg_value get_string message ''type'' [] = Inr ty"
    by (auto simp: dispatch_running_def exec_simps)
  consider t where "outs = [warn t ty]" | s1 where "deliver en ty message s1 = Inr (s', outs)"
    using assms by (auto simp: dispatch_running_def ty replay_check_def exec_simps Let_def split: if_splits)
  then show ?thesis by cases (auto simp: deliver_quiet)
qed

lemma handle_hello_quiet:
  assumes "handle_hello en message s = Inr (s', outs)"
  shows "quiet outs"
  using assms
proof (cases rule: handle_hello_cases)
  case (aborted e n why)
  with abort_quiet [of e n why s] show ?thesis by simp
next
  case (refused i a reason e)
  then show ?thesis by (auto simp: refuse_hello_def exec_simps Let_def case_prod_beta abort_quiet)
qed simp

lemma on_text_ready:
  assumes "on_text en frame s = Inr (s', outs)" "\<not> quiet outs"
  shows "\<exists>message n. ss_state (se_core s) = AwaitProof \<and> en_parse en frame = JObj message \<and>
    verify (en_numlib en) (en_crypto en) message (ss_auth (se_core s)) C2s = Inr (True, ''ok'') \<and>
    auth_seq en message = Inr n \<and> ss_replay (se_core s) < n"
proof (cases "\<exists>message. en_parse en frame = JObj message")
  case True
  then obtain message where m: "en_parse en frame = JObj message" by blast
  show ?thesis
  proof (cases "ss_state (se_core s)")
    case AwaitProof
    then have "handle_proof en message s = Inr (s', outs)" using assms(1) m by (simp add: on_text_def)
    then show ?thesis
    proof (cases rule: handle_proof_cases)
      case (aborted e)
      with abort_quiet [of e 4004 "''auth_failed''" s] assms(2) show ?thesis by simp
    qed (use m AwaitProof in blast)+
  qed (use assms m in \<open>auto simp: on_text_def dest: handle_hello_quiet dispatch_running_quiet\<close>)
next
  case False
  then have "on_text en frame s =
    (if ss_state (se_core s) = Running then Inr (s, [warn ''invalid JSON discarded'' []])
     else Inr (abort (protocol_error MalformedMessage ''peer sent something that is not a JSON object'')
                 4000 ''invalid_json'' s))"
    by (simp add: on_text_def split: json.splits)
  with assms show ?thesis by (auto dest: abort_quiet_outs split: if_splits)
qed

section \<open>Steps that do not make a client ready\<close>

definition unready :: "'h client \<Rightarrow> 'h client \<Rightarrow> bool" where
  "unready c c' \<longleftrightarrow> (cl_state c' = Ready \<longrightarrow> cl_state c = Ready)"

lemma unready_refl [simp]: "unready c c"
  by (simp add: unready_def)

lemma unready_trans: "unready c c1 \<Longrightarrow> unready c1 c2 \<Longrightarrow> unready c c2"
  by (simp add: unready_def)

lemma unready_same: "cl_state c' = cl_state c \<Longrightarrow> unready c c'"
  by (simp add: unready_def)

text \<open>A step with this property keeps it when its start is changed in other fields than the state.\<close>

lemma unready_from: "unready c1 c' \<Longrightarrow> cl_state c1 = cl_state c \<Longrightarrow> unready c c'"
  by (simp add: unready_def)

lemma unready_andthen:
  assumes "andthen f g c = Inr (c', outs)" "\<And>c1 o1. f c = Inr (c1, o1) \<Longrightarrow> unready c c1"
    and "\<And>c1 o2. g c1 = Inr (c', o2) \<Longrightarrow> unready c1 c'"
  shows "unready c c'"
  using assms by (auto simp: andthen_Inr intro: unready_trans)

lemma lost_unready: "handle_connection_lost ce e c = Inr (c', outs) \<Longrightarrow> unready c c'"
  using connection_lost_effect(6) by (fastforce simp: unready_def)

lemma callback_unready: "callback ce x c = Inr (c', outs) \<Longrightarrow> \<not> is_ready_call x \<Longrightarrow> unready c c'"
  using callback_effect by (fastforce simp: same_conn_def unready_def)

lemma callbacks_unready: "callbacks ce xs c = Inr (c', outs) \<Longrightarrow> quiet xs \<Longrightarrow> unready c c'"
proof (induction xs arbitrary: c outs)
  case (Cons x xs)
  from Cons.prems(1) have "andthen (callback ce x) (callbacks ce xs) c = Inr (c', outs)" by simp
  then show ?case by (rule unready_andthen) (use Cons callback_unready in auto)
qed simp

lemma closed_unready:
  assumes "handle_transport_closed ce e c = Inr (c', outs)"
  shows "unready c c'"
proof -
  let ?c = "c\<lparr>cl_tick_timer := False, cl_transport := None\<rparr>"
  let ?cause = "case cl_session_failure ?c of Some f \<Rightarrow> f | None \<Rightarrow> e"
  let ?close = "\<lambda>c. case cl_session c of None \<Rightarrow> Inr (c, [])
     | Some s \<Rightarrow> (case on_transport_closed ?cause s of (s', outs) \<Rightarrow> callbacks ce outs (c\<lparr>cl_session := Some s'\<rparr>))"
  from assms obtain c1 o1 o2 where 1: "?close ?c = Inr (c1, o1)"
    and 2: "handle_connection_lost ce ?cause (c1\<lparr>cl_datapoints := mark_all_stale (cl_datapoints c1)\<rparr>) = Inr (c', o2)"
    unfolding handle_transport_closed_def Let_def andthen_Inr modify_Inr by blast
  have "unready ?c c1"
  proof (cases "cl_session c")
    case (Some s)
    with 1 have "callbacks ce (snd (on_transport_closed ?cause s)) (?c\<lparr>cl_session := Some (fst (on_transport_closed ?cause s))\<rparr>)
        = Inr (c1, o1)" by (simp add: case_prod_beta)
    from callbacks_unready [OF this on_transport_closed_quiet] show ?thesis by (simp add: unready_def)
  qed (use 1 in simp)
  moreover from lost_unready [OF 2] have "unready c1 c'" by (rule unready_from) simp
  ultimately show ?thesis by (auto simp: unready_def)
qed

lemma opened_unready:
  assumes "on_opened ce t r c = Inr (c', outs)"
  shows "unready c c'"
proof (cases r)
  case (Inl e)
  with assms show ?thesis by (auto simp: on_opened_def dest!: lost_unready intro: unready_from)
next
  case (Inr u)
  with assms show ?thesis
    by (auto simp: on_opened_def seq_simps exec_simps arm_tick_def unready_def dest!: enter_state_Inr split: option.splits)
qed

lemma route_unready: "route ce t xs c = Inr (c', outs) \<Longrightarrow> unready c c'"
proof (induction xs arbitrary: c outs)
  case (Cons x xs)
  let ?f = "\<lambda>c. case x of Opened u r \<Rightarrow> on_opened ce t r c | Closed_call u e \<Rightarrow> handle_transport_closed ce e c | _ \<Rightarrow> Inr (c, [Net x])"
  from Cons.prems have "andthen ?f (route ce t xs) c = Inr (c', outs)" by simp
  then show ?case
    by (rule unready_andthen) (use Cons.IH opened_unready closed_unready in \<open>auto split: tout.splits\<close>)
qed simp

lemma dialer_event_unready: "dialer_event ce f c = Inr (c', outs) \<Longrightarrow> unready c c'"
  by (auto simp: dialer_event_def dest!: route_unready intro: unready_from split: option.splits prod.splits)

lemma transport_event_unready: "transport_event ce f c = Inr (c', outs) \<Longrightarrow> unready c c'"
  by (auto simp: transport_event_def exec_simps dest!: route_unready intro: unready_from split: option.splits)

lemma session_out_unready:
  assumes "session_out ce x c = Inr (c', outs)" "\<not> is_ready_call x"
  shows "unready c c'"
  using assms callback_unready [of ce x c c' outs]
  by (cases x) (auto simp: send_frame_def dest: transport_event_unready split: option.splits if_splits)

lemma session_outs_unready: "session_outs ce xs c = Inr (c', outs) \<Longrightarrow> quiet xs \<Longrightarrow> unready c c'"
proof (induction xs arbitrary: c outs)
  case (Cons x xs)
  from Cons.prems(1) have "andthen (session_out ce x) (session_outs ce xs) c = Inr (c', outs)" by simp
  then show ?case by (rule unready_andthen) (use Cons session_out_unready in auto)
qed simp

lemma with_session_unready:
  assumes "with_session ce f c = Inr (c', outs)"
    and "\<And>s s' xs. cl_session c = Some s \<Longrightarrow> f (session_env ce c) s = Inr (s', xs) \<Longrightarrow> quiet xs"
  shows "unready c c'"
proof -
  from assms obtain s s' xs where "cl_session c = Some s" "f (session_env ce c) s = Inr (s', xs)"
    "session_outs ce xs (c\<lparr>cl_session := Some s'\<rparr>) = Inr (c', outs)"
    by (auto simp: with_session_def exec_simps split: option.splits)
  with assms(2) session_outs_unready show ?thesis by (fastforce intro: unready_from)
qed

section \<open>Tasks\<close>

lemma submit_unready: "run_submit ce spec h c = Inr (c', outs) \<Longrightarrow> unready c c'"
  using answer_handler_effect
  by (fastforce simp: run_submit_def same_conn_def unready_def request_quiet dest: with_session_unready split: if_splits)

lemma send_unready: "run_send ce ty body c = Inr (c', outs) \<Longrightarrow> unready c c'"
  by (auto simp: run_send_def exec_simps dest!: with_session_unready split: if_splits)

lemma tick_unready:
  assumes "run_tick ce c = Inr (c', outs)"
  shows "unready c c'"
proof (cases "\<exists>t. cl_transport c = Some t \<and> is_open t")
  case True
  with assms obtain c1 c2 o1 o2 where 1: "with_session ce (\<lambda>en s. session_tick en (en_now en) s) c = Inr (c1, o1)"
    and 2: "tick_poller ce c1 = Inr (c2, o2)" and 3: "c' = arm_tick c2"
    by (auto simp: run_tick_def seq_simps)
  have "unready c c1" using 1 by (rule with_session_unready) (rule session_tick_quiet)
  then show ?thesis using tick_poller_ok [OF 2] by (simp add: 3 arm_tick_def same_conn_def unready_def)
next
  case False
  with assms show ?thesis by (auto simp: run_tick_def split: option.splits if_splits)
qed

lemma attempt_unready:
  assumes "start_attempt ce c = Inr (c', outs)" "cl_state c \<noteq> Ready"
  shows "unready c c'"
proof -
  have "andthen (modify ensure_session) (andthen (enter_state Resolving None None) (dial ce)) c1 = Inr (c2, o2) \<Longrightarrow>
      unready c1 c2" for c1 c2 o2
    by (auto simp: seq_simps dial_def Let_def unready_def dest!: enter_state_Inr dialer_event_unready)
  then show ?thesis
    using assms
    by (auto simp: start_attempt_def Let_def complete_connect_def unready_def split: sum.splits) fastforce
qed

lemma connect_unready: "begin_connect ce h c = Inr (c', outs) \<Longrightarrow> unready c c'"
  by (auto simp: begin_connect_def Let_def dest!: attempt_unready intro: unready_from unready_same
      split: if_splits option.splits)

lemma disconnect_unready: "request_disconnect ce h c = Inr (c', outs) \<Longrightarrow> unready c c'"
  by (auto simp: request_disconnect_def Let_def seq_simps dest!: transport_event_unready dialer_event_unready enter_state_Inr
      intro: unready_from split: if_splits) (auto simp: unready_def)

lemma task_unready: "run_task ce k c = Inr (c', outs) \<Longrightarrow> unready c c'"
  by (cases k) (auto dest: submit_unready send_unready tick_unready connect_unready disconnect_unready split: if_splits)

lemma read_ready:
  assumes "run_read ce rx c = Inr (c', outs)" "\<not> unready c c'"
  shows "\<exists>frame s s' xs. rx = Rx_text frame \<and> cl_session c = Some s \<and> on_text (session_env ce c) frame s = Inr (s', xs) \<and> \<not> quiet xs"
proof -
  from assms obtain t where t: "cl_transport c = Some t" by (auto simp: run_read_def split: option.splits)
  from assms obtain frame where f: "rx = Rx_text frame" "wt_receive_handler t \<noteq> None"
    by (cases rx) (auto simp: run_read_def t dest: transport_event_unready split: option.splits)
  with assms(1) t obtain o1 where "with_session ce (\<lambda>en s. on_text en frame s) c = Inr (c', o1)"
    by (auto simp: run_read_def seq_simps split: option.splits)
  from with_session_unready [OF this] assms(2) f(1) show ?thesis by blast
qed

text \<open>
  C5: A client becomes ready in one way only: a text frame arrives while its session waits for the proof
  of the device, the frame is a JSON object whose MAC verifies under the key, the nonces and the
  device id of this handshake, and its number is above every number accepted before. No call of the
  user, no timer and no other event of the network makes a client ready.
\<close>

theorem ready_needs_verified_proof:
  assumes "client_step ce a c = Inr (c', outs)" "cl_state c \<noteq> Ready" "cl_state c' = Ready"
  shows "\<exists>frame s message n. a = Io_read_done (Rx_text frame) \<and> cl_session c = Some s \<and>
    ss_state (se_core s) = AwaitProof \<and> en_parse (ce_env ce) frame = JObj message \<and>
    verify (en_numlib (ce_env ce)) (en_crypto (ce_env ce)) message (ss_auth (se_core s)) C2s = Inr (True, ''ok'') \<and>
    auth_seq (ce_env ce) message = Inr n \<and> ss_replay (se_core s) < n"
proof -
  have ready: "\<not> unready c c'" using assms(2,3) by (simp add: unready_def)
  have rest: "\<exists>rx. a = Io_read_done rx"
  proof (rule ccontr)
    assume "\<not> ?thesis"
    then have "unready c c'"
      using assms(1)
      by (cases a) (auto simp: post_def dest!: task_unready dialer_event_unready transport_event_unready
          intro: unready_from unready_same split: if_splits list.splits)
    with ready show False by simp
  qed
  then obtain rx where a: "a = Io_read_done rx" by blast
  with assms(1) have "run_read ce rx c = Inr (c', outs)" by simp
  from read_ready [OF this ready] obtain frame s s' xs where r: "rx = Rx_text frame" "cl_session c = Some s"
    "on_text (session_env ce c) frame s = Inr (s', xs)" "\<not> quiet xs"
    by blast
  from on_text_ready [OF r(3,4)] show ?thesis
    using a r by (simp add: session_env_def auth_seq_def)
qed

text \<open>A client whose session has accepted the hello of a device gets its proof.\<close>

definition demo_client_env :: client_env where
  "demo_client_env = \<lparr>ce_env = demo_env, ce_files = (\<lambda>p. Some []),
     ce_ssl = \<lparr>ctx_load_verify = (\<lambda>p. None), ctx_use_chain = (\<lambda>p. None), ctx_use_key = (\<lambda>p. None),
               ctx_key_matches = (\<lambda>a b. True)\<rparr>,
     ce_is_ip = (\<lambda>h. True), ce_random = (\<lambda>b. 0)\<rparr>"

definition demo_endpoint :: endpoint where
  "demo_endpoint = \<lparr>ep_host = ''h'', ep_port = 1, ep_path = ''/'', ep_subprotocol = []\<rparr>"

definition demo_transport :: "unit transport" where
  "demo_transport = (make_transport demo_endpoint VerifyDnsName
       \<lparr>wo_connect_timeout = 1, wo_idle_timeout = 0, wo_user_agent = []\<rparr>)
     \<lparr>wt_phase := Ph_Open, wt_receive_handler := Some (), wt_close_handler := Some ()\<rparr>"

definition demo_waiting :: "nat chandler session" where
  "demo_waiting = (case run_ops demo_env [Op_open, Op_text ''H''] (make_session demo_cfg) of
     Inr (s, outs) \<Rightarrow> s | Inl e \<Rightarrow> make_session demo_cfg)"

definition demo_client :: "nat client" where
  "demo_client = (make_client demo_endpoint)\<lparr>cl_state := FountainHandshaking, cl_session := Some demo_waiting,
     cl_transport := Some demo_transport\<rparr>"

theorem ready_needs_verified_proof_witness:
  "ss_state (se_core demo_waiting) = AwaitProof \<and>
   (\<exists>message n. en_parse demo_env ''P'' = JObj message \<and> auth_seq demo_env message = Inr n \<and>
      ss_replay (se_core demo_waiting) < n \<and>
      verify (en_numlib demo_env) (en_crypto demo_env) message (ss_auth (se_core demo_waiting)) C2s = Inr (True, ''ok''))"
proof -
  let ?step = "client_step demo_client_env (Io_read_done (Rx_text ''P'')) demo_client"
  have "map_sum id (\<lambda>(c', outs). cl_state c') ?step = Inr Ready" by code_simp
  then obtain c' outs where r: "?step = Inr (c', outs)" "cl_state c' = Ready" by (cases ?step) auto
  have "cl_state demo_client \<noteq> Ready" by (simp add: demo_client_def)
  from ready_needs_verified_proof [OF r(1) this r(2)] show ?thesis
    by (auto simp: demo_client_env_def demo_client_def)
qed

section \<open>Requests of a client that reconnects\<close>

lemma new_session_empty: "held (se_dispatcher (make_session cfg)) = {#}"
  by (simp add: make_session_def make_dispatcher_def held_def)

text \<open>A request to a session that does not run waits in its queue and nobody is told.\<close>

lemma request_waits:
  assumes "\<not> dq_sending_enabled (se_dispatcher s)" "dq_queue (se_dispatcher s) = []" "dq_pending (se_dispatcher s) = []"
    and "rs_coalesce_key spec = []" "rs_timeout spec = Some t" "0 < t"
  shows "\<exists>s'. request en spec (Some h) s = Inr (s', []) \<and> held (se_dispatcher s') = {#h#}"
  using assms
  by (auto simp: request_def lift_step_def submit_def tick_def expire_queue_def expire_pending_def drain_def new_waiting_def
      held_def refill_def ns_of_ms_def Let_def count_metric_def)

lemma enter_state_total:
  "\<exists>outs. enter_state st i e c = Inr (c\<lparr>cl_state := st\<rparr>, outs) \<and> (\<forall>h r. Handler_done h r \<notin> set outs)"
  by (cases "cl_state c = st") (auto simp: enter_state_def Let_def)

lemma attempt_new_session:
  assumes "sec_validate (ce_files ce) (cl_security c) = Inr ()"
    and "make_ssl_context (ce_files ce) (ce_ssl ce) (sx_tls (cl_security c)) = Inr ctx"
  shows "\<exists>c' outs cfg. start_attempt ce c = Inr (c', outs) \<and> cl_session c' = Some (make_session cfg) \<and>
    (\<forall>h r. Handler_done h r \<notin> set outs)"
proof -
  let ?c1 = "c\<lparr>cl_reconnect_timer := None, cl_security := sec_lock (cl_security c), cl_user_disconnect := False,
     cl_session_failure := None, cl_session := None\<rparr>"
  obtain cfg where s: "ensure_session ?c1 = ?c1\<lparr>cl_session := Some (make_session cfg)\<rparr>"
    by (simp add: ensure_session_def Let_def)
  let ?c2 = "?c1\<lparr>cl_session := Some (make_session cfg)\<rparr>"
  obtain o1 where o1: "enter_state Resolving None None ?c2 = Inr (?c2\<lparr>cl_state := Resolving\<rparr>, o1)"
    "\<forall>h r. Handler_done h r \<notin> set o1"
    using enter_state_total [of Resolving None None ?c2] by blast
  obtain c' o2 where o2: "dial ce (?c2\<lparr>cl_state := Resolving\<rparr>) = Inr (c', o2)"
    by (auto simp: dial_def dialer_event_def async_open_def make_transport_def Let_def andthen_def)
  from dial_effect [OF o2] have "cl_session c' = Some (make_session cfg)" "\<forall>h r. Handler_done h r \<notin> set o2" by auto
  moreover have "sx_tls (sec_lock (cl_security c)) = sx_tls (cl_security c)" by (simp add: sec_lock_def)
  with assms o1(1) o2 have "start_attempt ce c = Inr (c', o1 @ o2)"
    by (simp add: start_attempt_def Let_def andthen_def modify_def s)
  ultimately show ?thesis using o1(2) by auto
qed


definition demo_lost :: "nat client" where
  "demo_lost = (make_client demo_endpoint)\<lparr>cl_state := Reconnecting, cl_session := Some (make_session demo_cfg),
     cl_security := make_security\<lparr>sx_has_tls := True, sx_tls := set_unsafe_options True empty_tls,
                                  sx_provider := Some (\<lambda>dev kid. Inr [])\<rparr>\<rparr>"


section \<open>Frames with members of the wrong kind\<close>

text \<open>
  A peer that has not authenticated can end the IO thread: a JSON object whose \<open>type\<close> is no string,
  received while the session waits for the hello, makes the JSON library throw, and no call between
  the session and the IO thread catches the exception.
\<close>

theorem mistyped_hello_throws:
  assumes "cl_transport c = Some t" "wt_receive_handler t = Some u" "cl_session c = Some s"
    and "ss_state (se_core s) = AwaitHello" "en_parse (ce_env ce) frame = JObj message"
    and "map_of message ''type'' = Some v" "\<nexists>txt. v = JStr txt"
  shows "client_step ce (Io_read_done (Rx_text frame)) c = Inl (Json_error 302)"
proof -
  have "get_string v = Inl (Json_error 302)" using assms(7) by (cases v) simp_all
  then have "handle_hello (session_env ce c) message s = Inl (Json_error 302)"
    using assms(6) by (simp add: handle_hello_def msg_value_def)
  then show ?thesis
    using assms(1-5) by (simp add: run_read_def andthen_def with_session_def on_text_def session_env_def)
qed

definition demo_expecting :: "nat chandler session" where
  "demo_expecting = (let s = make_session demo_cfg in s\<lparr>se_core := (se_core s)\<lparr>ss_state := AwaitHello\<rparr>\<rparr>)"

theorem mistyped_hello_throws_witness:
  "client_step (demo_client_env\<lparr>ce_env := demo_env\<lparr>en_parse := (\<lambda>f. JObj [(''type'', JInt 1)])\<rparr>\<rparr>)
     (Io_read_done (Rx_text [])) (demo_client\<lparr>cl_session := Some demo_expecting\<rparr>) = Inl (Json_error 302)"
  by (rule mistyped_hello_throws [of _ demo_transport "()" demo_expecting _ _ "[(''type'', JInt 1)]" "JInt 1"])
    (simp_all add: demo_client_def demo_transport_def demo_expecting_def Let_def)

end
