(* ===== verification/Client_Shutdown.thy ===== *)
theory Client_Shutdown
  imports Client_Safety
begin

text \<open>
  Shutting a client down (\<open>Client::Impl::shutdown\<close>, its destructor and \<open>Client::disconnect\<close>): the call
  posts a request to disconnect and waits for its completion. No step on the way throws, and the completion comes
  at once or with the end of the closing handshake.
\<close>

section \<open>Operations\<close>

text \<open>\<open>h\<close> is the promise the caller waits for.\<close>

definition shutdown :: "'h \<Rightarrow> 'h client \<Rightarrow> 'h client" where
  "shutdown h = post (Disconnect_task (Some h))"

text \<open>The rest of the destructor once the promise is fulfilled: the IO thread ends, what is still queued never runs.\<close>

definition stop_io :: "'h client \<Rightarrow> 'h client" where
  "stop_io c = c\<lparr>cl_tasks := []\<rparr>"

definition connection_info_of :: "'h client \<Rightarrow> connection_info option" where
  "connection_info_of c = cl_info c"

definition set_ota_policy :: "ota_policy option \<Rightarrow> 'h client \<Rightarrow> 'h client" where
  "set_ota_policy p c = c\<lparr>cl_ota_policy := p\<rparr>"

lemma disconnect_shuts_down: "disconnect False h c = (Inr (), shutdown h c)"
  by (simp add: disconnect_def async_disconnect_def shutdown_def)

lemma shutdown_posts [simp]: "cl_tasks (shutdown h c) = cl_tasks c @ [Disconnect_task (Some h)]"
  by (simp add: shutdown_def post_def)

section \<open>No step of the way throws\<close>

definition down :: "'h client \<Rightarrow> bool" where
  "down c \<longleftrightarrow> cl_state c = Disconnected_state \<and> cl_transport c = None \<and> cl_dialer c = None"

lemma enter_total: "\<exists>outs. enter_state st i e c = Inr (c\<lparr>cl_state := st\<rparr>, outs) \<and> disconnect_calls outs = {#}"
  by (cases "cl_state c = st") (auto simp: enter_state_def Let_def)

lemma lost_total:
  assumes "cl_user_disconnect c" "cl_transport c = None" "cl_dialer c = None"
  shows "\<exists>c' outs. handle_connection_lost ce e c = Inr (c', outs) \<and> down c' \<and> disconnect_calls outs = mset (cl_disconnect_waiters c)"
proof -
  obtain outs where "enter_state Disconnected_state None None (unlock_security c) =
      Inr ((unlock_security c)\<lparr>cl_state := Disconnected_state\<rparr>, outs)" "disconnect_calls outs = {#}"
    using enter_total by blast
  then show ?thesis
    using assms by (simp add: handle_connection_lost_def andthen_def modify_def complete_connect_def complete_disconnect_def
        unlock_security_def down_def)
qed

text \<open>The answers to the open requests are failures, and failures never throw.\<close>

lemma answer_failure: "\<exists>c' outs. answer_handler ce h (Inl e) c = Inr (c', outs)"
  by (cases h) (simp_all add: answer_handler_def read_response_def)

lemma closed_answers: "x \<in> set (snd (on_transport_closed e s)) \<Longrightarrow> \<exists>h. x = Answer h (Inl e)"
  by (auto simp: on_transport_closed_def fail_requests_def fail_all_def complete_def live_def Let_def)

lemma callbacks_failures:
  assumes "\<forall>x \<in> set xs. \<exists>h e. x = Answer h (Inl e)"
  shows "\<exists>c' outs. callbacks ce xs c = Inr (c', outs)"
  using assms
proof (induction xs arbitrary: c)
  case (Cons x xs)
  then obtain h e where "x = Answer h (Inl e)" by auto
  with answer_failure obtain c1 o1 where x: "callback ce x c = Inr (c1, o1)" by fastforce
  obtain c2 o2 where "callbacks ce xs c1 = Inr (c2, o2)" using Cons by fastforce
  with x show ?case by (simp add: andthen_def)
qed simp

lemma closed_total:
  assumes "cl_user_disconnect c" "cl_dialer c = None"
  shows "\<exists>c' outs. handle_transport_closed ce e c = Inr (c', outs) \<and> down c' \<and>
    disconnect_calls outs = mset (cl_disconnect_waiters c)"
proof -
  let ?c = "c\<lparr>cl_tick_timer := False, cl_transport := None\<rparr>"
  define cause where "cause = (case cl_session_failure ?c of Some f \<Rightarrow> f | None \<Rightarrow> e)"
  let ?close = "\<lambda>c. case cl_session c of None \<Rightarrow> Inr (c, [])
     | Some s \<Rightarrow> (case on_transport_closed cause s of (s', outs) \<Rightarrow> callbacks ce outs (c\<lparr>cl_session := Some s'\<rparr>))"
  have "\<exists>c1 o1. ?close ?c = Inr (c1, o1) \<and> same_transports ?c c1 \<and> balanced ?c c1 o1"
  proof (cases "cl_session c")
    case (Some s)
    obtain s' xs where on: "on_transport_closed cause s = (s', xs)" by fastforce
    then have "\<forall>x \<in> set xs. \<exists>h e. x = Answer h (Inl e)" using closed_answers [of _ cause s] by fastforce
    then obtain c1 o1 where "callbacks ce xs (?c\<lparr>cl_session := Some s'\<rparr>) = Inr (c1, o1)"
      using callbacks_failures by blast
    with callbacks_transports [OF this] on Some show ?thesis by (auto simp: same_transports_def balanced_def)
  qed (simp add: same_transports_def)
  then obtain c1 o1 where c1: "?close ?c = Inr (c1, o1)" "same_transports ?c c1" "balanced ?c c1 o1" by blast
  have d: "disconnect_calls o1 = {#}" using c1(2,3) by (simp add: same_transports_def balanced_def)
  let ?m = "c1\<lparr>cl_datapoints := mark_all_stale (cl_datapoints c1)\<rparr>"
  obtain c2 o2 where "handle_connection_lost ce cause ?m = Inr (c2, o2)" "down c2" "disconnect_calls o2 = mset (cl_disconnect_waiters ?m)"
    using lost_total [of ?m ce cause] c1(2) assms by (auto simp: same_transports_def)
  with c1(2) d show ?thesis
    unfolding handle_transport_closed_def Let_def cause_def [symmetric] andthen_def modify_def c1(1)
    by (simp add: same_transports_def)
qed

lemma route_call_total:
  assumes "calls outs = [x]" "route_call ce t x c = Inr (c', o1)"
  shows "\<exists>os. route ce t outs c = Inr (c', os) \<and> disconnect_calls os = disconnect_calls o1"
  using assms
proof (induction outs)
  case (Cons y outs)
  show ?case
  proof (cases "is_call y")
    case True
    with Cons.prems show ?thesis by (cases y) (simp_all add: route_call_def andthen_def route_quiet)
  next
    case False
    with Cons show ?thesis by (cases y) (auto simp: andthen_def)
  qed
qed simp

section \<open>Shutdown completes\<close>

lemma close_closing: "up t \<Longrightarrow> wt_phase (fst (close code reason t)) = Ph_Closing"
  by (auto simp: close_def up_def live_def)

lemma closed_step_total:
  assumes "cl_transport c = Some t" "up t" "cl_dialer c = None" "cl_user_disconnect c"
  shows "\<exists>c' outs. client_step ce Io_close_done c = Inr (c', outs) \<and> down c' \<and> disconnect_calls outs = mset (cl_disconnect_waiters c)"
proof -
  obtain u where u: "calls (snd (on_close t)) = [Closed_call u (make_error Dom_Disconnected TransportClosed ''connection closed'')]"
    using finish_up [OF assms(2)] by (force simp: on_close_def)
  let ?c = "c\<lparr>cl_transport := Some (fst (on_close t))\<rparr>"
  from closed_total [of ?c ce] assms obtain c' o1 where
    "handle_transport_closed ce (make_error Dom_Disconnected TransportClosed ''connection closed'') ?c = Inr (c', o1)"
    "down c'" "disconnect_calls o1 = mset (cl_disconnect_waiters c)" by fastforce
  with route_call_total [OF u, of ce "fst (on_close t)" ?c c' o1] assms(1) show ?thesis
    by (auto simp: transport_event_def case_prod_beta route_call_def)
qed

lemma cancel_step_total:
  assumes "cl_transport c = None" "cl_dialer c = Some t" "dialing t" "cl_user_disconnect c"
  shows "\<exists>c' outs. dialer_event ce cancel c = Inr (c', outs) \<and> down c' \<and> disconnect_calls outs = mset (cl_disconnect_waiters c)"
proof -
  have "wt_phase t \<noteq> Ph_Closed" "wt_phase t \<noteq> Ph_Closing"
    using assms(3) by (auto simp: dialing_def handlers_ok_def connecting_def)
  then obtain u where u: "calls (snd (cancel t)) = [Opened u (Inl (cancelled_error ''connect''))]"
    using finish_dialing [OF dialing_user_close [OF assms(3)]] by (force simp: cancel_def case_prod_beta)
  let ?c = "c\<lparr>cl_dialer := Some (fst (cancel t))\<rparr>"
  from lost_total [of "c\<lparr>cl_dialer := None\<rparr>" ce] assms obtain c' o1 where
    "handle_connection_lost ce (cancelled_error ''connect'') (c\<lparr>cl_dialer := None\<rparr>) = Inr (c', o1)"
    "down c'" "disconnect_calls o1 = mset (cl_disconnect_waiters c)" by fastforce
  with route_call_total [OF u, of ce "fst (cancel t)" ?c c' o1] assms(2) show ?thesis
    by (auto simp: dialer_event_def case_prod_beta route_call_def on_opened_def)
qed


definition idle_client :: "nat client" where
  "idle_client = shutdown 7 (make_client \<lparr>ep_host = ''h'', ep_port = 1, ep_path = ''/'', ep_subprotocol = []\<rparr>)"


end
