(* ===== verification/Config.thy ===== *)
theory Config
  imports Messages
begin

text \<open>
  The configuration file of the command-line tools (\<open>config.hpp\<close>, \<open>config.cpp\<close>). The content of the
  file, its parser, the existence of other files and the text of a JSON exception are arguments.
\<close>

section \<open>Sections\<close>

record device_config =
  dc_host :: string
  dc_port :: "16 word"
  dc_path :: string
  dc_subprotocol :: string

record tls_config =
  tl_ca_file :: string
  tl_client_cert_file :: string
  tl_client_key_file :: string
  tl_verify_peer :: bool
  tl_use_mtls :: bool
  tl_verify_hostname :: string

record connection_config =
  cc_auto_reconnect :: bool
  cc_connect_timeout :: int
  cc_reconnect_initial :: int
  cc_reconnect_max :: int
  cc_idle_timeout :: int

record fountain_step =
  fs_type :: string
  fs_body :: json
  fs_delay :: int
  fs_timeout :: int

record fountain_config =
  fc_enabled :: bool
  fc_device_id :: string
  fc_serial :: string
  fc_kid :: string
  fc_hmac_key_file :: string
  fc_handshake_timeout :: int
  fc_dp_read_on_ready :: bool
  fc_sequence :: "fountain_step list"
  fc_loop :: bool

record config =
  co_device :: device_config
  co_tls :: tls_config
  co_connection :: connection_config
  co_logging_level :: string
  co_fountain :: fountain_config

definition default_config :: config where
  "default_config =
     \<lparr>co_device = \<lparr>dc_host = [], dc_port = 4443, dc_path = ''/ws'', dc_subprotocol = ''fountain''\<rparr>,
      co_tls = \<lparr>tl_ca_file = [], tl_client_cert_file = [], tl_client_key_file = [], tl_verify_peer = True,
                tl_use_mtls = True, tl_verify_hostname = ''auto''\<rparr>,
      co_connection = \<lparr>cc_auto_reconnect = True, cc_connect_timeout = 10, cc_reconnect_initial = 1,
                       cc_reconnect_max = 30, cc_idle_timeout = 60\<rparr>,
      co_logging_level = ''info'',
      co_fountain = \<lparr>fc_enabled = False, fc_device_id = [], fc_serial = [], fc_kid = ''1'', fc_hmac_key_file = [],
                     fc_handshake_timeout = 15, fc_dp_read_on_ready = True, fc_sequence = [], fc_loop = False\<rparr>\<rparr>"

section \<open>Validation\<close>

definition require_file :: "(string \<Rightarrow> bool) \<Rightarrow> string \<Rightarrow> string \<Rightarrow> unit exec" where
  "require_file exists path what =
    (if path = [] then Inl (Runtime_error (what @ '' not configured''))
     else if \<not> exists path then Inl (Runtime_error (what @ '' does not exist: '' @ path))
     else Inr ())"

definition ensure :: "bool \<Rightarrow> string \<Rightarrow> unit exec" where
  "ensure b msg = (if b then Inr () else Inl (Runtime_error msg))"

definition quoted_text :: "string \<Rightarrow> string" where
  "quoted_text s = CHR 0x27 # s @ [CHR 0x27]"

fun check_sequence :: "fountain_step list \<Rightarrow> unit exec" where
  "check_sequence [] = Inr ()"
| "check_sequence (st # steps) =
     bindE (ensure (find_meta (fs_type st) \<noteq> None)
              (''fountain.sequence: unknown message type '' @ quoted_text (fs_type st))) (\<lambda>_. check_sequence steps)"

definition validate_connection :: "connection_config \<Rightarrow> unit exec" where
  "validate_connection c =
     bindE (ensure (0 < cc_connect_timeout c) ''connection.connect_timeout_s must be > 0'') (\<lambda>_.
     bindE (ensure (0 < cc_reconnect_initial c) ''connection.reconnect_initial_s must be > 0'') (\<lambda>_.
     bindE (ensure (cc_reconnect_initial c \<le> cc_reconnect_max c)
              ''connection.reconnect_max_s must be >= reconnect_initial_s'') (\<lambda>_.
     ensure (0 \<le> cc_idle_timeout c) ''connection.idle_timeout_s must be >= 0 (0 disables keepalive)'')))"

definition validate_fountain :: "(string \<Rightarrow> bool) \<Rightarrow> fountain_config \<Rightarrow> unit exec" where
  "validate_fountain exists f =
    (if \<not> fc_enabled f then Inr ()
     else
       bindE (ensure (fc_device_id f \<noteq> []) ''fountain.device_id is missing'') (\<lambda>_.
       bindE (ensure (fc_kid f \<noteq> []) ''fountain.kid is missing'') (\<lambda>_.
       bindE (require_file exists (fc_hmac_key_file f) ''fountain.hmac_key_file'') (\<lambda>_.
       bindE (ensure (0 < fc_handshake_timeout f) ''fountain.handshake_timeout_s must be > 0'') (\<lambda>_.
       check_sequence (fc_sequence f))))))"

definition validate_tls :: "(string \<Rightarrow> bool) \<Rightarrow> tls_config \<Rightarrow> unit exec" where
  "validate_tls exists t =
     bindE (if tl_verify_peer t then require_file exists (tl_ca_file t) ''tls.ca_file'' else Inr ()) (\<lambda>_.
     bindE (if tl_use_mtls t
            then bindE (require_file exists (tl_client_cert_file t) ''tls.client_cert_file'') (\<lambda>_.
                 require_file exists (tl_client_key_file t) ''tls.client_key_file'')
            else Inr ()) (\<lambda>_.
     ensure (tl_verify_hostname t \<in> {''auto'', ''on'', ''off''})
       (''tls.verify_hostname must be \"auto\", \"on\" or \"off\": '' @ quoted_text (tl_verify_hostname t))))"

definition validate_device :: "device_config \<Rightarrow> unit exec" where
  "validate_device dv =
     bindE (ensure (dc_host dv \<noteq> []) ''device.host is missing'') (\<lambda>_.
     bindE (ensure (dc_port dv \<noteq> 0) ''device.port must not be 0'') (\<lambda>_.
     ensure (dc_path dv \<noteq> [] \<and> hd (dc_path dv) = CHR ''/'')
       (''device.path must be a non-empty absolute path: '' @ quoted_text (dc_path dv))))"

definition validate_config :: "(string \<Rightarrow> bool) \<Rightarrow> config \<Rightarrow> unit exec" where
  "validate_config exists c =
     bindE (validate_device (co_device c)) (\<lambda>_.
     bindE (validate_tls exists (co_tls c)) (\<lambda>_.
     bindE (validate_connection (co_connection c)) (\<lambda>_.
     bindE (ensure (co_logging_level c \<in> {''trace'', ''debug'', ''info'', ''warn'', ''error''})
              (''logging.level must be trace|debug|info|warn|error: '' @ quoted_text (co_logging_level c))) (\<lambda>_.
     validate_fountain exists (co_fountain c)))))"

section \<open>Loading\<close>

text \<open>\<open>value(key, int)\<close>: the number is cast to a 32-bit signed integer.\<close>

definition get_int :: "(fp \<Rightarrow> int) \<Rightarrow> json \<Rightarrow> int exec" where
  "get_int fc j = bindE (get_arith fc j) (\<lambda>i. Inr (sint (word_of_int i :: 32 word)))"

definition read_seconds :: "(fp \<Rightarrow> int) \<Rightarrow> json \<Rightarrow> string \<Rightarrow> int \<Rightarrow> int exec" where
  "read_seconds fc j key fallback = json_value (get_i64 fc) j key fallback"

definition load_device :: "(fp \<Rightarrow> int) \<Rightarrow> json \<Rightarrow> device_config exec" where
  "load_device fc j =
     bindE (json_value get_string j ''host'' []) (\<lambda>host.
     bindE (json_value (get_int fc) j ''port'' 4443) (\<lambda>port.
     bindE (ensure (0 \<le> port \<and> port \<le> 65535) (''device.port out of range: '' @ int_dec port)) (\<lambda>_.
     bindE (json_value get_string j ''path'' ''/ws'') (\<lambda>path.
     bindE (json_value get_string j ''websocket_subprotocol'' ''fountain'') (\<lambda>sub.
       Inr \<lparr>dc_host = host, dc_port = word_of_int port, dc_path = path, dc_subprotocol = sub\<rparr>)))))"

definition load_tls :: "json \<Rightarrow> tls_config \<Rightarrow> tls_config exec" where
  "load_tls j old =
     bindE (json_value get_string j ''ca_file'' []) (\<lambda>ca.
     bindE (json_value get_string j ''client_cert_file'' []) (\<lambda>cert.
     bindE (json_value get_string j ''client_key_file'' []) (\<lambda>key.
     bindE (json_value get_bool j ''verify_peer'' True) (\<lambda>peer.
     bindE (json_value get_bool j ''use_mtls'' True) (\<lambda>mtls.
     bindE (case json_find j ''verify_hostname'' of
              None \<Rightarrow> Inr (tl_verify_hostname old)
            | Some (JBool b) \<Rightarrow> Inr (if b then ''on'' else ''off'')
            | Some raw \<Rightarrow> get_string raw) (\<lambda>host.
       Inr \<lparr>tl_ca_file = ca, tl_client_cert_file = cert, tl_client_key_file = key, tl_verify_peer = peer,
            tl_use_mtls = mtls, tl_verify_hostname = host\<rparr>))))))"

definition load_connection :: "(fp \<Rightarrow> int) \<Rightarrow> json \<Rightarrow> connection_config \<Rightarrow> connection_config exec" where
  "load_connection fc j old =
     bindE (json_value get_bool j ''auto_reconnect'' True) (\<lambda>auto.
     bindE (read_seconds fc j ''connect_timeout_s'' (cc_connect_timeout old)) (\<lambda>ct.
     bindE (read_seconds fc j ''reconnect_initial_s'' (cc_reconnect_initial old)) (\<lambda>ri.
     bindE (read_seconds fc j ''reconnect_max_s'' (cc_reconnect_max old)) (\<lambda>rm.
     bindE (read_seconds fc j ''idle_timeout_s'' (cc_idle_timeout old)) (\<lambda>it.
       Inr \<lparr>cc_auto_reconnect = auto, cc_connect_timeout = ct, cc_reconnect_initial = ri, cc_reconnect_max = rm,
            cc_idle_timeout = it\<rparr>)))))"

definition load_step :: "(fp \<Rightarrow> int) \<Rightarrow> json \<Rightarrow> fountain_step exec" where
  "load_step fc j =
     bindE (json_value get_string j ''type'' []) (\<lambda>t.
     bindE (json_value get_json j ''body'' (JObj [])) (\<lambda>b.
     bindE (json_value (get_int fc) j ''delay_ms'' 0) (\<lambda>delay.
     bindE (json_value (get_int fc) j ''timeout_s'' 10) (\<lambda>timeout.
       Inr \<lparr>fs_type = t, fs_body = b, fs_delay = delay, fs_timeout = timeout\<rparr>))))"

definition load_fountain :: "(fp \<Rightarrow> int) \<Rightarrow> json \<Rightarrow> fountain_config \<Rightarrow> fountain_config exec" where
  "load_fountain fc j old =
     bindE (json_value get_string j ''device_id'' []) (\<lambda>dev.
     bindE (json_value get_string j ''serial'' []) (\<lambda>serial.
     bindE (json_value get_string j ''kid'' ''1'') (\<lambda>kid.
     bindE (json_value get_string j ''hmac_key_file'' []) (\<lambda>key.
     bindE (read_seconds fc j ''handshake_timeout_s'' (fc_handshake_timeout old)) (\<lambda>ht.
     bindE (json_value get_bool j ''dp_read_on_ready'' True) (\<lambda>dp.
     bindE (json_value get_bool j ''loop'' False) (\<lambda>lp.
     bindE (case json_find j ''sequence'' of
              None \<Rightarrow> Inr (fc_sequence old)
            | Some sq \<Rightarrow> bindE (mapE (load_step fc) (json_elements sq)) (\<lambda>steps. Inr (fc_sequence old @ steps))) (\<lambda>steps.
       Inr \<lparr>fc_enabled = True, fc_device_id = dev, fc_serial = serial, fc_kid = kid, fc_hmac_key_file = key,
            fc_handshake_timeout = ht, fc_dp_read_on_ready = dp, fc_sequence = steps, fc_loop = lp\<rparr>))))))))"

text \<open>A section that is absent keeps its defaults.\<close>

definition opt_section :: "json \<Rightarrow> string \<Rightarrow> (json \<Rightarrow> 'a exec) \<Rightarrow> 'a \<Rightarrow> 'a exec" where
  "opt_section j key load d = (case json_find j key of None \<Rightarrow> Inr d | Some s \<Rightarrow> load s)"

definition read_config :: "(fp \<Rightarrow> int) \<Rightarrow> json \<Rightarrow> config exec" where
  "read_config fc j =
     bindE (opt_section j ''device'' (load_device fc) (co_device default_config)) (\<lambda>dv.
     bindE (opt_section j ''tls'' (\<lambda>s. load_tls s (co_tls default_config)) (co_tls default_config)) (\<lambda>tls.
     bindE (opt_section j ''connection'' (\<lambda>s. load_connection fc s (co_connection default_config))
              (co_connection default_config)) (\<lambda>conn.
     bindE (opt_section j ''logging'' (\<lambda>s. json_value get_string s ''level'' ''info'')
              (co_logging_level default_config)) (\<lambda>level.
     bindE (opt_section j ''fountain'' (\<lambda>s. load_fountain fc s (co_fountain default_config))
              (co_fountain default_config)) (\<lambda>ft.
       Inr \<lparr>co_device = dv, co_tls = tls, co_connection = conn, co_logging_level = level, co_fountain = ft\<rparr>)))))"

text \<open>\<open>parse\<close> throws a JSON exception on text that is no JSON; the handler catches exactly those.\<close>

definition catch_json :: "(exn \<Rightarrow> string) \<Rightarrow> string \<Rightarrow> 'a exec \<Rightarrow> 'a exec" where
  "catch_json what path m =
    (case m of
       Inl (Json_error n) \<Rightarrow> Inl (Runtime_error (''invalid JSON in '' @ path @ '': '' @ what (Json_error n)))
     | _ \<Rightarrow> m)"

definition load_config ::
  "(string \<Rightarrow> string option) \<Rightarrow> (string \<Rightarrow> bool) \<Rightarrow> (string \<Rightarrow> json exec) \<Rightarrow> (fp \<Rightarrow> int) \<Rightarrow> (exn \<Rightarrow> string) \<Rightarrow>
    string \<Rightarrow> config exec" where
  "load_config files exists parse fc what path =
    (case files path of
       None \<Rightarrow> Inl (Runtime_error (''cannot open config file: '' @ path))
     | Some text \<Rightarrow>
        bindE (catch_json what path (bindE (parse text) (read_config fc))) (\<lambda>c.
        bindE (validate_config exists c) (\<lambda>_. Inr c)))"

section \<open>Laws\<close>

definition file_given :: "(string \<Rightarrow> bool) \<Rightarrow> string \<Rightarrow> bool" where
  "file_given exists path \<longleftrightarrow> path \<noteq> [] \<and> exists path"

definition config_valid :: "(string \<Rightarrow> bool) \<Rightarrow> config \<Rightarrow> bool" where
  "config_valid exists c \<longleftrightarrow>
     (let dv = co_device c; t = co_tls c; cn = co_connection c; f = co_fountain c in
      dc_host dv \<noteq> [] \<and> dc_port dv \<noteq> 0 \<and> (\<exists>rest. dc_path dv = CHR ''/'' # rest) \<and>
      (tl_verify_peer t \<longrightarrow> file_given exists (tl_ca_file t)) \<and>
      (tl_use_mtls t \<longrightarrow> file_given exists (tl_client_cert_file t) \<and> file_given exists (tl_client_key_file t)) \<and>
      tl_verify_hostname t \<in> {''auto'', ''on'', ''off''} \<and>
      0 < cc_connect_timeout cn \<and> 0 < cc_reconnect_initial cn \<and> cc_reconnect_initial cn \<le> cc_reconnect_max cn \<and>
      0 \<le> cc_idle_timeout cn \<and>
      co_logging_level c \<in> {''trace'', ''debug'', ''info'', ''warn'', ''error''} \<and>
      (fc_enabled f \<longrightarrow> fc_device_id f \<noteq> [] \<and> fc_kid f \<noteq> [] \<and> file_given exists (fc_hmac_key_file f) \<and>
         0 < fc_handshake_timeout f \<and> (\<forall>st \<in> set (fc_sequence f). find_meta (fs_type st) \<noteq> None)))"

lemma ensure_Inr [simp]: "ensure b m = Inr u \<longleftrightarrow> b"
  by (simp add: ensure_def)

lemma require_file_Inr [simp]: "require_file exists p w = Inr u \<longleftrightarrow> file_given exists p"
  by (simp add: require_file_def file_given_def)

lemma check_sequence_Inr [simp]:
  "check_sequence steps = Inr u \<longleftrightarrow> (\<forall>st \<in> set steps. find_meta (fs_type st) \<noteq> None)"
  by (induction steps) (auto simp: exec_simps)

lemma path_absolute: "p \<noteq> [] \<and> hd p = c \<longleftrightarrow> (\<exists>rest. p = c # rest)"
  by (cases p) auto

lemma validate_config_iff: "validate_config exists c = Inr u \<longleftrightarrow> config_valid exists c"
  by (auto simp: validate_config_def validate_device_def validate_tls_def validate_connection_def
      validate_fountain_def config_valid_def exec_simps Let_def path_absolute)

text \<open>The exceptions a computation can throw.\<close>

definition throws :: "(exn \<Rightarrow> bool) \<Rightarrow> 'a exec \<Rightarrow> bool" where
  "throws P m \<longleftrightarrow> (\<forall>e. m = Inl e \<longrightarrow> P e)"

fun runtime :: "exn \<Rightarrow> bool" where
  "runtime (Runtime_error m) = True" | "runtime _ = False"

fun benign :: "exn \<Rightarrow> bool" where
  "benign (Undefined_behaviour m) = False" | "benign _ = True"

lemma throws_simps [simp]: "throws P (Inr x)" "throws P (Inl e) = P e"
  by (simp_all add: throws_def)

lemma throws_bindE: "throws P m \<Longrightarrow> (\<And>x. throws P (f x)) \<Longrightarrow> throws P (bindE m f)"
  by (cases m) simp_all

lemma throws_ensure: "throws runtime (ensure b m)" "throws benign (ensure b m)"
  by (simp_all add: ensure_def)

lemma throws_json_value: "(\<And>v. throws benign (g v)) \<Longrightarrow> throws benign (json_value g j k d)"
  by (cases j) (simp_all split: option.split)

lemma throws_gets:
  "throws benign (get_string j)" "throws benign (get_bool j)" "throws benign (get_i64 fc j)"
  "throws benign (get_arith fc j)" "throws benign (get_json j)"
  by (cases j; simp add: get_json_def)+

lemma throws_get_int: "throws benign (get_int fc j)"
  unfolding get_int_def by (intro throws_bindE throws_gets) simp

lemma throws_mapE: "(\<And>x. throws P (f x)) \<Longrightarrow> throws P (mapE f xs)"
  by (induction xs) (simp_all add: throws_bindE)

lemma throws_opt: "(\<And>s. throws P (load s)) \<Longrightarrow> throws P (opt_section j k load d)"
  by (simp add: opt_section_def split: option.split)

lemmas throws_rules = throws_bindE throws_ensure throws_json_value throws_gets throws_get_int throws_mapE
  throws_opt throws_simps(1)

lemma throws_load_device: "throws benign (load_device fc j)"
  unfolding load_device_def by (intro throws_rules)

lemma throws_load_tls: "throws benign (load_tls j t)"
proof -
  have "throws benign (case json_find j ''verify_hostname'' of None \<Rightarrow> Inr (tl_verify_hostname t)
      | Some (JBool b) \<Rightarrow> Inr (if b then ''on'' else ''off'') | Some raw \<Rightarrow> get_string raw)"
    by (simp split: option.split json.split)
  then show ?thesis unfolding load_tls_def by (intro throws_rules)
qed

lemma throws_load_connection: "throws benign (load_connection fc j c)"
  unfolding load_connection_def read_seconds_def by (intro throws_rules)

lemma throws_load_step: "throws benign (load_step fc j)"
  unfolding load_step_def by (intro throws_rules)

lemma throws_load_fountain: "throws benign (load_fountain fc j f)"
proof -
  have "throws benign (case json_find j ''sequence'' of None \<Rightarrow> Inr (fc_sequence f)
      | Some sq \<Rightarrow> bindE (mapE (load_step fc) (json_elements sq)) (\<lambda>steps. Inr (fc_sequence f @ steps)))"
    by (auto intro!: throws_rules throws_load_step split: option.split)
  then show ?thesis unfolding load_fountain_def read_seconds_def by (intro throws_rules)
qed

lemma throws_read_config: "throws benign (read_config fc j)"
  unfolding read_config_def
  by (intro throws_rules throws_load_device throws_load_tls throws_load_connection throws_load_fountain)

lemma throws_validate_config: "throws runtime (validate_config exists c)"
proof -
  have fil: "throws runtime (require_file exists p w)" for p w by (simp add: require_file_def)
  have sq: "throws runtime (check_sequence ss)" for ss
    by (induction ss) (auto intro!: throws_bindE throws_ensure)
  show ?thesis
    unfolding validate_config_def validate_device_def validate_tls_def validate_connection_def validate_fountain_def
    by (auto intro!: throws_bindE throws_ensure fil sq)
qed

text \<open>
  C29: Loading a configuration either yields one that is valid (host, port and path given, every file
  it names present, timeouts positive and ordered, only known levels, policies and message types), or
  throws a \<open>std::runtime_error\<close>; no exception of the JSON library escapes, whatever the file holds.
\<close>

theorem load_config_valid_or_error:
  assumes "\<And>text e. parse text = Inl e \<Longrightarrow> \<exists>n. e = Json_error n"
  shows "case load_config files exists parse fc what path of
      Inr c \<Rightarrow> config_valid exists c
    | Inl e \<Rightarrow> \<exists>msg. e = Runtime_error msg"
proof -
  have "throws benign (parse t)" for t using assms [of t] by (auto simp: throws_def)
  then have "throws benign (bindE (parse t) (read_config fc))" for t
    by (intro throws_bindE throws_read_config)
  then have "throws runtime (catch_json what path (bindE (parse t) (read_config fc)))" for t
    by (auto simp: throws_def catch_json_def split: sum.splits exn.splits)
      (metis benign.simps(1) runtime.elims(3))+
  then have "throws runtime (load_config files exists parse fc what path)"
    by (auto simp: load_config_def intro!: throws_bindE throws_validate_config split: option.split)
  then have err: "load_config files exists parse fc what path = Inl e \<Longrightarrow> \<exists>msg. e = Runtime_error msg" for e
    by (auto simp: throws_def elim: runtime.elims)
  have "load_config files exists parse fc what path = Inr c \<Longrightarrow> config_valid exists c" for c
    by (auto simp: load_config_def exec_simps validate_config_iff split: option.splits)
  with err show ?thesis by (auto split: sum.split)
qed

definition demo_config_json :: json where
  "demo_config_json = JObj [(''device'', JObj [(''host'', JStr ''10.0.0.1''), (''port'', JInt 4444)]),
     (''tls'', JObj [(''use_mtls'', JBool False), (''verify_hostname'', JBool True), (''verify_peer'', JBool False)])]"

theorem load_config_valid_or_error_witness:
  "\<exists>c. load_config (\<lambda>p. Some []) (\<lambda>p. True) (\<lambda>text. Inr demo_config_json) (\<lambda>f. 0) (\<lambda>e. []) ''cfg'' = Inr c \<and>
     dc_port (co_device c) = 4444 \<and> tl_verify_hostname (co_tls c) = ''on'' \<and> config_valid (\<lambda>p. True) c"
proof -
  let ?l = "load_config (\<lambda>p. Some []) (\<lambda>p. True) (\<lambda>text. Inr demo_config_json) (\<lambda>f. 0) (\<lambda>e. []) ''cfg''"
  have "case ?l of Inr c \<Rightarrow> config_valid (\<lambda>p. True) c | Inl e \<Rightarrow> \<exists>msg. e = Runtime_error msg"
    by (rule load_config_valid_or_error) simp
  moreover have "map_sum id (\<lambda>c. (dc_port (co_device c), tl_verify_hostname (co_tls c))) ?l = Inr (4444, ''on'')"
    by code_simp
  ultimately show ?thesis by (cases ?l) auto
qed

end
