(* ===== verification/Numbers.thy ===== *)
theory Numbers
  imports Ieee
begin

text \<open>
  The text conversions of the C++ library that the command-line tool uses: \<open>std::stol\<close> and \<open>std::stod\<close> in
  the C locale. \<open>None\<close> is an exception: no conversion, or a value out of range. Both read a C string, up
  to its first NUL, and ignore what follows the number.
\<close>

section \<open>Digits\<close>

definition digit_val :: "nat \<Rightarrow> char \<Rightarrow> nat option" where
  "digit_val base c =
    (let n = (of_char c :: nat);
         v = (if 48 \<le> n \<and> n \<le> 57 then n - 48 else if 97 \<le> n \<and> n \<le> 122 then n - 87
              else if 65 \<le> n \<and> n \<le> 90 then n - 55 else base)
     in if v < base then Some v else None)"

text \<open>The value read so far and the number of digits, then the rest of the text.\<close>

fun digit_run :: "nat \<Rightarrow> nat \<Rightarrow> nat \<Rightarrow> string \<Rightarrow> nat \<times> nat \<times> string" where
  "digit_run base a k [] = (a, k, [])"
| "digit_run base a k (c # cs) =
    (case digit_val base c of None \<Rightarrow> (a, k, c # cs) | Some d \<Rightarrow> digit_run base (base * a + d) (Suc k) cs)"

definition c_string :: "string \<Rightarrow> string" where
  "c_string s = takeWhile (\<lambda>c. c \<noteq> CHR 0x00) s"

definition sign_of :: "string \<Rightarrow> bool \<times> string" where
  "sign_of s =
    (case s of
       [] \<Rightarrow> (False, [])
     | c # r \<Rightarrow> (if c = CHR ''-'' then (True, r) else if c = CHR ''+'' then (False, r) else (False, s)))"

section \<open>Integers\<close>

definition stol :: "string \<Rightarrow> int option" where
  "stol text =
    (let (neg, s) = sign_of (dropWhile isspace (c_string text)); (n, k, rest) = digit_run 10 0 0 s;
         i = (if neg then - int n else int n)
     in if k = 0 \<or> i < - (2 ^ 63) \<or> 2 ^ 63 \<le> i then None else Some i)"

section \<open>Floating-point numbers\<close>

text \<open>Digits with an optional point: the digits as one number, and how many stand behind the point.\<close>

definition significand :: "nat \<Rightarrow> string \<Rightarrow> (nat \<times> nat \<times> string) option" where
  "significand base s =
    (let (a, k, r) = digit_run base 0 0 s in
     case r of
       c # r' \<Rightarrow>
        (if c = CHR ''.''
         then let (a', k', r'') = digit_run base a 0 r' in if k + k' = 0 then None else Some (a', k', r'')
         else if k = 0 then None else Some (a, 0, r))
     | [] \<Rightarrow> if k = 0 then None else Some (a, 0, []))"

definition exponent :: "char \<Rightarrow> char \<Rightarrow> string \<Rightarrow> int" where
  "exponent lower upper s =
    (case s of
       [] \<Rightarrow> 0
     | c # r \<Rightarrow>
        (if c = lower \<or> c = upper
         then let (neg, r') = sign_of r; (n, k, rest) = digit_run 10 0 0 r' in if neg then - int n else int n
         else 0))"

definition decimal_value :: "string \<Rightarrow> rat option" where
  "decimal_value s =
    (case significand 10 s of
       None \<Rightarrow> None
     | Some (a, k, r) \<Rightarrow> Some (of_nat a * 10 powi (exponent (CHR ''e'') (CHR ''E'') r - int k)))"

text \<open>A hexadecimal number; without digits behind the prefix the text is the number zero.\<close>

definition magnitude :: "string \<Rightarrow> rat option" where
  "magnitude s =
    (case s of
       z # x # r \<Rightarrow>
        (if z = CHR ''0'' \<and> (x = CHR ''x'' \<or> x = CHR ''X'')
         then case significand 16 r of
                None \<Rightarrow> Some 0
              | Some (a, k, r') \<Rightarrow> Some (of_nat a * 2 powi (exponent (CHR ''p'') (CHR ''P'') r' - 4 * int k))
         else decimal_value s)
     | _ \<Rightarrow> decimal_value s)"

definition lower_char :: "char \<Rightarrow> char" where
  "lower_char c = (let n = (of_char c :: nat) in if 65 \<le> n \<and> n \<le> 90 then char_of (n + 32) else c)"

definition starts_with :: "string \<Rightarrow> string \<Rightarrow> bool" where
  "starts_with p s \<longleftrightarrow> map lower_char (take (length p) s) = p"

text \<open>\<open>ERANGE\<close>: the number is too large, or tiny and not exact.\<close>

definition in_range64 :: "rat \<Rightarrow> fp option" where
  "in_range64 x =
    (case fround64 x of
       FFin y \<Rightarrow>
        (if y \<noteq> x \<and> \<bar>frnd 53 (flog2 \<bar>x\<bar> - 52) x\<bar> < 2 powi (- 1022) then None else Some (FFin y))
     | _ \<Rightarrow> None)"

definition stod :: "string \<Rightarrow> fp option" where
  "stod text =
    (let (neg, s) = sign_of (dropWhile isspace (c_string text)) in
     if starts_with ''inf'' s then Some (FInf neg)
     else if starts_with ''nan'' s then Some FNaN
     else case magnitude s of None \<Rightarrow> None | Some x \<Rightarrow> in_range64 (if neg then - x else x))"

section \<open>Laws\<close>

lemma digit_val_digit: "is_digit c \<Longrightarrow> digit_val 10 c = Some (of_char c - 48)"
  by (auto simp: digit_val_def is_digit_def Let_def)

lemma digit_run_digits:
  "\<forall>c \<in> set cs. is_digit c \<Longrightarrow>
    digit_run 10 a k cs = (foldl (\<lambda>a c. 10 * a + (of_char c - 48)) a cs, k + length cs, [])"
  by (induction cs arbitrary: a k) (simp_all add: digit_val_digit)

lemma digit_run_nat_dec: "digit_run 10 0 0 (nat_dec n) = (n, length (nat_dec n), [])"
  using digit_run_digits [of "nat_dec n" 0 0] dec_val_nat_dec [of n]
  by (auto simp: dec_val_def dest: nat_dec_digits)

lemma decimal_value_nat_dec: "decimal_value (nat_dec n) = Some (of_nat n)"
  by (simp add: decimal_value_def significand_def digit_run_nat_dec exponent_def)

lemma is_digit_not: "is_digit c \<Longrightarrow> c \<noteq> CHR ''x'' \<and> c \<noteq> CHR ''X'' \<and> c \<noteq> CHR ''-'' \<and> c \<noteq> CHR ''+'' \<and> c \<noteq> CHR 0x00 \<and> \<not> isspace c"
  by (auto simp: is_digit_def isspace_def)

lemma magnitude_digits:
  assumes "\<forall>c \<in> set s. is_digit c"
  shows "magnitude s = decimal_value s"
  using assms by (auto simp: magnitude_def is_digit_not split: list.split)

lemma lower_char_digit: "is_digit c \<Longrightarrow> lower_char c = c"
  by (auto simp: lower_char_def is_digit_def Let_def)

lemma starts_with_digit: "is_digit c \<Longrightarrow> \<not> starts_with (p # ps) (c # cs)" if "\<not> is_digit p"
  using that by (auto simp: starts_with_def lower_char_digit)

lemma c_string_int_dec [simp]: "c_string (int_dec i) = int_dec i"
proof -
  have "c \<noteq> CHR 0x00" if "c \<in> set (int_dec i)" for c
    using that by (auto simp: int_dec_def is_digit_def dest!: nat_dec_digits split: if_splits)
  then show ?thesis by (auto simp: c_string_def takeWhile_eq_all_conv)
qed

lemma sign_of_int_dec: "sign_of (dropWhile isspace (int_dec i)) = (i < 0, nat_dec (nat \<bar>i\<bar>))"
proof -
  obtain c cs where c: "nat_dec (nat \<bar>i\<bar>) = c # cs" by (cases "nat_dec (nat \<bar>i\<bar>)") auto
  then have "is_digit c" using nat_dec_digits [of c "nat \<bar>i\<bar>"] by simp
  then show ?thesis
    using c is_digit_not [of c] by (cases "i < 0") (simp_all add: int_dec_def sign_of_def isspace_def [of "CHR ''-''"])
qed

text \<open>The decimal text of an integer reads back, as a \<open>long\<close> and, when a double holds it, as a double.\<close>

lemma stol_int_dec: "- (2 ^ 63) \<le> i \<Longrightarrow> i < 2 ^ 63 \<Longrightarrow> stol (int_dec i) = Some i"
  by (auto simp: stol_def sign_of_int_dec digit_run_nat_dec Let_def)

lemma in_range64_int: "\<bar>i\<bar> < 2 ^ 53 \<Longrightarrow> in_range64 (of_int i) = Some (FFin (of_int i))"
  using fp_of_small_int [of i] by (simp add: in_range64_def fp_of_int_def)

lemma stod_int_dec:
  assumes "\<bar>i\<bar> < 2 ^ 53"
  shows "stod (int_dec i) = Some (FFin (of_int i))"
proof -
  let ?s = "nat_dec (nat \<bar>i\<bar>)"
  obtain c cs where c: "?s = c # cs" by (cases ?s) auto
  have "\<forall>c \<in> set ?s. is_digit c" by (auto dest: nat_dec_digits)
  then have "magnitude ?s = Some (of_int \<bar>i\<bar>)"
    by (simp add: magnitude_digits decimal_value_nat_dec)
  moreover have "is_digit c" using c nat_dec_digits [of c "nat \<bar>i\<bar>"] by simp
  ultimately show ?thesis
    using starts_with_digit [of "CHR ''i''" c] starts_with_digit [of "CHR ''n''" c] in_range64_int [OF assms] c
    by (auto simp: stod_def sign_of_int_dec is_digit_def)
qed

end
