(* ===== verification/Logger.thy ===== *)
theory Logger
  imports Prelude
begin

text \<open>
  The category logger (\<open>logging/logger.hpp\<close>, \<open>logging/logger.cpp\<close>): a level filter in front of a sink
  that the application may set, or of the standard error stream. The time of day is an argument.
\<close>

datatype level = Lv_Trace | Lv_Debug | Lv_Info | Lv_Warn | Lv_Error

text \<open>The order of the enumeration.\<close>

fun level_rank :: "level \<Rightarrow> nat" where
  "level_rank Lv_Trace = 0" | "level_rank Lv_Debug = 1" | "level_rank Lv_Info = 2"
| "level_rank Lv_Warn = 3" | "level_rank Lv_Error = 4"

fun level_tag :: "level \<Rightarrow> string" where
  "level_tag Lv_Trace = ''TRACE''" | "level_tag Lv_Debug = ''DEBUG''" | "level_tag Lv_Info = ''INFO ''"
| "level_tag Lv_Warn = ''WARN ''" | "level_tag Lv_Error = ''ERROR''"

record 'k logger =
  lg_level :: level
  lg_sink :: "'k option"

definition initial_logger :: "'k logger" where
  "initial_logger = \<lparr>lg_level = Lv_Info, lg_sink = None\<rparr>"

text \<open>An unknown name leaves the level as it is.\<close>

definition set_level :: "string \<Rightarrow> 'k logger \<Rightarrow> 'k logger" where
  "set_level name l =
    (if name = ''trace'' then l\<lparr>lg_level := Lv_Trace\<rparr> else if name = ''debug'' then l\<lparr>lg_level := Lv_Debug\<rparr>
     else if name = ''info'' then l\<lparr>lg_level := Lv_Info\<rparr> else if name = ''warn'' then l\<lparr>lg_level := Lv_Warn\<rparr>
     else if name = ''error'' then l\<lparr>lg_level := Lv_Error\<rparr> else l)"

definition set_level_to :: "level \<Rightarrow> 'k logger \<Rightarrow> 'k logger" where
  "set_level_to lvl l = l\<lparr>lg_level := lvl\<rparr>"

text \<open>\<open>None\<close>: an empty function, which restores the standard error stream.\<close>

definition set_sink :: "'k option \<Rightarrow> 'k logger \<Rightarrow> 'k logger" where
  "set_sink sink l = l\<lparr>lg_sink := sink\<rparr>"

datatype 'k log_output = To_sink 'k level string string | To_stderr string

definition write_stderr :: "string \<Rightarrow> level \<Rightarrow> string \<Rightarrow> string \<Rightarrow> string" where
  "write_stderr ts lvl category msg =
     ''['' @ ts @ ''] ['' @ level_tag lvl @ ''] '' @ category @ replicate (10 - length category) (CHR '' '') @ '' '' @ msg"

definition log_write :: "string \<Rightarrow> level \<Rightarrow> string \<Rightarrow> string \<Rightarrow> 'k logger \<Rightarrow> 'k log_output list" where
  "log_write ts lvl category msg l =
    (if level_rank lvl < level_rank (lg_level l) then []
     else case lg_sink l of
            None \<Rightarrow> [To_stderr (write_stderr ts lvl category msg)]
          | Some k \<Rightarrow> [To_sink k lvl category msg])"

section \<open>Laws\<close>

instantiation level :: linorder
begin

definition less_eq_level :: "level \<Rightarrow> level \<Rightarrow> bool" where
  "less_eq_level a b \<longleftrightarrow> level_rank a \<le> level_rank b"

definition less_level :: "level \<Rightarrow> level \<Rightarrow> bool" where
  "less_level a b \<longleftrightarrow> level_rank a < level_rank b"

instance
proof
  fix a b :: level
  show "a \<le> b \<Longrightarrow> b \<le> a \<Longrightarrow> a = b"
    by (cases a; cases b) (simp_all add: less_eq_level_def)
qed (auto simp: less_eq_level_def less_level_def)

end

text \<open>A sink gets the entries at or above the level, each once and in order, and nothing else.\<close>

lemma sink_gets_filtered:
  assumes "lg_sink l = Some k"
  shows "concat (map (\<lambda>(lvl, category, msg). log_write ts lvl category msg l) entries) =
    map (\<lambda>(lvl, category, msg). To_sink k lvl category msg) (filter (\<lambda>(lvl, _). lg_level l \<le> lvl) entries)"
  using assms by (induction entries) (auto simp: log_write_def less_eq_level_def)

lemma level_names_known:
  assumes "name \<in> {''trace'', ''debug'', ''info'', ''warn'', ''error''}"
  shows "lg_level (set_level name l) = lg_level (set_level name l')"
  using assms by (auto simp: set_level_def)

end
