(* ===== verification/Cli.thy ===== *)
theory Cli
  imports Client Config Services Numbers Logger
begin

text \<open>
  The command-line tool (\<open>apps/fountainer-cli/main.cpp\<close>). What a run prints is a list of lines of the two
  output streams, among them the messages it sends without waiting for an answer and its call of
  \<open>disconnect\<close>. Blocking calls meet the environment they are given.
\<close>

section \<open>Configuring the client\<close>

definition host_looks_like_ip :: "string \<Rightarrow> bool" where
  "host_looks_like_ip host \<longleftrightarrow> (\<forall>c \<in> set host. c \<in> set ''0123456789.'') \<or> CHR '':'' \<in> set host"

definition cli_policy :: "config \<Rightarrow> identity_policy" where
  "cli_policy cfg =
    (if tl_verify_hostname (co_tls cfg) = ''off'' \<or>
        (tl_verify_hostname (co_tls cfg) = ''auto'' \<and> host_looks_like_ip (dc_host (co_device cfg)))
     then VerifyCertificateChainOnly else VerifyDnsName)"

definition cli_tls :: "config \<Rightarrow> tls_credentials" where
  "cli_tls cfg =
    (let t = co_tls cfg;
         tls = mutual_tls (tl_ca_file t) (tl_client_cert_file t) (tl_client_key_file t) (cli_policy cfg)
     in if tl_verify_peer t then tls else set_unsafe_options True tls)"

definition cli_options :: "config \<Rightarrow> client_options \<Rightarrow> client_options" where
  "cli_options cfg o1 =
    (let cn = co_connection cfg in
     o1\<lparr>op_connect_timeout := cc_connect_timeout cn, op_transport_idle_timeout := cc_idle_timeout cn,
        op_handshake_timeout := fc_handshake_timeout (co_fountain cfg) * 1000,
        op_reconnect := (op_reconnect o1)\<lparr>rp_enabled := cc_auto_reconnect cn, rp_initial_delay := cc_reconnect_initial cn,
                          rp_max_delay := cc_reconnect_max cn\<rparr>\<rparr>)"

text \<open>The security settings are changed in turn, up to the first refusal.\<close>

definition cli_configure :: "filesystem \<Rightarrow> config \<Rightarrow> 'h client \<Rightarrow> unit result \<times> 'h client" where
  "cli_configure fs cfg c =
    (case set_tls fs (cli_tls cfg) (cl_security c) of
       (Inl e, s1) \<Rightarrow> (Inl e, c\<lparr>cl_security := s1\<rparr>)
     | (Inr _, s1) \<Rightarrow>
        (let s2 = set_expected_device_id (fc_device_id (co_fountain cfg)) s1 in
         case hmac_from_file fs (fc_kid (co_fountain cfg)) (fc_hmac_key_file (co_fountain cfg)) of
           Inl e \<Rightarrow> (Inl e, c\<lparr>cl_security := s2\<rparr>)
         | Inr hmac \<Rightarrow>
            (case set_hmac hmac s2 of
               (Inl e, s3) \<Rightarrow> (Inl e, c\<lparr>cl_security := s3\<rparr>)
             | (Inr _, s3) \<Rightarrow> (Inr (), c\<lparr>cl_security := s3, cl_options := cli_options cfg (cl_options c)\<rparr>))))"

section \<open>Assignments\<close>

text \<open>The text before and behind the first occurrence of a character, if there is one.\<close>

fun split_at :: "char \<Rightarrow> string \<Rightarrow> (string \<times> string) option" where
  "split_at x [] = None"
| "split_at x (c # cs) = (if c = x then Some ([], cs) else map_option (\<lambda>(a, b). (c # a, b)) (split_at x cs))"

definition assignment_json :: "datapoint_descriptor \<Rightarrow> string \<Rightarrow> string \<Rightarrow> json result" where
  "assignment_json d name text =
    (case dd_type d of
       T_Bool \<Rightarrow> Inr (JBool (text \<in> {''1'', ''true'', ''on''}))
     | T_Str \<Rightarrow> Inr (JStr text)
     | T_U64 \<Rightarrow> Inr (JStr text)
     | _ \<Rightarrow> (case stod text of
              None \<Rightarrow> Inl (validation_error TypeMismatch (name @ '': '' @ quoted_text text @ '' is not a number'') name)
            | Some f \<Rightarrow> Inr (JFloat f)))"

definition parse_assignment :: "write_set \<Rightarrow> string \<Rightarrow> write_set result" where
  "parse_assignment changes assignment =
    (case split_at (CHR ''='') assignment of
       None \<Rightarrow> Inl (validation_error ConstraintViolation (''expected <name>=<value>: '' @ assignment) [])
     | Some (name, text) \<Rightarrow>
        (case catalog_find name of
           None \<Rightarrow> Inl (validation_error UnknownDatapoint (''unknown datapoint '' @ quoted_text name) name)
         | Some d \<Rightarrow>
            (case assignment_json d name text of
               Inl e \<Rightarrow> Inl e
             | Inr raw \<Rightarrow> (case value_from_json d raw of Inl e \<Rightarrow> Inl e | Inr v \<Rightarrow> ws_set name v changes))))"

fun parse_assignments :: "write_set \<Rightarrow> string list \<Rightarrow> write_set result" where
  "parse_assignments changes [] = Inr changes"
| "parse_assignments changes (a # as) =
    (case parse_assignment changes a of Inl e \<Rightarrow> Inl e | Inr changes' \<Rightarrow> parse_assignments changes' as)"

section \<open>Verbs\<close>

text \<open>Lines of the two output streams, messages sent without waiting for an answer, and the final \<open>disconnect\<close>.\<close>

datatype line = Out string | Err string | Raw_sent string json | Disconnect_call

type_synonym cli_result = "(int \<times> line list) exec"

definition print_error :: "error \<Rightarrow> int \<times> line list" where
  "print_error e = (1, [Err (''error: '' @ error_to_string e)])"

text \<open>The end of \<open>main\<close>, which a verb with an early return does not reach.\<close>

definition with_disconnect :: "cli_result \<Rightarrow> cli_result" where
  "with_disconnect r = bindE r (\<lambda>(code, ls). Inr (code, ls @ [Disconnect_call]))"

definition display_value :: "string \<Rightarrow> datapoint_value \<Rightarrow> line exec" where
  "display_value n v =
    (case catalog_find n of
       None \<Rightarrow> null_pointer
     | Some d \<Rightarrow> Inr (Out (dd_name d @ '' = '' @ to_display_string d v)))"

definition print_snapshot :: "snapshot \<Rightarrow> line list exec" where
  "print_snapshot snap =
     bindE (mapE (\<lambda>(n, v). display_value n v) (sn_values snap)) (\<lambda>ls.
       Inr (ls @ map (\<lambda>n. Out (n @ '' = ? (unknown)'')) (sn_unknown snap)))"

definition verb_read :: "service_env \<Rightarrow> string list \<Rightarrow> 'h manager \<Rightarrow> cli_result" where
  "verb_read sv names m =
     bindE (read_names sv names m) (\<lambda>(r, m', calls).
       case r of Inl e \<Rightarrow> Inr (print_error e) | Inr snap \<Rightarrow> bindE (print_snapshot snap) (\<lambda>ls. Inr (0, ls)))"

definition verb_read_all :: "service_env \<Rightarrow> 'h manager \<Rightarrow> cli_result" where
  "verb_read_all sv m =
     bindE (read_all sv m) (\<lambda>(r, m', calls).
       case r of Inl e \<Rightarrow> Inr (print_error e)
       | Inr snap \<Rightarrow> bindE (print_snapshot snap) (\<lambda>ls.
           Inr (0, ls @ [Err (nat_dec (length (sn_values snap)) @ '' datapoints'')])))"

definition print_write :: "write_result \<Rightarrow> cli_result" where
  "print_write r =
    (if \<not> applied r
     then Inr (3, Err ''rejected:'' # map (\<lambda>e. Err (''  '' @ we_datapoint e @ '': '' @ we_reason e)) (wr_errors r))
     else bindE (print_snapshot (wr_readback r)) (\<lambda>ls.
       Inr (0, Out (''applied'' @ (case wr_warning r of None \<Rightarrow> [] | Some w \<Rightarrow> '' (warning: '' @ w @ '')'')) #
               Out ''readback:'' # ls)))"

definition verb_write :: "service_env \<Rightarrow> string list \<Rightarrow> 'h manager \<Rightarrow> cli_result" where
  "verb_write sv args m =
    (case parse_assignments [] args of
       Inl e \<Rightarrow> Inr (print_error e)
     | Inr changes \<Rightarrow>
        with_disconnect (bindE (write_blocking sv changes m) (\<lambda>(r, m', calls).
          case r of Inl e \<Rightarrow> Inr (print_error e) | Inr w \<Rightarrow> print_write w)))"

definition command_usage :: string where
  "command_usage = ''usage: command <set_state <On|Off|Auto|Manual> | turn_on <seconds> | restart | reboot>''"

definition state_of_name :: "string \<Rightarrow> fountain_state option" where
  "state_of_name n =
    (if n = ''On'' then Some State_On else if n = ''Off'' then Some State_Off
     else if n = ''Auto'' then Some State_Auto else if n = ''Manual'' then Some State_Manual else None)"

definition print_command :: "command_result result \<Rightarrow> int \<times> line list" where
  "print_command r =
    (case r of
       Inl e \<Rightarrow> print_error e
     | Inr c \<Rightarrow>
        (if command_applied c then 0 else 3,
         [Out (cr_command c @ '': '' @ (if command_applied c then ''applied'' else ''rejected'') @
            (case cr_error c of None \<Rightarrow> [] | Some t \<Rightarrow> '' ('' @ t @ '')''))]))"

text \<open>A duration that \<open>stol\<close> cannot read throws out of the tool.\<close>

definition verb_command :: "service_env \<Rightarrow> string list \<Rightarrow> cli_result" where
  "verb_command sv args =
    (case args of
       [] \<Rightarrow> Inr (2, [Err command_usage])
     | v # rest \<Rightarrow>
        (if v = ''set_state'' \<and> length rest = 1
         then case state_of_name (hd rest) of
                None \<Rightarrow> Inr (2, [Err (''unknown state '' @ quoted_text (hd rest))])
              | Some st \<Rightarrow> bindE (set_state sv st) (\<lambda>r. Inr (print_command r))
         else if v = ''turn_on'' \<and> length rest = 1
         then case stol (hd rest) of
                None \<Rightarrow> Inl (Runtime_error ''stol'')
              | Some n \<Rightarrow> bindE (turn_on_for sv n) (\<lambda>r. Inr (print_command r))
         else if v = ''restart'' then bindE (restart_pump sv) (\<lambda>r. Inr (print_command r))
         else if v = ''reboot'' then bindE (reboot sv) (\<lambda>r. Inr (print_command r))
         else Inr (2, [Err (''unknown command '' @ quoted_text v)])))"

definition record_line :: "log_record \<Rightarrow> line" where
  "record_line r = Out (nat_dec (unat (lr_sequence r)) @ '' ['' @ nat_dec (unat (lr_level r)) @ ''] '' @ lr_text r)"

definition default_log_options :: log_read_options where
  "default_log_options = \<lparr>lo_since_sequence = 0, lo_minimum_level = Log_None, lo_max_records = 64\<rparr>"

definition print_records :: "log_record list result \<Rightarrow> int \<times> line list" where
  "print_records r =
    (case r of Inl e \<Rightarrow> print_error e
     | Inr rs \<Rightarrow> (0, map record_line rs @ [Err (nat_dec (length rs) @ '' records'')]))"

text \<open>\<open>None\<close>: the retrieval of all pages is still running after \<open>fuel\<close> pages.\<close>

definition verb_logs :: "nat \<Rightarrow> (nat \<Rightarrow> service_env) \<Rightarrow> string \<Rightarrow> cli_result option" where
  "verb_logs fuel sv mode =
    (if mode = ''prev''
     then Some (bindE (read_previous (sv 0) default_log_options) (\<lambda>r.
       case r of
         Inl e \<Rightarrow> Inr (print_error e)
       | Inr b \<Rightarrow>
          Inr (0, Out (''boot_id='' @ nat_dec (unat (lb_boot_id b)) @ '' available='' @
                    (if lb_previous_boot_available b then ''yes'' else ''no'') @ '' records='' @
                    nat_dec (length (lb_records b))) # map record_line (lb_records b))))
     else if mode = ''all''
     then map_option (\<lambda>x. bindE x (\<lambda>r. Inr (print_records r))) (log_read_all fuel sv default_log_options)
     else Some (bindE (log_read (sv 0) default_log_options) (\<lambda>r.
       Inr (print_records (case r of Inl e \<Rightarrow> Inl e | Inr b \<Rightarrow> Inr (lb_records b))))))"

text \<open>The optional interval in front of the names to watch.\<close>

definition watch_arguments :: "string list \<Rightarrow> (int \<times> string list) exec" where
  "watch_arguments args =
    (case args of
       [] \<Rightarrow> Inr (1000, [])
     | a # names \<Rightarrow>
        (if \<forall>c \<in> set a. c \<in> set ''0123456789''
         then case stol a of None \<Rightarrow> Inl (Runtime_error ''stol'') | Some n \<Rightarrow> Inr (n, names)
         else Inr (1000, args)))"

definition change_line :: "change \<Rightarrow> line" where
  "change_line c = Out (dd_name (ch_descriptor c) @ '' = '' @ to_display_string (ch_descriptor c) (ch_value c) @
     ''   ['' @ source_to_string (ch_source c) @ '']'')"

definition stats_line :: "poll_stats \<Rightarrow> line" where
  "stats_line s = Err (CHR 0x0A # ''poll stats: requests='' @ nat_dec (unat (ps_requests s)) @
     '' coalesced='' @ nat_dec (unat (ps_coalesced_points s)) @ '' skipped='' @ nat_dec (unat (ps_skipped_inflight s)) @
     '' missed='' @ nat_dec (unat (ps_missed_deadlines s)) @ '' keepalives='' @ nat_dec (unat (ps_keepalives s)) @
     '' failures='' @ nat_dec (unat (ps_failures s)))"

definition start_watch :: "int \<Rightarrow> string list \<Rightarrow> poller \<Rightarrow> unit result \<times> poller" where
  "start_watch interval names p =
    (if names = [] then (Inr (), start_defaults p)
     else case every interval names p of (Inl e, p') \<Rightarrow> (Inl e, p') | (Inr _, p') \<Rightarrow> (Inr (), poll_start p'))"

text \<open>The changes that arrive until the stop flag is set, and the statistics read then, are arguments.\<close>

definition run_watch :: "change list \<Rightarrow> poll_stats \<Rightarrow> int \<Rightarrow> string list \<Rightarrow> poller \<Rightarrow> (int \<times> line list) \<times> poller" where
  "run_watch changes stats interval names p =
    (case start_watch interval names p of
       (Inl e, p') \<Rightarrow> (print_error e, p')
     | (Inr _, p') \<Rightarrow> ((0, map change_line changes @ [stats_line stats]), p'))"

definition raw_spec :: "string \<Rightarrow> json \<Rightarrow> int option \<Rightarrow> request_spec" where
  "raw_spec ty body timeout =
     \<lparr>rs_type = ty, rs_body = body, rs_timeout = timeout, rs_priority = InteractiveRead, rs_coalesce_key = []\<rparr>"

text \<open>\<open>dump2\<close> prints with an indentation of two.\<close>

definition verb_raw :: "(string \<Rightarrow> json) \<Rightarrow> (json \<Rightarrow> string exec) \<Rightarrow> service_env \<Rightarrow> string list \<Rightarrow> cli_result" where
  "verb_raw parse dump2 sv args =
    (let ty = hd args; body = (if 1 < length args then parse (args ! 1) else JObj []) in
     if body = JDiscarded then Inr (2, [Err ''invalid JSON body''])
     else case find_meta ty of
       None \<Rightarrow> Inr (2, [Err (''unknown message type '' @ quoted_text ty)])
     | Some mm \<Rightarrow>
        with_disconnect
        (if \<not> mm_request mm then Inr (0, [Raw_sent ty body, Out ''sent (fire-and-forget)''])
         else bindE (raw_request sv (raw_spec ty body None) ()) (\<lambda>(r, u, n :: unit list).
           case r of Inl e \<Rightarrow> Inr (print_error e) | Inr msg \<Rightarrow> bindE (dump2 (JObj msg)) (\<lambda>t. Inr (0, [Out t])))))"

definition script_step :: "service_env \<Rightarrow> message_meta \<Rightarrow> fountain_step \<Rightarrow> line list exec" where
  "script_step sv mm st =
    (if \<not> mm_request mm then Inr [Raw_sent (fs_type st) (fs_body st)]
     else bindE (raw_request sv (raw_spec (fs_type st) (fs_body st) (Some (fs_timeout st * 1000))) ())
       (\<lambda>(r, u, n :: unit list). case r of
          Inl e \<Rightarrow> Inr [Err (fs_type st @ '' -> '' @ error_to_string e)]
        | Inr msg \<Rightarrow> bindE (sv_dump sv (JObj msg)) (\<lambda>t. Inr [Out (fs_type st @ '' -> '' @ t)])))"

text \<open>
  One pass of the script: \<open>stop k\<close> is the stop flag before the \<open>k\<close>-th step of the run and \<open>sv k\<close> what that
  step meets. \<open>Inl\<close> ends the tool with an exit code, \<open>Inr\<close> is the number of steps so far.
\<close>

fun script_pass ::
  "(nat \<Rightarrow> bool) \<Rightarrow> (nat \<Rightarrow> service_env) \<Rightarrow> nat \<Rightarrow> fountain_step list \<Rightarrow> ((int + nat) \<times> line list) exec" where
  "script_pass stop sv k [] = Inr (Inr k, [])"
| "script_pass stop sv k (st # steps) =
    (if stop k then Inr (Inl 0, [])
     else case find_meta (fs_type st) of
       None \<Rightarrow> Inr (Inl 2, [Err (''unknown type '' @ quoted_text (fs_type st))])
     | Some mm \<Rightarrow>
        bindE (script_step (sv k) mm st) (\<lambda>ls.
        bindE (script_pass stop sv (Suc k) steps) (\<lambda>(r, rest). Inr (r, ls @ rest))))"

fun run_script :: "nat \<Rightarrow> (nat \<Rightarrow> bool) \<Rightarrow> (nat \<Rightarrow> service_env) \<Rightarrow> nat \<Rightarrow> fountain_config \<Rightarrow> cli_result option" where
  "run_script 0 stop sv k f = None"
| "run_script (Suc fuel) stop sv k f =
    (case script_pass stop sv k (fc_sequence f) of
       Inl e \<Rightarrow> Some (Inl e)
     | Inr (Inl code, ls) \<Rightarrow> Some (Inr (code, ls))
     | Inr (Inr k', ls) \<Rightarrow>
        (if fc_loop f \<and> \<not> stop k'
         then map_option (\<lambda>x. bindE x (\<lambda>(code, rest). Inr (code, ls @ rest))) (run_script fuel stop sv k' f)
         else Some (Inr (0, ls))))"

section \<open>Main\<close>

definition info_lines :: "connection_info \<Rightarrow> line list" where
  "info_lines i =
     [Out (''device_id: '' @ ci_device_id i), Out (''serial:    '' @ ci_serial i),
      Out (''firmware:  '' @ ci_firmware_version i), Out (''hw_rev:    '' @ ci_hardware_revision i),
      Out (''protocol:  v'' @ nat_dec (unat (ci_protocol_version i))),
      Out (''auth:      '' @ ci_auth_scheme i @ '' kid='' @ ci_auth_kid i)]"

text \<open>
  What a run meets: the files, the JSON library, the answer to \<open>connect\<close>, what the blocking calls and
  the stop flag give in each step, and what a watch observes.
\<close>

record 'h cli_env =
  cx_files :: filesystem
  cx_exists :: "string \<Rightarrow> bool"
  cx_parse :: "string \<Rightarrow> json exec"
  cx_parse_lenient :: "string \<Rightarrow> json"
  cx_dump2 :: "json \<Rightarrow> string exec"
  cx_fcast :: "fp \<Rightarrow> int"
  cx_what :: "exn \<Rightarrow> string"
  cx_connect :: "'h client \<Rightarrow> connection_info result"
  cx_services :: "nat \<Rightarrow> service_env"
  cx_stop :: "nat \<Rightarrow> bool"
  cx_changes :: "change list"
  cx_stats :: poll_stats

definition run_verb ::
  "nat \<Rightarrow> 'h cli_env \<Rightarrow> config \<Rightarrow> connection_info \<Rightarrow> string \<Rightarrow> string list \<Rightarrow> 'h client \<Rightarrow> cli_result option" where
  "run_verb fuel ce cfg i v args c =
    (let sv = cx_services ce 0; m = cl_datapoints c in
     if v = ''info'' then Some (with_disconnect (Inr (0, info_lines i)))
     else if v = ''read'' \<and> args \<noteq> [] then Some (with_disconnect (verb_read sv args m))
     else if v = ''read-all'' then Some (with_disconnect (verb_read_all sv m))
     else if v = ''write'' \<and> args \<noteq> [] then Some (verb_write sv args m)
     else if v = ''watch''
     then Some (with_disconnect (bindE (watch_arguments args) (\<lambda>(interval, names).
            Inr (fst (run_watch (cx_changes ce) (cx_stats ce) interval names (cl_poller c))))))
     else if v = ''logs''
     then map_option with_disconnect (verb_logs fuel (cx_services ce) (case args of [] \<Rightarrow> [] | a # _ \<Rightarrow> a))
     else if v = ''command'' then Some (with_disconnect (verb_command sv args))
     else if v = ''raw'' \<and> args \<noteq> [] then Some (verb_raw (cx_parse_lenient ce) (cx_dump2 ce) sv args)
     else if v = ''script''
     then map_option with_disconnect (run_script fuel (cx_stop ce) (cx_services ce) 0 (co_fountain cfg))
     else Some (with_disconnect (Inr (2, [Err (''unknown or incomplete command '' @ quoted_text v)]))))"

definition cli_usage :: "string \<Rightarrow> string" where
  "cli_usage program = ''usage: '' @ program @
     '' <config.json> <info|read|read-all|write|watch|logs|command|script> [args...]''"

definition connected_line :: "connection_info \<Rightarrow> line" where
  "connected_line i = Err (''connected: device='' @ ci_device_id i @ '' serial='' @ ci_serial i @
     '' fw='' @ ci_firmware_version i)"

text \<open>The handler of \<open>main\<close> catches the exceptions of \<open>load_config\<close>; undefined behaviour is none.\<close>

fun config_failure :: "(exn \<Rightarrow> string) \<Rightarrow> exn \<Rightarrow> cli_result" where
  "config_failure what (Runtime_error m) = Inr (1, [Err (''config: '' @ m)])"
| "config_failure what (Json_error n) = Inr (1, [Err (''config: '' @ what (Json_error n))])"
| "config_failure what (Undefined_behaviour m) = Inl (Undefined_behaviour m)"

definition cli_client :: "config \<Rightarrow> 'h client" where
  "cli_client cfg =
     make_client \<lparr>ep_host = dc_host (co_device cfg), ep_port = dc_port (co_device cfg), ep_path = dc_path (co_device cfg),
                  ep_subprotocol = dc_subprotocol (co_device cfg)\<rparr>"

text \<open>The exit code and the lines, and the logger; \<open>None\<close>: the run is still going on.\<close>

definition cli_main :: "nat \<Rightarrow> 'h cli_env \<Rightarrow> string list \<Rightarrow> 'k logger \<Rightarrow> cli_result option \<times> 'k logger" where
  "cli_main fuel ce argv l =
    (if length argv < 3 then (Some (Inr (2, [Err (cli_usage (case argv of [] \<Rightarrow> [] | a # _ \<Rightarrow> a))])), l)
     else case load_config (cx_files ce) (cx_exists ce) (cx_parse ce) (cx_fcast ce) (cx_what ce) (argv ! 1) of
       Inl e \<Rightarrow> (Some (config_failure (cx_what ce) e), l)
     | Inr cfg \<Rightarrow>
        (let l1 = set_level (co_logging_level cfg) l in
         case cli_configure (cx_files ce) cfg (cli_client cfg) of
           (Inl e, c) \<Rightarrow> (Some (Inr (print_error e)), l1)
         | (Inr _, c) \<Rightarrow>
            (case cx_connect ce c of
               Inl e \<Rightarrow> (Some (Inr (print_error e)), l1)
             | Inr i \<Rightarrow>
                (map_option (\<lambda>r. bindE r (\<lambda>(code, ls). Inr (code, connected_line i # ls)))
                   (run_verb fuel ce cfg i (argv ! 2) (drop 3 argv) c), l1))))"

end
