(* ===== verification/Manager_Safety.thy ===== *)
theory Manager_Safety
  imports Manager
begin

text \<open>
  Laws of the datapoint manager: its type invariant over every sequence of operations, the cache
  update against a point-wise specification, the round trip of a write set through the wire object,
  staging and commit, and the restore guard.
\<close>

section \<open>Types of cached and staged values\<close>

definition well_typed :: "string \<Rightarrow> datapoint_value \<Rightarrow> bool" where
  "well_typed n v \<longleftrightarrow> (\<exists>d. catalog_find n = Some d \<and> value_index v = value_index_for (dd_type d))"

definition sub_entries :: "'h manager \<Rightarrow> (nat \<times> string \<times> 'h) list" where
  "sub_entries m = map (\<lambda>s. (sb_token s, sb_name s, sb_callback s)) (mg_subs m)"

definition subs_ok :: "'h manager \<Rightarrow> bool" where
  "subs_ok m \<longleftrightarrow> distinct (map fst (sub_entries m)) \<and> (\<forall>t \<in> fst ` set (sub_entries m). t \<le> mg_next_token m)"

definition cache_ok :: "(string, cached_value) omap \<Rightarrow> bool" where
  "cache_ok c \<longleftrightarrow> omap_ok c \<and> (\<forall>n e. map_of c n = Some e \<longrightarrow> well_typed n (cv_value e) \<and> cv_quality e \<in> {Good, Stale})"

definition staged_ok :: "write_set \<Rightarrow> bool" where
  "staged_ok ws \<longleftrightarrow> omap_ok ws \<and> (\<forall>n v. map_of ws n = Some v \<longrightarrow> check_write n v = Inr ())"

definition manager_ok :: "'h manager \<Rightarrow> bool" where
  "manager_ok m \<longleftrightarrow> cache_ok (mg_cache m) \<and> staged_ok (mg_staged m) \<and> subs_ok m"

definition snapshot_ok :: "snapshot \<Rightarrow> bool" where
  "snapshot_ok s \<longleftrightarrow> omap_ok (sn_values s) \<and> (\<forall>n v. map_of (sn_values s) n = Some v \<longrightarrow> well_typed n v)"

lemma value_from_json_typed:
  "value_from_json d j = Inr v \<Longrightarrow> value_index v = value_index_for (dd_type d)"
  by (cases "dd_type d")
    (auto simp: value_from_json_def narrow_Inr split: json.splits sum.splits)

lemma check_write_typed: "check_write n v = Inr u \<Longrightarrow> well_typed n v"
  by (auto simp: check_write_Inr well_typed_def)

lemma snapshot_ok_decode_items: "snapshot_ok s \<Longrightarrow> snapshot_ok (decode_items items s)"
proof (induction items s rule: decode_items.induct)
  case (2 n raw items s)
  have "snapshot_ok (add_unknown n s)" using 2 by (simp add: snapshot_ok_def add_unknown_def)
  moreover have "snapshot_ok (snapshot_set n v s)" if "well_typed n v" for v
    using 2 that by (simp add: snapshot_ok_def snapshot_set_def omap_simps)
  ultimately show ?case
    using 2 value_from_json_typed by (fastforce simp: well_typed_def split: option.split sum.split)
qed simp

lemma snapshot_ok_decode [simp]: "snapshot_ok (decode_dp_object j)"
  by (auto simp: decode_dp_object_def intro!: snapshot_ok_decode_items split: json.splits)
    (simp_all add: snapshot_ok_def empty_snapshot_def)

lemma add_unknowns_values [simp]: "sn_values (add_unknowns js s) = sn_values s"
  by (induction js s rule: add_unknowns.induct) (simp_all add: add_unknown_def)

lemma snapshot_ok_add_unknowns [simp]: "snapshot_ok (add_unknowns js s) = snapshot_ok s"
  by (simp add: snapshot_ok_def)

section \<open>Cache update against its specification\<close>

text \<open>
  The specification looks at the cache before the update only: what each name holds afterwards, and
  the calls that are due, in the order of the names.
\<close>

definition fresh :: "(string, cached_value) omap \<Rightarrow> string \<Rightarrow> datapoint_value \<Rightarrow> bool" where
  "fresh c n v = (case map_of c n of None \<Rightarrow> True | Some e \<Rightarrow> cv_quality e = Unknown \<or> \<not> value_eq (cv_value e) v)"

definition old_value :: "(string, cached_value) omap \<Rightarrow> string \<Rightarrow> datapoint_value option" where
  "old_value c n = (case map_of c n of None \<Rightarrow> None
     | Some e \<Rightarrow> if cv_quality e = Unknown then None else Some (cv_value e))"

definition spec_calls ::
  "int \<Rightarrow> datapoint_source \<Rightarrow> 'h sub_slot list \<Rightarrow> (string, cached_value) omap \<Rightarrow> string \<times> datapoint_value \<Rightarrow>
    ('h \<times> change) list" where
  "spec_calls now src subs c = (\<lambda>(n, v). case catalog_find n of None \<Rightarrow> []
     | Some d \<Rightarrow> if fresh c n v
         then map (\<lambda>s. (sb_callback s, \<lparr>ch_descriptor = d, ch_value = v, ch_old_value = old_value c n,
                                       ch_source = src, ch_received_at = now\<rparr>))
                (filter (\<lambda>s. sb_name s \<in> {[], n}) subs)
         else [])"

definition spec_entry ::
  "int \<Rightarrow> datapoint_source \<Rightarrow> 32 word option \<Rightarrow> (string, datapoint_value) omap \<Rightarrow> (string, cached_value) omap \<Rightarrow>
    string \<Rightarrow> cached_value option" where
  "spec_entry now src sq vs c n = (case map_of vs n of
       Some v \<Rightarrow> if catalog_find n = None then map_of c n
         else Some \<lparr>cv_value = v, cv_received_at = now, cv_source = src, cv_quality = Good, cv_report_sequence = sq\<rparr>
     | None \<Rightarrow> map_of c n)"

lemma spec_calls_other:
  "n \<notin> fst ` set vs \<Longrightarrow> map (spec_calls now src subs (omap_put n e c)) vs = map (spec_calls now src subs c) vs"
  by (rule map_cong [OF refl])
    (force simp: spec_calls_def fresh_def old_value_def omap_simps split: option.split)

lemma update_entries_Cons:
  assumes "catalog_find n = Some d"
  shows "update_entries now src sq ((n, v) # vs) subs c =
    (let (c', rest) = update_entries now src sq vs subs (omap_put n \<lparr>cv_value = v, cv_received_at = now,
            cv_source = src, cv_quality = Good, cv_report_sequence = sq\<rparr> c)
     in (c', spec_calls now src subs c (n, v) @ rest))"
  using assms
  by (simp add: spec_calls_def fresh_def old_value_def default_cached_def Let_def case_prod_beta
      disj_commute split: option.split)

lemma update_entries_spec:
  assumes "distinct (map fst vs)"
  shows "map_of (fst (update_entries now src sq vs subs c)) n = spec_entry now src sq vs c n \<and>
    snd (update_entries now src sq vs subs c) = concat (map (spec_calls now src subs c) vs)"
  using assms
proof (induction vs arbitrary: c)
  case Nil
  then show ?case by (simp add: spec_entry_def)
next
  case (Cons nv vs)
  obtain k v where nv: "nv = (k, v)" by (cases nv)
  have k: "k \<notin> fst ` set vs" using Cons.prems by (simp add: nv)
  then have none: "map_of vs k = None" by (simp add: map_of_eq_None_iff)
  show ?case
  proof (cases "catalog_find k")
    case None
    then show ?thesis
      using Cons none by (auto simp: nv spec_entry_def spec_calls_def split: option.splits)
  next
    case (Some d)
    show ?thesis
      using Cons none
      by (auto simp: nv update_entries_Cons [OF Some] Let_def case_prod_beta spec_calls_other [OF k] Some
          spec_entry_def omap_simps simp del: update_entries.simps split: option.splits)
  qed
qed

lemma update_entries_ok:
  assumes "cache_ok c" "\<And>n v. (n, v) \<in> set vs \<Longrightarrow> well_typed n v"
  shows "cache_ok (fst (update_entries now src sq vs subs c))"
  using assms
proof (induction vs arbitrary: c)
  case (Cons nv vs)
  obtain k v where nv: "nv = (k, v)" by (cases nv)
  have ty: "well_typed k v" using Cons.prems(2) [of k v] by (simp add: nv)
  then obtain d where d: "catalog_find k = Some d" by (auto simp: well_typed_def)
  have "cache_ok (omap_put k \<lparr>cv_value = v, cv_received_at = now, cv_source = src, cv_quality = Good,
          cv_report_sequence = sq\<rparr> c)"
    using Cons.prems(1) ty by (auto simp: cache_ok_def omap_simps)
  with Cons show ?case 
    by (simp add: nv update_entries_Cons [OF d] Let_def case_prod_beta del: update_entries.simps)
qed simp

lemma update_cache_eq:
  "update_cache now snap src sq m =
    (m\<lparr>mg_cache := fst (update_entries now src sq (sn_values snap) (mg_subs m) (mg_cache m))\<rparr>,
     snd (update_entries now src sq (sn_values snap) (mg_subs m) (mg_cache m)))"
  by (simp add: update_cache_def case_prod_beta)

lemma update_cache_ok: "manager_ok m \<Longrightarrow> snapshot_ok snap \<Longrightarrow> manager_ok (fst (update_cache now snap src sq m))"
  by (auto simp: manager_ok_def update_cache_eq snapshot_ok_def subs_ok_def sub_entries_def omap_ok_distinct
      intro!: update_entries_ok)

text \<open>
  C19: Whatever a device reports, the cache afterwards holds exactly the reported value, marked good,
  for every known name of the report and what it held before for every other name; and every
  subscriber of a name whose value is new or differs is called exactly once for it, with the value
  the cache held before, in the order of the names and then of the subscriptions.
\<close>

theorem update_cache_refines:
  assumes "snapshot_ok snap"
  shows "map_of (mg_cache (fst (update_cache now snap src sq m))) n =
      spec_entry now src sq (sn_values snap) (mg_cache m) n \<and>
    snd (update_cache now snap src sq m) =
      concat (map (spec_calls now src (mg_subs m) (mg_cache m)) (sn_values snap)) \<and>
    mg_staged (fst (update_cache now snap src sq m)) = mg_staged m"
proof -
  have "distinct (map fst (sn_values snap))" using assms by (simp add: snapshot_ok_def omap_ok_distinct)
  from update_entries_spec [OF this] show ?thesis by (simp add: update_cache_eq)
qed

section \<open>Subscriptions\<close>

interpretation subscriptions: slot_registry subscribe_raw unsubscribe sub_entries subs_ok
proof unfold_locales
  fix m :: "'a manager" and nh t
  assume ok: "subs_ok m"
  show "fst (subscribe_raw nh m) \<notin> fst ` set (sub_entries m)"
    using ok by (fastforce simp: subs_ok_def subscribe_raw_def Let_def)
  show "sub_entries (snd (subscribe_raw nh m)) = sub_entries m @ [(fst (subscribe_raw nh m), nh)]"
    by (simp add: subscribe_raw_def Let_def sub_entries_def)
  show "subs_ok (snd (subscribe_raw nh m))"
    using ok by (fastforce simp: subs_ok_def subscribe_raw_def Let_def sub_entries_def)
  show "sub_entries (unsubscribe t m) = filter (\<lambda>s. fst s \<noteq> t) (sub_entries m)"
    by (simp add: unsubscribe_def sub_entries_def filter_map o_def)
  show "subs_ok (unsubscribe t m)"
    using ok by (auto simp: subs_ok_def unsubscribe_def sub_entries_def distinct_map_filter o_def)
  show "distinct (map fst (sub_entries m))" using ok by (simp add: subs_ok_def)
qed

section \<open>Write sets on the wire\<close>

lemma collect_changes_put:
  assumes "\<forall>(n, v) \<in> set es. check_write n v = Inr ()"
  shows "collect_changes es ws = Inr (fold (\<lambda>(n, v). omap_put n v) es ws)"
  using assms by (induction es ws rule: collect_changes.induct) (auto simp: ws_set_def)

lemma fold_omap_put:
  fixes es :: "('k::linorder, 'v) omap"
  assumes "omap_ok es"
  shows "fold (\<lambda>(n, v). omap_put n v) es [] = es"
proof -
  have "fold (\<lambda>(n, v). omap_put n v) es ws = ws @ es" if "omap_ok (ws @ es)" for ws :: "('k, 'v) omap"
    using that
  proof (induction es arbitrary: ws)
    case (Cons e es)
    obtain n v where e: "e = (n, v)" by (cases e)
    have "\<forall>k \<in> fst ` set ws. k < n" using Cons.prems by (auto simp: e omap_ok_def sorted_wrt_append)
    then have "omap_put n v ws = ws @ [(n, v)]" by (rule omap_put_last)
    then show ?case using Cons.IH [of "ws @ [(n, v)]"] Cons.prems by (simp add: e)
  qed simp
  from this [of "[]"] assms show ?thesis by simp
qed

lemma staged_entries: "staged_ok ws \<Longrightarrow> \<forall>(n, v) \<in> set ws. check_write n v = Inr ()"
  by (auto simp: staged_ok_def omap.mitems_mfind)

lemma collect_staged: "staged_ok ws \<Longrightarrow> collect_changes ws [] = Inr ws"
  using collect_changes_put [OF staged_entries, of ws "[]"]
  by (simp add: fold_omap_put staged_ok_def)

definition entry_fits :: "string \<times> datapoint_value \<Rightarrow> bool" where
  "entry_fits = (\<lambda>(n, v). \<exists>d. catalog_find n = Some d \<and> value_fits d v)"

lemma decode_items_Cons:
  assumes "catalog_find n = Some d" "value_from_json d j = Inr v" "\<forall>k \<in> fst ` set (sn_values s). k < n"
  shows "decode_items ((n, j) # js) s = decode_items js (s\<lparr>sn_values := sn_values s @ [(n, v)]\<rparr>)"
  using assms by (simp add: snapshot_set_def omap_put_last)

lemma encode_decode_entries:
  assumes "\<forall>e \<in> set es. entry_fits e" and "sorted_wrt (<) (map fst o1 @ map fst es)"
  shows "\<exists>js. encode_entries es o1 = Inr (o1 @ js) \<and> map fst js = map fst es \<and>
    (\<forall>s. map fst (sn_values s) = map fst o1 \<longrightarrow> decode_items js s = s\<lparr>sn_values := sn_values s @ es\<rparr>)"
  using assms
proof (induction es arbitrary: o1)
  case (Cons e es)
  obtain n v where e: "e = (n, v)" by (cases e)
  from Cons.prems(1) obtain d where d: "catalog_find n = Some d" and fits: "value_fits d v"
    by (auto simp: e entry_fits_def)
  from wire.enc_total [OF fits] obtain j where j: "value_to_json d v = Inr j" by blast
  have dec: "value_from_json d j = Inr v" by (rule wire.dec_enc [OF fits j])
  have below: "\<forall>k \<in> fst ` set o1. k < n" using Cons.prems(2) by (auto simp: e sorted_wrt_append)
  have "sorted_wrt (<) (map fst (o1 @ [(n, j)]) @ map fst es)" using Cons.prems(2) by (simp add: e)
  from Cons.IH [OF _ this] Cons.prems(1) obtain js where js:
    "encode_entries es (o1 @ [(n, j)]) = Inr ((o1 @ [(n, j)]) @ js)" "map fst js = map fst es"
    "\<And>s. map fst (sn_values s) = map fst (o1 @ [(n, j)]) \<Longrightarrow> decode_items js s = s\<lparr>sn_values := sn_values s @ es\<rparr>"
    by auto
  have "decode_items ((n, j) # js) s = s\<lparr>sn_values := sn_values s @ e # es\<rparr>"
    if "map fst (sn_values s) = map fst o1" for s
  proof -
    have "\<forall>k \<in> fst ` set (sn_values s). k < n" using below that by (metis list.set_map)
    from decode_items_Cons [OF d dec this, of js] show ?thesis
      using js(3) [of "s\<lparr>sn_values := sn_values s @ [(n, v)]\<rparr>"] that by (simp add: e)
  qed
  with js show ?case
    by (intro exI [of _ "(n, j) # js"]) (simp add: e d j omap_put_last [OF below] del: decode_items.simps)
qed simp

lemma encode_decode:
  assumes "omap_ok ws" and "\<forall>e \<in> set ws. entry_fits e"
  shows "\<exists>obj. encode_entries ws [] = Inr obj \<and> map fst obj = map fst ws \<and>
    decode_dp_object (JObj obj) = \<lparr>sn_values = ws, sn_unknown = []\<rparr>"
  using encode_decode_entries [OF assms(2), of "[]"] assms(1)
  by (fastforce simp: omap_ok_def decode_dp_object_def empty_snapshot_def)

definition floats_exact :: "write_set \<Rightarrow> bool" where
  "floats_exact ws \<longleftrightarrow> (\<forall>n f. (n, VF32 f) \<in> set ws \<longrightarrow> to_float f = f)"

lemma validated_fits:
  assumes "validate_entries ws = Inr ()" and "floats_exact ws"
  shows "\<forall>e \<in> set ws. entry_fits e"
  using assms unfolding validate_entries_Inr floats_exact_def entry_fits_def value_fits_def
  by (fastforce simp: validate_iff)

lemma async_write_sends:
  assumes "omap_ok ws" "ws_validate ws = Inr ()" "floats_exact ws"
  shows "\<exists>obj. async_write ws = Inr (Inr (write_request obj InteractiveControl)) \<and> map fst obj = map fst ws \<and>
    decode_dp_object (JObj obj) = \<lparr>sn_values = ws, sn_unknown = []\<rparr>"
proof -
  have "validate_entries ws = Inr ()" using assms(2) by (simp add: ws_validate_def split: if_splits)
  from encode_decode [OF assms(1) validated_fits [OF this assms(3)]] assms(2) show ?thesis
    by (auto simp: async_write_def)
qed

text \<open>
  A write set that passes validation is sent as one \<open>dp_write\<close> request with one member per
  datapoint, and a peer that reads the members with the decoder of this library recovers exactly the
  values of the set, none of them unknown.
\<close>

theorem write_set_roundtrip:
  assumes "omap_ok ws" "ws_validate ws = Inr ()" "floats_exact ws"
  shows "\<exists>obj spec. async_write ws = Inr (Inr spec) \<and> rs_type spec = ''dp_write'' \<and>
    rs_body spec = JObj [(''dp'', JObj obj)] \<and> map fst obj = map fst ws \<and>
    decode_dp_object (JObj obj) = \<lparr>sn_values = ws, sn_unknown = []\<rparr>"
  using async_write_sends [OF assms] by (auto simp: write_request_def)

section \<open>Reachable managers\<close>

inductive manager_step :: "'h manager \<Rightarrow> 'h manager \<Rightarrow> bool" where
  read_resp: "read_response now src response m = Inr (r, m', notes) \<Longrightarrow> manager_step m m'"
| write_resp: "write_response dump fc now response m = Inr (r, m', notes) \<Longrightarrow> manager_step m m'"
| report: "ingest_report now obj src sq m = (snap, m', notes) \<Longrightarrow> manager_step m m'"
| stale: "manager_step m (mark_all_stale m)"
| stage: "stage n v m = (status, m') \<Longrightarrow> manager_step m m'"
| discard: "manager_step m (discard_staged m)"
| commit: "commit sv m = Inr (r, m', notes) \<Longrightarrow> manager_step m m'"
| subscribe: "manager_step m (snd (subscribe_raw nh m))"
| unsubscribe: "manager_step m (unsubscribe t m)"

inductive manager_reach :: "'h manager \<Rightarrow> bool" where
  start: "manager_reach make_manager"
| step: "manager_reach m \<Longrightarrow> manager_step m m' \<Longrightarrow> manager_reach m'"

lemma read_response_ok:
  assumes "manager_ok m" "read_response now src response m = Inr (r, m', notes)"
  shows "manager_ok m'"
proof (cases response)
  case (Inr msg)
  with assms(2) obtain obj unknown where
    "m' = fst (update_cache now (add_unknowns (json_elements unknown) (decode_dp_object obj)) src None m)"
    by (auto simp: read_response_def exec_simps Let_def case_prod_beta) (metis fst_conv)
  then show ?thesis using update_cache_ok [OF assms(1)] by simp
qed (use assms in \<open>simp add: read_response_def\<close>)

lemma readback_ok: "readback_of msg = Some r \<Longrightarrow> snapshot_ok r"
  by (auto simp: readback_of_def split: option.splits json.splits)

lemma parse_write_result_state:
  assumes "parse_write_result dump fc now msg m = Inr (r, m', notes)"
  shows "(m', notes) = (case readback_of msg of None \<Rightarrow> (m, []) | Some s \<Rightarrow> update_cache now s WriteReadback None m)"
  using assms by (auto simp only: parse_write_result_def exec_simps Let_def case_prod_beta) simp

lemma parse_write_result_ok:
  assumes "manager_ok m" "parse_write_result dump fc now msg m = Inr (r, m', notes)"
  shows "manager_ok m' \<and> mg_staged m' = mg_staged m"
  using parse_write_result_state [OF assms(2)] assms(1) update_cache_ok [OF assms(1) readback_ok, of msg]
  by (auto simp: prod_eq_iff update_cache_eq split: option.splits)

lemma write_response_ok:
  assumes "manager_ok m" "write_response dump fc now response m = Inr (r, m', notes)"
  shows "manager_ok m' \<and> mg_staged m' = mg_staged m"
proof (cases response)
  case (Inr msg)
  with assms(2) obtain wr where "parse_write_result dump fc now msg m = Inr (wr, m', notes)"
    by (auto simp: write_response_def exec_simps)
  from parse_write_result_ok [OF assms(1) this] show ?thesis .
qed (use assms in \<open>simp add: write_response_def\<close>)

lemma write_blocking_ok:
  assumes "manager_ok m" "write_blocking sv ws m = Inr (r, m', notes)"
  shows "manager_ok m' \<and> mg_staged m' = mg_staged m"
proof (cases "\<exists>u. sv_runner sv = Some (Inr u)")
  case True
  with assms(2) obtain x where "async_write ws = Inr x"
    "(case x of Inl e \<Rightarrow> Inr (Inl e, m, [])
      | Inr spec \<Rightarrow> write_response (sv_dump sv) (sv_fcast sv) (sv_now sv) (sv_device sv spec) m) = Inr (r, m', notes)"
    by (auto simp: write_blocking_def exec_simps)
  then show ?thesis using write_response_ok [OF assms(1)] assms(1) by (cases x) auto
qed (use assms in \<open>auto simp: write_blocking_def sync_wait_def split: option.splits sum.splits\<close>)

lemma manager_ok_discard: "manager_ok m \<Longrightarrow> manager_ok (discard_staged m)"
  by (simp add: manager_ok_def discard_staged_def staged_ok_def subs_ok_def sub_entries_def)

lemma commit_cases:
  assumes "manager_ok m" "commit sv m = Inr (r, m', notes)"
  obtains (nothing) e where "commit_begin m = Inl e" "r = Inl e" "m' = m" "notes = []"
  | (written) ws m'' where "commit_begin m = Inr ws" "write_blocking sv ws m = Inr (r, m'', notes)"
      "m' = commit_end r m''" "manager_ok m''" "mg_staged m'' = mg_staged m"
proof (cases "commit_begin m")
  case (Inr ws)
  with assms(2) obtain m'' where w: "write_blocking sv ws m = Inr (r, m'', notes)" "m' = commit_end r m''"
    by (auto simp: commit_def exec_simps)
  from written [OF Inr w] write_blocking_ok [OF assms(1) w(1)] show ?thesis by blast
qed (use assms nothing in \<open>simp add: commit_def\<close>)

lemma commit_ok:
  assumes "manager_ok m" "commit sv m = Inr (r, m', notes)"
  shows "manager_ok m'"
  using assms by (rule commit_cases) (auto simp: commit_end_def assms(1) manager_ok_discard split: sum.split)

lemma manager_ok_stage:
  assumes "manager_ok m" "stage n v m = (status, m')"
  shows "manager_ok m'"
proof (cases "check_write n v")
  case (Inr u)
  with assms have "m' = m\<lparr>mg_staged := omap_put n v (mg_staged m)\<rparr>" by (simp add: stage_def)
  moreover have "staged_ok (omap_put n v (mg_staged m))"
    using assms(1) Inr by (auto simp: manager_ok_def staged_ok_def omap_simps)
  ultimately show ?thesis using assms(1) by (simp add: manager_ok_def subs_ok_def sub_entries_def)
qed (use assms in \<open>simp add: stage_def\<close>)

lemma map_of_map_values: "map_of (map (\<lambda>(n, e). (n, f e)) c) n = map_option f (map_of c n)"
  by (induction c) auto

definition stale_entry :: "cached_value \<Rightarrow> cached_value" where
  "stale_entry e = (if cv_quality e = Good then e\<lparr>cv_quality := Stale\<rparr> else e)"

lemma stale_entry_sel [simp]:
  "cv_value (stale_entry e) = cv_value e" "cv_quality (stale_entry e) \<noteq> Good"
  "cv_quality (stale_entry e) = Stale \<longleftrightarrow> cv_quality e \<in> {Good, Stale}"
  by (simp_all add: stale_entry_def)

lemma mark_all_stale_eq: "mark_all_stale m = m\<lparr>mg_cache := map (\<lambda>(n, e). (n, stale_entry e)) (mg_cache m)\<rparr>"
  by (simp add: mark_all_stale_def stale_entry_def)

lemma manager_ok_stale: "manager_ok m \<Longrightarrow> manager_ok (mark_all_stale m)"
  by (auto simp: manager_ok_def mark_all_stale_eq cache_ok_def map_of_map_values subs_ok_def sub_entries_def
      omap_ok_def case_prod_beta o_def)

lemma manager_ok_subs:
  assumes "manager_ok m"
  shows "manager_ok (snd (subscribe_raw nh m))" and "manager_ok (unsubscribe t m)"
  using assms subscriptions.radd_ok [of m nh] subscriptions.rremove_ok [of m t]
  by (simp_all add: manager_ok_def) (simp_all add: subscribe_raw_def unsubscribe_def Let_def)

lemma manager_step_ok: "manager_step m m' \<Longrightarrow> manager_ok m \<Longrightarrow> manager_ok m'"
proof (induction rule: manager_step.induct)
  case (report now obj src sq m snap m' calls)
  then show ?case
    using update_cache_ok [of m "decode_dp_object obj" now src sq]
    by (auto simp: ingest_report_def Let_def case_prod_beta)
qed (blast intro: read_response_ok write_response_ok [THEN conjunct1] manager_ok_stale manager_ok_stage
    manager_ok_discard commit_ok manager_ok_subs)+

lemma manager_reach_ok: "manager_reach m \<Longrightarrow> manager_ok m"
proof (induction rule: manager_reach.induct)
  case start
  then show ?case
    by (simp add: manager_ok_def make_manager_def cache_ok_def staged_ok_def subs_ok_def sub_entries_def)
qed (rule manager_step_ok)

text \<open>
  C18: After any sequence of answers, reports, staging operations, commits and subscriptions, every
  cached value has the wire type its descriptor declares and is good or stale, every staged value is
  writable and of the declared type, so that no lookup of a descriptor fails and a commit sends
  exactly what is staged, and no two subscriptions share a token.
\<close>

theorem manager_typed:
  assumes "manager_reach m"
  shows "(\<forall>n e. map_of (mg_cache m) n = Some e \<longrightarrow> cv_quality e \<in> {Good, Stale} \<and>
      (\<exists>d. catalog_find n = Some d \<and> value_index (cv_value e) = value_index_for (dd_type d))) \<and>
    (\<forall>n v. map_of (mg_staged m) n = Some v \<longrightarrow>
      (\<exists>d. catalog_find n = Some d \<and> writable d \<and> value_index v = value_index_for (dd_type d))) \<and>
    (mg_staged m \<noteq> [] \<longrightarrow> commit_begin m = Inr (mg_staged m)) \<and>
    distinct (map sb_token (mg_subs m))"
proof -
  have ok: "cache_ok (mg_cache m)" "staged_ok (mg_staged m)" "subs_ok m"
    using manager_reach_ok [OF assms] by (simp_all add: manager_ok_def)
  have "distinct (map sb_token (mg_subs m))"
    using ok(3) by (simp add: subs_ok_def sub_entries_def o_def)
  then show ?thesis
    using ok collect_staged [OF ok(2)]
    by (auto simp: cache_ok_def well_typed_def staged_ok_def check_write_Inr commit_begin_def)
qed

section \<open>Commit\<close>

lemma commit_asks:
  assumes "staged_ok (mg_staged m)" "sv_runner sv = Some (Inr ())"
    and "ws_validate (mg_staged m) = Inr ()" "floats_exact (mg_staged m)"
  obtains obj where "decode_dp_object (JObj obj) = \<lparr>sn_values = mg_staged m, sn_unknown = []\<rparr>"
    "commit sv m = bindE (write_response (sv_dump sv) (sv_fcast sv) (sv_now sv)
        (sv_device sv (write_request obj InteractiveControl)) m) (\<lambda>(r, m', calls). Inr (r, commit_end r m', calls))"
proof -
  have "omap_ok (mg_staged m)" using assms(1) by (simp add: staged_ok_def)
  from async_write_sends [OF this assms(3,4)] obtain obj where
    obj: "async_write (mg_staged m) = Inr (Inr (write_request obj InteractiveControl))"
      "decode_dp_object (JObj obj) = \<lparr>sn_values = mg_staged m, sn_unknown = []\<rparr>" by blast
  have "commit_begin m = Inr (mg_staged m)"
    using collect_staged [OF assms(1)] assms(3) by (auto simp: commit_begin_def ws_validate_def split: if_splits)
  with obj assms(2) show thesis by (intro that [of obj]) (simp_all add: commit_def write_blocking_def)
qed

text \<open>
  C20: A commit of staged values that pass validation sends exactly the staged values and nothing
  else; the staging area is emptied if and only if the device confirms that it applied them, and it
  is kept unchanged when the device rejects them or the request fails. Cache and notifications are
  those of the answer.
\<close>

theorem commit_sends_staged:
  assumes "manager_ok m" "sv_runner sv = Some (Inr ())"
    and "ws_validate (mg_staged m) = Inr ()" "floats_exact (mg_staged m)"
  shows "\<exists>obj. decode_dp_object (JObj obj) = \<lparr>sn_values = mg_staged m, sn_unknown = []\<rparr> \<and>
    commit sv m =
      bindE (write_response (sv_dump sv) (sv_fcast sv) (sv_now sv)
               (sv_device sv (write_request obj InteractiveControl)) m)
        (\<lambda>(r, m', calls). Inr (r, m'\<lparr>mg_staged := (case r of
             Inr wr \<Rightarrow> if applied wr then [] else mg_staged m | Inl _ \<Rightarrow> mg_staged m)\<rparr>, calls))"
proof -
  let ?w = "\<lambda>obj. write_response (sv_dump sv) (sv_fcast sv) (sv_now sv) (sv_device sv (write_request obj InteractiveControl)) m"
  have "staged_ok (mg_staged m)" using assms(1) by (simp add: manager_ok_def)
  from commit_asks [OF this assms(2-4)] obtain obj where
    obj: "decode_dp_object (JObj obj) = \<lparr>sn_values = mg_staged m, sn_unknown = []\<rparr>"
      "commit sv m = bindE (?w obj) (\<lambda>(r, m', calls). Inr (r, commit_end r m', calls))" by blast
  have fin: "commit_end r m' = m'\<lparr>mg_staged := (case r of
       Inr wr \<Rightarrow> if applied wr then [] else mg_staged m | Inl _ \<Rightarrow> mg_staged m)\<rparr>"
    if "mg_staged m' = mg_staged m" for r and m' :: "'a manager"
    using that [symmetric] by (simp add: commit_end_def discard_staged_def split: sum.split)
  have eq: "bindE (?w obj) (\<lambda>(r, m', calls). Inr (r, commit_end r m', calls)) =
      bindE (?w obj) (\<lambda>(r, m', calls). Inr (r, m'\<lparr>mg_staged := (case r of
             Inr wr \<Rightarrow> if applied wr then [] else mg_staged m | Inl _ \<Rightarrow> mg_staged m)\<rparr>, calls))"
    using write_response_ok [OF assms(1)] by (intro bindE_cong) (auto simp: fin)
  show ?thesis by (rule exI [of _ obj], rule conjI, rule obj(1), rule trans [OF obj(2) eq])
qed

section \<open>A concrete manager\<close>

lemma find_fault_ack: "catalog_find ''Fon_Fault_Ack'' = Some (kDatapointDescriptors_1 ! 43)"
proof -
  have "kDatapointDescriptors_1 ! 43 \<in> set kDatapointDescriptors"
    by (simp add: kDatapointDescriptors_def kDatapointDescriptors_1_def)
  from catalog_find_member [OF this] show ?thesis by (simp add: kDatapointDescriptors_1_def)
qed

lemma fault_ack_sel:
  "dd_type (kDatapointDescriptors_1 ! 43) = T_U8" "dd_access (kDatapointDescriptors_1 ! 43) = ReadWrite"
  by (simp_all add: kDatapointDescriptors_1_def)

lemma fault_ack_valid: "validate (kDatapointDescriptors_1 ! 43) (VU8 1) = Inr ()"
  using fround32_small_int [of 0] fround32_small_int [of 1]
  by (simp add: validate_iff kDatapointDescriptors_1_def)

definition demo_staged :: "nat manager" where
  "demo_staged = make_manager\<lparr>mg_staged := [(''Fon_Fault_Ack'', VU8 1)]\<rparr>"

lemma demo_staged_reach: "manager_reach demo_staged"
proof -
  have "stage ''Fon_Fault_Ack'' (VU8 1) make_manager = (Inr (), demo_staged)"
    by (simp add: stage_def check_write_def find_fault_ack fault_ack_sel writable_def demo_staged_def make_manager_def)
  from manager_reach.step [OF manager_reach.start manager_step.stage [OF this]] show ?thesis .
qed

lemma demo_valid: "ws_validate [(''Fon_Fault_Ack'', VU8 1)] = Inr ()"
  by (simp add: ws_validate_def find_fault_ack fault_ack_valid)

lemma demo_exact: "floats_exact [(''Fon_Fault_Ack'', VU8 1)]"
  by (simp add: floats_exact_def)

theorem write_set_roundtrip_witness:
  "\<exists>obj spec. async_write [(''Fon_Fault_Ack'', VU8 1)] = Inr (Inr spec) \<and>
     rs_body spec = JObj [(''dp'', JObj obj)] \<and>
     decode_dp_object (JObj obj) = \<lparr>sn_values = [(''Fon_Fault_Ack'', VU8 1)], sn_unknown = []\<rparr>"
  using write_set_roundtrip [OF _ demo_valid demo_exact] by auto

theorem manager_typed_witness: "commit_begin demo_staged = Inr [(''Fon_Fault_Ack'', VU8 1)]"
  using manager_typed [OF demo_staged_reach] by (simp add: demo_staged_def)

definition demo_service :: "jobj result \<Rightarrow> service_env" where
  "demo_service answer = \<lparr>sv_runner = Some (Inr ()), sv_device = (\<lambda>spec. answer), sv_now = 0,
     sv_dump = (\<lambda>j. Inr []), sv_fcast = (\<lambda>f. 0)\<rparr>"

theorem commit_sends_staged_witness:
  "map_sum id (\<lambda>(r, m, calls). mg_staged m)
     (commit (demo_service (Inr [(''status'', JStr ''rejected'')])) demo_staged) = Inr (mg_staged demo_staged) \<and>
   map_sum id (\<lambda>(r, m, calls). mg_staged m)
     (commit (demo_service (Inr [(''status'', JStr ''applied'')])) demo_staged) = Inr []"
proof -
  have pre: "sv_runner (demo_service a) = Some (Inr ())" "ws_validate (mg_staged demo_staged) = Inr ()"
    "floats_exact (mg_staged demo_staged)" for a
    using demo_valid demo_exact by (simp_all add: demo_service_def demo_staged_def)
  show ?thesis
    using commit_sends_staged [OF manager_reach_ok [OF demo_staged_reach] pre(1) pre(2,3)]
    by (force simp: demo_service_def write_response_def parse_write_result_def msg_value_def readback_of_def
        exec_simps applied_def)
qed

theorem update_cache_refines_witness:
  "cached_raw ''Fon_Fault_Ack'' (fst (update_cache 7 \<lparr>sn_values = [(''Fon_Fault_Ack'', VU8 1)], sn_unknown = []\<rparr>
      UnsolicitedReport (Some 3) demo_staged)) =
    Some \<lparr>cv_value = VU8 1, cv_received_at = 7, cv_source = UnsolicitedReport, cv_quality = Good,
          cv_report_sequence = Some 3\<rparr>"
proof -
  have "snapshot_ok \<lparr>sn_values = [(''Fon_Fault_Ack'', VU8 1)], sn_unknown = []\<rparr>"
    by (simp add: snapshot_ok_def well_typed_def find_fault_ack fault_ack_sel)
  from update_cache_refines [OF this, of 7 UnsolicitedReport "Some 3" demo_staged "''Fon_Fault_Ack''", THEN conjunct1]
  show ?thesis
    by (simp add: cached_raw_def spec_entry_def find_fault_ack)
qed

end
