(* ===== verification/Typed.thy ===== *)
theory Typed
  imports Manager_Safety Poller Services
begin

text \<open>
  The typed layer: the templates of \<open>datapoints/manager.hpp\<close>, \<open>poller.hpp\<close> and \<open>write_set.hpp\<close> over the
  generated constants. A template argument is a value of the constant's type; the concepts that guard an
  instantiation are predicates on the constant. The laws show that this layer and the one over run-time
  names agree on every generated constant, so that the dereferenced results are never errors.
\<close>

section \<open>Concepts and access\<close>

definition WritableDatapoint :: "typed_datapoint \<Rightarrow> bool" where
  "WritableDatapoint td \<longleftrightarrow> td_access td = ReadWrite \<or> td_access td = WriteOnly"

definition ReadableDatapoint :: "typed_datapoint \<Rightarrow> bool" where
  "ReadableDatapoint td \<longleftrightarrow> td_access td \<noteq> WriteOnly"

text \<open>The values of a C++ type, as alternatives of the variant (\<open>std::get_if\<close>).\<close>

definition get_if :: "cpp_type \<Rightarrow> datapoint_value \<Rightarrow> datapoint_value option" where
  "get_if t v = (case value_cast t v of Inl e \<Rightarrow> None | Inr w \<Rightarrow> Some w)"

definition catalog_at_typed :: "typed_datapoint \<Rightarrow> datapoint_descriptor exec" where
  "catalog_at_typed td =
    (if td_index td < length kDatapointDescriptors then Inr (kDatapointDescriptors ! td_index td)
     else Inl (Undefined_behaviour ''index outside the table''))"

text \<open>\<open>Result::operator*\<close> gets the first alternative of its variant.\<close>

definition deref :: "'a result \<Rightarrow> 'a exec" where
  "deref r = (case r of Inl e \<Rightarrow> Inl (Runtime_error ''bad_variant_access'') | Inr x \<Rightarrow> Inr x)"

section \<open>Write sets and manager\<close>

definition ws_set_typed :: "typed_datapoint \<Rightarrow> datapoint_value \<Rightarrow> write_set \<Rightarrow> write_set exec" where
  "ws_set_typed td v ws =
     bindE (catalog_at_typed td) (\<lambda>d. bindE (deref (make_value d v)) (\<lambda>boxed. Inr (omap_put (td_name td) boxed ws)))"

definition read_typed ::
  "service_env \<Rightarrow> typed_datapoint \<Rightarrow> 'h manager \<Rightarrow> (datapoint_value result \<times> 'h manager \<times> ('h \<times> change) list) exec" where
  "read_typed sv td m =
     bindE (read_names sv [td_name td] m) (\<lambda>(r, m', notes).
       Inr (case r of Inl e \<Rightarrow> Inl e | Inr snap \<Rightarrow> snapshot_get td snap, m', notes))"

definition read_several ::
  "service_env \<Rightarrow> typed_datapoint list \<Rightarrow> 'h manager \<Rightarrow> (snapshot result \<times> 'h manager \<times> ('h \<times> change) list) exec" where
  "read_several sv tds m = read_names sv (map td_name tds) m"

definition write_datapoint ::
  "service_env \<Rightarrow> typed_datapoint \<Rightarrow> datapoint_value \<Rightarrow> 'h manager \<Rightarrow>
    (write_result result \<times> 'h manager \<times> ('h \<times> change) list) exec" where
  "write_datapoint sv td v m = bindE (ws_set_typed td v []) (\<lambda>changes. write_blocking sv changes m)"

definition cached_typed :: "typed_datapoint \<Rightarrow> 'h manager \<Rightarrow> cached_value option" where
  "cached_typed td m =
    (case cached_raw (td_name td) m of
       None \<Rightarrow> None
     | Some raw \<Rightarrow> (case get_if (td_type td) (cv_value raw) of None \<Rightarrow> None | Some v \<Rightarrow> Some (raw\<lparr>cv_value := v\<rparr>)))"

definition stage_typed :: "typed_datapoint \<Rightarrow> datapoint_value \<Rightarrow> 'h manager \<Rightarrow> (unit result \<times> 'h manager) exec" where
  "stage_typed td v m =
     bindE (catalog_at_typed td) (\<lambda>d. bindE (deref (make_value d v)) (\<lambda>boxed. Inr (stage (td_name td) boxed m)))"

text \<open>What the wrapper around a typed callback passes on; \<open>None\<close>: the callback is not called.\<close>

record typed_change =
  tg_value :: datapoint_value
  tg_old_value :: "datapoint_value option"
  tg_source :: datapoint_source
  tg_received_at :: int

definition typed_callback :: "cpp_type \<Rightarrow> change \<Rightarrow> typed_change option" where
  "typed_callback t ch =
    (case get_if t (ch_value ch) of
       None \<Rightarrow> None
     | Some v \<Rightarrow>
        Some \<lparr>tg_value = v, tg_old_value = (case ch_old_value ch of None \<Rightarrow> None | Some o1 \<Rightarrow> get_if t o1),
              tg_source = ch_source ch, tg_received_at = ch_received_at ch\<rparr>)"

definition subscribe_typed :: "typed_datapoint \<Rightarrow> 'h \<Rightarrow> 'h manager \<Rightarrow> nat \<times> 'h manager" where
  "subscribe_typed td h m = subscribe_raw (td_name td, h) m"

section \<open>Poller\<close>

definition every_typed :: "int \<Rightarrow> typed_datapoint list \<Rightarrow> poller \<Rightarrow> poller" where
  "every_typed interval tds p = fold (\<lambda>td. poll_add (td_name td) interval) tds p"

definition once_typed :: "typed_datapoint list \<Rightarrow> poller \<Rightarrow> poller" where
  "once_typed tds p = fold (\<lambda>td. poll_add_once (td_name td)) tds p"

definition disable_typed :: "typed_datapoint list \<Rightarrow> poller \<Rightarrow> poller" where
  "disable_typed tds p = fold (\<lambda>td. poll_remove (td_name td)) tds p"

section \<open>Laws\<close>

text \<open>The descriptor of a generated constant is found by its name and by its index.\<close>

lemma typed_descriptor:
  assumes "td \<in> set typed_datapoints"
  obtains d where "catalog_find (td_name td) = Some d" "catalog_at_typed td = Inr d"
    "td_type td = datapoint_value_type (dd_type d)" "td_access td = dd_access d"
proof -
  obtain d where d: "d \<in> set kDatapointDescriptors" and
    td: "td = typed (datapoint_value_type (dd_type d)) (dd_access d) (dd_persistence d) (dd_index d) (dd_name d)"
    using assms by (auto simp: catalog_typed)
  obtain i where i: "i < 107" "d = kDatapointDescriptors ! i"
    using d by (auto simp: in_set_conv_nth catalog_length)
  have "dd_index d = i"
    using arg_cong [OF catalog_indices, of "\<lambda>xs. xs ! i"] i by (simp add: catalog_length)
  then have "catalog_at_typed td = Inr d"
    using i by (simp add: td catalog_at_typed_def typed_def catalog_length)
  then show thesis
    using that [of d] catalog_find_member [OF d] by (simp add: td typed_def)
qed

lemma value_cast_self: "value_cast (datapoint_value_type t) v = Inr w \<longleftrightarrow> value_index v = value_index_for t \<and> w = v"
  by (cases t) (auto simp: value_cast_def)

lemma get_if_self: "get_if (datapoint_value_type t) v = (if value_index v = value_index_for t then Some v else None)"
  by (cases t) (auto simp: get_if_def value_cast_def)

lemma cast_ok: "td \<in> set typed_datapoints \<Longrightarrow> well_typed (td_name td) v \<Longrightarrow> value_cast (td_type td) v = Inr v"
  by (erule typed_descriptor) (simp add: well_typed_def value_cast_self)

lemma get_if_ok: "td \<in> set typed_datapoints \<Longrightarrow> well_typed (td_name td) v \<Longrightarrow> get_if (td_type td) v = Some v"
  by (simp add: get_if_def cast_ok)

lemma typed_value_accepted:
  assumes "td \<in> set typed_datapoints" "WritableDatapoint td" "value_cast (td_type td) v = Inr v"
  shows "ws_set_typed td v ws = Inr (omap_put (td_name td) v ws)" "check_write (td_name td) v = Inr ()"
    and "stage_typed td v m = Inr (stage (td_name td) v m)"
proof -
  from assms(1) obtain d where d: "catalog_find (td_name td) = Some d" "catalog_at_typed td = Inr d"
    "td_type td = datapoint_value_type (dd_type d)" "td_access td = dd_access d"
    by (rule typed_descriptor)
  have ix: "value_index v = value_index_for (dd_type d)"
    using assms(3) by (simp add: d value_cast_self)
  have boxed: "deref (make_value d v) = Inr v" using ix by (simp add: deref_def make_value_def)
  show "check_write (td_name td) v = Inr ()"
    using assms(2) ix d(1,4) by (auto simp: check_write_Inr writable_def WritableDatapoint_def)
  show "ws_set_typed td v ws = Inr (omap_put (td_name td) v ws)" "stage_typed td v m = Inr (stage (td_name td) v m)"
    by (simp_all add: ws_set_typed_def stage_typed_def d(2) boxed)
qed

text \<open>The services write constants through the typed write; its model there leaves the box out.\<close>

lemma write_typed_datapoint:
  assumes "td \<in> set typed_datapoints" "WritableDatapoint td" "value_cast (td_type td) v = Inr v"
  shows "write_datapoint sv td v m = write_typed sv (td_name td) v m"
  by (simp add: write_datapoint_def write_typed_def typed_value_accepted [OF assms])


definition demo_constant :: typed_datapoint where
  "demo_constant = typed C_u8 ReadWrite Volatile 43 ''Fon_Fault_Ack''"

lemma demo_constant_sel [simp]:
  "td_name demo_constant = ''Fon_Fault_Ack''" "td_type demo_constant = C_u8" "td_access demo_constant = ReadWrite"
  by (simp_all add: demo_constant_def typed_def)

lemma demo_constant_member: "demo_constant \<in> set typed_datapoints"
  by (simp add: demo_constant_def typed_datapoints_def typed_datapoints_1_def)


lemma read_names_snapshot:
  assumes "read_names sv ns m = Inr (Inr snap, m', notes)"
  shows "snapshot_ok snap"
  using assms
  by (auto simp: read_names_def sync_wait_def read_response_def exec_simps Let_def case_prod_beta
      split: option.splits sum.splits)

lemma snapshot_get_typed:
  assumes "td \<in> set typed_datapoints" "snapshot_ok snap"
  shows "snapshot_get td snap = Inr v \<longleftrightarrow> map_of (sn_values snap) (td_name td) = Some v"
  using assms cast_ok [OF assms(1)] by (auto simp: snapshot_get_def snapshot_ok_def split: option.splits)

lemma read_typed_iff:
  assumes "td \<in> set typed_datapoints"
  shows "read_typed sv td m = Inr (Inr v, m', notes) \<longleftrightarrow> read_one sv (td_name td) m = Inr (Inr v, m', notes)"
proof (cases "\<exists>snap m'' ns. read_names sv [td_name td] m = Inr (Inr snap, m'', ns)")
  case True
  then obtain snap m'' ns where r: "read_names sv [td_name td] m = Inr (Inr snap, m'', ns)" by blast
  show ?thesis
    using snapshot_get_typed [OF assms read_names_snapshot [OF r], of v]
    by (auto simp: read_typed_def read_one_def r split: option.splits)
next
  case False
  then show ?thesis
    by (cases "read_names sv [td_name td] m") (auto simp: read_typed_def read_one_def split: sum.splits)
qed

lemma spec_calls_typed:
  assumes "cache_ok c" "well_typed n v" "(h, ch) \<in> set (spec_calls now src subs c (n, v))"
  shows "well_typed n (ch_value ch) \<and> (\<forall>w. ch_old_value ch = Some w \<longrightarrow> well_typed n w) \<and>
    catalog_find n = Some (ch_descriptor ch)"
  using assms by (auto simp: spec_calls_def old_value_def cache_ok_def split: option.splits if_splits)

lemma update_cache_calls_typed:
  assumes "manager_ok m" "snapshot_ok snap" "(h, ch) \<in> set (snd (update_cache now snap src sq m))"
  shows "well_typed (dd_name (ch_descriptor ch)) (ch_value ch)"
    and "ch_old_value ch = Some w \<Longrightarrow> well_typed (dd_name (ch_descriptor ch)) w"
proof -
  have "distinct (map fst (sn_values snap))" using assms(2) by (simp add: snapshot_ok_def omap_ok_distinct)
  then obtain n v where nv: "(n, v) \<in> set (sn_values snap)"
    "(h, ch) \<in> set (spec_calls now src (mg_subs m) (mg_cache m) (n, v))"
    using assms(3) by (auto simp: update_cache_eq update_entries_spec)
  have "well_typed n v" using assms(2) nv(1) by (auto simp: snapshot_ok_def omap.mitems_mfind)
  then have "well_typed n (ch_value ch) \<and> (\<forall>w. ch_old_value ch = Some w \<longrightarrow> well_typed n w) \<and>
      catalog_find n = Some (ch_descriptor ch)"
    using spec_calls_typed [OF _ _ nv(2)] assms(1) by (simp add: manager_ok_def)
  then show "well_typed (dd_name (ch_descriptor ch)) (ch_value ch)"
    and "ch_old_value ch = Some w \<Longrightarrow> well_typed (dd_name (ch_descriptor ch)) w"
    by (auto dest: catalog_find_sound)
qed

lemma typed_callback_total:
  assumes "td \<in> set typed_datapoints" "well_typed (td_name td) (ch_value ch)"
    and "\<And>w. ch_old_value ch = Some w \<Longrightarrow> well_typed (td_name td) w"
  shows "typed_callback (td_type td) ch =
    Some \<lparr>tg_value = ch_value ch, tg_old_value = ch_old_value ch, tg_source = ch_source ch, tg_received_at = ch_received_at ch\<rparr>"
  using assms by (auto simp: typed_callback_def get_if_ok split: option.split)

lemma every_typed_names:
  assumes "\<forall>td \<in> set tds. td \<in> set typed_datapoints \<and> ReadableDatapoint td"
  shows "every interval (map td_name tds) p = (Inr (), every_typed interval tds p)"
  using assms
proof (induction tds arbitrary: p)
  case (Cons td tds)
  then have "td \<in> set typed_datapoints" by simp
  then show ?case
    by (rule typed_descriptor) (use Cons in \<open>auto simp: every_typed_def readable_def ReadableDatapoint_def\<close>)
qed (simp add: every_typed_def)

text \<open>
  C33: For every generated constant and every reachable manager the typed queries lose nothing against the
  ones by name: a typed read returns a value exactly if the read by name returns it, the typed cache
  access gives the cached value, and of every change that a report delivers for the constant the typed
  callback gets value, old value, source and time. Polling readable constants is polling their names.
\<close>

theorem typed_reads_agree:
  assumes "td \<in> set typed_datapoints" "manager_reach m"
  shows "(read_typed sv td m = Inr (Inr v, m', notes) \<longleftrightarrow> read_one sv (td_name td) m = Inr (Inr v, m', notes)) \<and>
    cached_typed td m = cached_raw (td_name td) m \<and>
    (\<forall>(h, ch) \<in> set (snd (snd (ingest_report now obj src sq m))). dd_name (ch_descriptor ch) = td_name td \<longrightarrow>
       typed_callback (td_type td) ch =
         Some \<lparr>tg_value = ch_value ch, tg_old_value = ch_old_value ch, tg_source = ch_source ch,
               tg_received_at = ch_received_at ch\<rparr>) \<and>
    (ReadableDatapoint td \<longrightarrow> every interval [td_name td] p = (Inr (), every_typed interval [td] p))"
proof (intro conjI)
  note ok = manager_reach_ok [OF assms(2)]
  show "read_typed sv td m = Inr (Inr v, m', notes) \<longleftrightarrow> read_one sv (td_name td) m = Inr (Inr v, m', notes)"
    by (rule read_typed_iff [OF assms(1)])
  show "cached_typed td m = cached_raw (td_name td) m"
    using ok get_if_ok [OF assms(1)]
    by (auto simp: cached_typed_def cached_raw_def manager_ok_def cache_ok_def split: option.splits)
  show "\<forall>(h, ch) \<in> set (snd (snd (ingest_report now obj src sq m))). dd_name (ch_descriptor ch) = td_name td \<longrightarrow>
      typed_callback (td_type td) ch =
        Some \<lparr>tg_value = ch_value ch, tg_old_value = ch_old_value ch, tg_source = ch_source ch,
              tg_received_at = ch_received_at ch\<rparr>"
    using update_cache_calls_typed [OF ok snapshot_ok_decode [of obj], of _ _ now src sq] typed_callback_total [OF assms(1)]
    by (fastforce simp: ingest_report_def Let_def case_prod_beta)
  show "ReadableDatapoint td \<longrightarrow> every interval [td_name td] p = (Inr (), every_typed interval [td] p)"
    using every_typed_names [of "[td]"] assms(1) by simp
qed

theorem typed_reads_agree_witness:
  "cached_typed demo_constant demo_staged = None \<and>
   every 500 [''Fon_Fault_Ack''] make_poller = (Inr (), every_typed 500 [demo_constant] make_poller)"
proof -
  have "ReadableDatapoint demo_constant" by (simp add: ReadableDatapoint_def)
  moreover have "cached_raw ''Fon_Fault_Ack'' demo_staged = None"
    by (simp add: cached_raw_def demo_staged_def make_manager_def)
  ultimately show ?thesis
    using typed_reads_agree [OF demo_constant_member demo_staged_reach] by simp
qed

end
