(* ===== verification/Cli_Safety.thy ===== *)
theory Cli_Safety
  imports Cli Typed
begin

text \<open>
  Properties of the command-line tool: a valid configuration gives a completely configured client, what
  the user assigns is what is written, printing answers cannot fail, and exit codes and the final
  disconnect follow the outcome.
\<close>

section \<open>Configuration\<close>

lemma require_readable_ok: "require_readable fs p w = Inr () \<longleftrightarrow> p \<noteq> [] \<and> fs p \<noteq> None"
  by (simp add: require_readable_def)

lemma cli_tls_simps [simp]:
  "tc_ca_file (cli_tls cfg) = tl_ca_file (co_tls cfg)" "tc_certificate_file (cli_tls cfg) = tl_client_cert_file (co_tls cfg)"
  "tc_key_file (cli_tls cfg) = tl_client_key_file (co_tls cfg)" "tc_policy (cli_tls cfg) = cli_policy cfg"
  "tc_disable_peer_verification (cli_tls cfg) \<longleftrightarrow> \<not> tl_verify_peer (co_tls cfg)"
  by (simp_all add: cli_tls_def mutual_tls_def empty_tls_def set_unsafe_options_def Let_def)

lemma file_given_readable:
  assumes "file_given exists p" "exists p \<Longrightarrow> fs p \<noteq> None"
  shows "require_readable fs p w = Inr ()"
  using assms by (simp add: file_given_def require_readable_ok)

lemma cli_tls_valid:
  assumes valid: "config_valid exists cfg" and readable: "\<And>p. exists p \<Longrightarrow> fs p \<noteq> None"
    and mtls: "tl_use_mtls (co_tls cfg) \<or> tl_client_cert_file (co_tls cfg) = []"
  shows "tls_validate fs (cli_tls cfg) = Inr ()"
proof -
  let ?t = "co_tls cfg"
  have given: "tl_verify_peer ?t \<Longrightarrow> file_given exists (tl_ca_file ?t)"
    "tl_use_mtls ?t \<Longrightarrow> file_given exists (tl_client_cert_file ?t)"
    "tl_use_mtls ?t \<Longrightarrow> file_given exists (tl_client_key_file ?t)"
    using valid by (simp_all add: config_valid_def Let_def)
  note ok = given [THEN file_given_readable, OF _ readable]
  show ?thesis
    using mtls by (auto simp: tls_validate_def uses_mutual_tls_def ok)
qed

lemma hmac_from_file_ok:
  assumes "fs path = Some text" "kid \<noteq> []" "decode_hex_key text = Inr key"
  shows "hmac_from_file fs kid path = Inr \<lparr>hc_kid = kid, hc_key = key\<rparr>"
  using assms by (simp add: hmac_from_file_def hmac_from_hex_def)

text \<open>
  C34: A configuration file that loads, names a readable key file with a well-formed key and has client
  certificates only if it uses them, configures a fresh client completely: its security settings
  validate, the peer is verified unless the file says otherwise, the provider gives the key of the file
  for its key id and refuses every other id, and the timeouts and the reconnect policy are positive and
  ordered.
\<close>

theorem loaded_config_configures:
  assumes "load_config files exists parse fc what path = Inr cfg" "\<And>p. exists p \<Longrightarrow> fs p \<noteq> None"
    and "fc_enabled (co_fountain cfg)" "fs (fc_hmac_key_file (co_fountain cfg)) = Some hex" "decode_hex_key hex = Inr key"
    and "tl_use_mtls (co_tls cfg) \<or> tl_client_cert_file (co_tls cfg) = []"
  shows "\<exists>c p. cli_configure fs cfg (cli_client cfg) = (Inr (), c) \<and> sec_validate fs (cl_security c) = Inr () \<and>
    (tc_disable_peer_verification (sx_tls (cl_security c)) \<longleftrightarrow> \<not> tl_verify_peer (co_tls cfg)) \<and>
    sx_expected_device_id (cl_security c) = fc_device_id (co_fountain cfg) \<and> fc_device_id (co_fountain cfg) \<noteq> [] \<and>
    sx_provider (cl_security c) = Some p \<and>
    (\<forall>dev kid. if kid = fc_kid (co_fountain cfg) then p dev kid = Inr key else \<exists>e. p dev kid = Inl e) \<and>
    0 < op_connect_timeout (cl_options c) \<and> 0 < op_handshake_timeout (cl_options c) \<and>
    0 < rp_initial_delay (op_reconnect (cl_options c)) \<and>
    rp_initial_delay (op_reconnect (cl_options c)) \<le> rp_max_delay (op_reconnect (cl_options c))"
proof -
  let ?f = "co_fountain cfg"
  have valid: "config_valid exists cfg"
    using assms(1) by (auto simp: load_config_def exec_simps validate_config_iff split: option.splits)
  then have f: "fc_kid ?f \<noteq> []" "fc_device_id ?f \<noteq> []" "0 < fc_handshake_timeout ?f"
    "0 < cc_connect_timeout (co_connection cfg)" "0 < cc_reconnect_initial (co_connection cfg)"
    "cc_reconnect_initial (co_connection cfg) \<le> cc_reconnect_max (co_connection cfg)"
    using assms(3) by (simp_all add: config_valid_def Let_def)
  have tls: "tls_validate fs (cli_tls cfg) = Inr ()" by (rule cli_tls_valid [OF valid assms(2,6)])
  have hmac: "hmac_from_file fs (fc_kid ?f) (fc_hmac_key_file ?f) = Inr \<lparr>hc_kid = fc_kid ?f, hc_key = key\<rparr>"
    using hmac_from_file_ok [of fs "fc_hmac_key_file ?f" hex "fc_kid ?f" key] assms(4,5) f(1) by simp
  show ?thesis
    using f tls by (simp add: cli_configure_def set_tls_def cli_client_def make_client_def make_security_def set_expected_device_id_def hmac
        set_hmac_def sec_validate_def fixed_resolve_def cli_options_def Let_def)
qed


definition demo_file :: json where
  "demo_file = JObj [(''device'', JObj [(''host'', JStr ''10.0.0.1''), (''port'', JInt 4444)]),
     (''fountain'', JObj [(''device_id'', JStr ''D''), (''hmac_key_file'', JStr ''k'')]),
     (''tls'', JObj [(''use_mtls'', JBool False), (''verify_peer'', JBool False)])]"

abbreviation demo_load :: "config exec" where
  "demo_load \<equiv> load_config (\<lambda>p. Some []) (\<lambda>p. True) (\<lambda>text. Inr demo_file) (\<lambda>f. 0) (\<lambda>e. []) ''cfg''"

definition demo_key_file :: filesystem where
  "demo_key_file p = Some (replicate 64 (CHR ''0''))"

lemma demo_load_fountain:
  "\<exists>cfg. demo_load = Inr cfg \<and> fc_enabled (co_fountain cfg) \<and> fc_device_id (co_fountain cfg) = ''D'' \<and>
     tl_client_cert_file (co_tls cfg) = []"
proof -
  have "map_sum id (\<lambda>cfg. (fc_enabled (co_fountain cfg), fc_device_id (co_fountain cfg), tl_client_cert_file (co_tls cfg)))
      demo_load = Inr (True, ''D'', [])"
    by code_simp
  then show ?thesis by (cases demo_load) simp_all
qed

theorem loaded_config_configures_witness:
  "\<exists>cfg c :: nat client. demo_load = Inr cfg \<and> cli_configure demo_key_file cfg (cli_client cfg) = (Inr (), c) \<and>
     sec_validate demo_key_file (cl_security c) = Inr () \<and> sx_expected_device_id (cl_security c) = ''D''"
proof -
  obtain cfg where cfg: "demo_load = Inr cfg" "fc_enabled (co_fountain cfg)" "fc_device_id (co_fountain cfg) = ''D''"
    "tl_client_cert_file (co_tls cfg) = []"
    using demo_load_fountain by blast
  have "decode_hex_key (replicate 64 (CHR ''0'')) = Inr (replicate 32 0)" by code_simp
  from loaded_config_configures [of _ "\<lambda>p. True" _ _ _ _ cfg demo_key_file, OF cfg(1) _ cfg(2) _ this]
  show ?thesis using cfg by (auto simp: demo_key_file_def)
qed

section \<open>Assignments\<close>

lemma split_at_append: "x \<notin> set a \<Longrightarrow> split_at x (a @ x # b) = Some (a, b)"
  by (induction a) auto

lemma catalog_names_plain: "catalog_find n = Some d \<Longrightarrow> CHR ''='' \<notin> set n"
proof -
  have "list_all (\<lambda>(n, i). CHR ''='' \<notin> set n) datapoint_ids" by code_simp
  then have "\<forall>d \<in> set kDatapointDescriptors. CHR ''='' \<notin> set (dd_name d)"
    by (auto simp: catalog_ids list_all_iff)
  then show "catalog_find n = Some d \<Longrightarrow> CHR ''='' \<notin> set n"
    using catalog_find_sound by metis
qed

text \<open>An assignment to a writable datapoint succeeds exactly with what its text decodes to.\<close>

lemma parse_assignment_value:
  assumes "catalog_find n = Some d" "writable d" "assignment_json d n t = Inr raw" "value_from_json d raw = Inr v"
  shows "parse_assignment ws (n @ CHR ''='' # t) = Inr (omap_put n v ws)"
proof -
  have "check_write n v = Inr ()"
    using assms value_from_json_typed [OF assms(4)] by (auto simp: check_write_Inr)
  then show ?thesis
    using assms by (simp add: parse_assignment_def split_at_append catalog_names_plain ws_set_def)
qed

lemma assignment_json_number:
  "int_range (dd_type d) = Some r \<Longrightarrow> stod t = Some f \<Longrightarrow> assignment_json d n t = Inr (JFloat f)"
  by (cases "dd_type d") (simp_all add: assignment_json_def)

lemma int_range_small: "int_range t = Some (lo, hi) \<Longrightarrow> lo \<le> i \<Longrightarrow> i \<le> hi \<Longrightarrow> \<bar>i\<bar> < 2 ^ 53"
  by (cases t) auto

lemma integer_assigned:
  assumes "catalog_find n = Some d" "writable d" "int_range (dd_type d) = Some (lo, hi)" "lo \<le> i" "i \<le> hi"
  shows "\<exists>v. parse_assignment ws (n @ CHR ''='' # int_dec i) = Inr (omap_put n v ws) \<and> value_double v = FFin (of_int i)"
proof -
  obtain mk where mk: "value_from_json d (JFloat (FFin (of_int i))) = narrow d lo hi mk (FFin (of_int i))"
    "value_double (mk i) = FFin (of_int i)"
    using value_from_json_int [OF assms(3), of "JFloat (FFin (of_int i))"] assms(4,5) by auto
  have "stod (int_dec i) = Some (FFin (of_int i))"
    using int_range_small [OF assms(3-5)] by (rule stod_int_dec)
  from parse_assignment_value [OF assms(1,2) assignment_json_number [OF assms(3) this], of "mk i"]
  show ?thesis using mk assms(4,5) by (auto simp: narrow_Inr)
qed



text \<open>The text \<open>nan\<close> is a number to the conversion, and the range check does not stop it.\<close>

lemma nan_assigned:
  assumes "catalog_find n = Some d" "writable d" "dd_type d = T_F32"
  shows "parse_assignment [] (n @ ''=nan'') = Inr [(n, VF32 FNaN)]" "ws_validate [(n, VF32 FNaN)] = Inr ()"
proof -
  have "stod ''nan'' = Some FNaN" by code_simp
  then have "assignment_json d n ''nan'' = Inr (JFloat FNaN)" using assms(3) by (simp add: assignment_json_def)
  from parse_assignment_value [OF assms(1,2) this, of "VF32 FNaN" "[]"]
  show "parse_assignment [] (n @ ''=nan'') = Inr [(n, VF32 FNaN)]"
    using assms(3) by (simp add: value_from_json_def)
  show "ws_validate [(n, VF32 FNaN)] = Inr ()"
    using assms validate_nan [OF assms(3)] by (simp add: ws_validate_def)
qed

section \<open>Printing\<close>

lemma print_snapshot_total: "snapshot_ok snap \<Longrightarrow> \<exists>ls. print_snapshot snap = Inr ls"
proof -
  assume ok: "snapshot_ok snap"
  have "\<exists>l. display_value n v = Inr l" if "(n, v) \<in> set (sn_values snap)" for n v
  proof -
    have "well_typed n v" using ok that by (auto simp: snapshot_ok_def omap.mitems_mfind)
    then show ?thesis by (auto simp: well_typed_def display_value_def)
  qed
  then obtain g where "\<And>n v. (n, v) \<in> set (sn_values snap) \<Longrightarrow> display_value n v = Inr (g n v)" by metis
  then have "mapE (\<lambda>(n, v). display_value n v) (sn_values snap) = Inr (map (\<lambda>(n, v). g n v) (sn_values snap))"
    by (intro mapE_total) auto
  then show ?thesis by (simp add: print_snapshot_def)
qed

lemma read_all_snapshot:
  assumes "read_all sv m = Inr (Inr snap, m', notes)"
  shows "snapshot_ok snap"
  using assms
  by (auto simp: read_all_def sync_wait_def read_response_def exec_simps Let_def case_prod_beta
      split: option.splits sum.splits)

lemma write_readback_ok:
  assumes "write_blocking sv ws m = Inr (Inr r, m', notes)"
  shows "snapshot_ok (wr_readback r)"
proof -
  obtain msg where "parse_write_result (sv_dump sv) (sv_fcast sv) (sv_now sv) msg m = Inr (r, m', notes)"
  proof -
    obtain u x where "sv_runner sv = Some (Inr u)" "async_write ws = Inr x"
      using assms by (cases "async_write ws") (auto simp: write_blocking_def sync_wait_def split: option.splits sum.splits)
    then show thesis
      using assms that by (auto simp: write_blocking_def write_response_def exec_simps split: sum.splits)
  qed
  then have "wr_readback r = (case readback_of msg of None \<Rightarrow> empty_snapshot | Some s \<Rightarrow> s)"
    by (auto simp: parse_write_result_def exec_simps Let_def case_prod_beta split: option.splits)
  then show ?thesis
    using readback_ok [of msg] by (auto simp: snapshot_ok_def empty_snapshot_def split: option.splits)
qed

lemma print_write_total:
  assumes "snapshot_ok (wr_readback r)"
  shows "\<exists>y. print_write r = Inr y"
  using print_snapshot_total [OF assms] by (auto simp: print_write_def)

lemma bindE_fails:
  assumes "bindE m f = Inl e" "\<And>x. m = Inr x \<Longrightarrow> \<exists>y. f x = Inr y"
  shows "m = Inl e"
proof (cases m)
  case (Inr x)
  then show ?thesis using assms(1) assms(2) [OF Inr] by auto
qed (use assms(1) in simp)

text \<open>
  Printing an answer never fails: \<open>read\<close>, \<open>read-all\<close> and \<open>write\<close> dereference the catalog entry of
  every name they print, and whatever the device answers, an exception can come from the request itself
  only.
\<close>

theorem answers_always_printed:
  "(verb_read sv names m = Inl e \<longleftrightarrow> read_names sv names m = Inl e) \<and>
   (verb_read_all sv m = Inl e \<longleftrightarrow> read_all sv m = Inl e) \<and>
   (verb_write sv args m = Inl e \<longleftrightarrow> (\<exists>ws. parse_assignments [] args = Inr ws \<and> write_blocking sv ws m = Inl e))"
proof (intro conjI)
  show "verb_read sv names m = Inl e \<longleftrightarrow> read_names sv names m = Inl e"
    using read_names_snapshot [of sv names m, THEN print_snapshot_total]
    by (auto simp: verb_read_def dest!: bindE_fails split: sum.splits)
  show "verb_read_all sv m = Inl e \<longleftrightarrow> read_all sv m = Inl e"
    using read_all_snapshot [of sv m, THEN print_snapshot_total]
    by (auto simp: verb_read_all_def dest!: bindE_fails split: sum.splits)
  show "verb_write sv args m = Inl e \<longleftrightarrow> (\<exists>ws. parse_assignments [] args = Inr ws \<and> write_blocking sv ws m = Inl e)"
    using write_readback_ok [of sv _ m, THEN print_write_total]
    by (auto simp: verb_write_def with_disconnect_def dest!: bindE_fails split: sum.splits)
qed

section \<open>Exit codes\<close>

text \<open>A result with one of the given exit codes that has not disconnected.\<close>

definition outcome :: "int set \<Rightarrow> cli_result \<Rightarrow> bool" where
  "outcome codes r \<longleftrightarrow> (\<forall>code ls. r = Inr (code, ls) \<longrightarrow> code \<in> codes \<and> Disconnect_call \<notin> set ls)"

lemma outcome_Inr [simp]: "outcome codes (Inr (code, ls)) \<longleftrightarrow> code \<in> codes \<and> Disconnect_call \<notin> set ls"
  and outcome_Inl [simp]: "outcome codes (Inl e)"
  by (simp_all add: outcome_def)

lemma outcome_bind: "(\<And>x. m = Inr x \<Longrightarrow> outcome codes (f x)) \<Longrightarrow> outcome codes (bindE m f)"
  by (cases m) simp_all

lemma outcome_error: "1 \<in> codes \<Longrightarrow> outcome codes (Inr (print_error e))"
  by (simp add: print_error_def)

lemma print_snapshot_lines:
  assumes "print_snapshot snap = Inr ls"
  shows "Disconnect_call \<notin> set ls"
proof -
  have "mapE (\<lambda>(n, v). display_value n v) xs = Inr ls \<Longrightarrow> Disconnect_call \<notin> set ls" for xs ls
    by (induction xs arbitrary: ls) (auto simp: exec_simps display_value_def null_pointer_def split: option.splits)
  then show ?thesis using assms by (auto simp: print_snapshot_def exec_simps)
qed

named_theorems outcomes \<open>exit codes of the verbs\<close>

lemma outcome_read [outcomes]: "outcome {0, 1} (verb_read sv names m)"
  by (auto simp: verb_read_def print_snapshot_lines intro!: outcome_bind outcome_error split: sum.split)

lemma outcome_read_all [outcomes]: "outcome {0, 1} (verb_read_all sv m)"
  by (auto simp: verb_read_all_def print_snapshot_lines intro!: outcome_bind outcome_error split: sum.split)

lemma outcome_print_write: "outcome {0, 1, 3} (print_write r)"
  by (auto simp: print_write_def print_snapshot_lines intro!: outcome_bind)

lemma outcome_if: "outcome codes r \<Longrightarrow> outcome codes r' \<Longrightarrow> outcome codes (if p then r else r')"
  by simp

lemma outcome_option:
  "outcome codes r \<Longrightarrow> (\<And>x. outcome codes (f x)) \<Longrightarrow> outcome codes (case v of None \<Rightarrow> r | Some x \<Rightarrow> f x)"
  by (cases v) simp_all

lemma outcome_print_command: "outcome {0, 1, 2, 3} (Inr (print_command r))"
  by (cases r) (simp_all add: print_command_def outcome_error)

lemma outcome_command [outcomes]: "outcome {0, 1, 2, 3} (verb_command sv args)"
proof (cases args)
  case (Cons v rest)
  show ?thesis
    unfolding verb_command_def Cons list.case
    by (intro outcome_if outcome_option outcome_bind outcome_print_command) simp_all
qed (simp add: verb_command_def)

lemma outcome_records: "outcome {0, 1} (Inr (print_records r))"
  by (auto simp: print_records_def record_line_def intro!: outcome_error split: sum.split)

lemma outcome_watch [outcomes]:
  "outcome {0, 1} (bindE (watch_arguments args) (\<lambda>(interval, names). Inr (fst (run_watch changes stats interval names p))))"
  by (auto simp: run_watch_def change_line_def stats_line_def intro!: outcome_bind outcome_error
      split: prod.split sum.split)

lemma outcome_logs [outcomes]: "verb_logs fuel sv mode = Some r \<Longrightarrow> outcome {0, 1} r"
  by (auto simp: verb_logs_def record_line_def intro!: outcome_bind outcome_error outcome_records split: if_splits sum.split)

lemma script_step_lines:
  assumes "script_step sv mm st = Inr ls"
  shows "Disconnect_call \<notin> set ls"
  using assms
  by (cases "raw_request sv (raw_spec (fs_type st) (fs_body st) (Some (fs_timeout st * 1000))) () ::
      (jobj result \<times> unit \<times> unit list) exec")
    (auto simp: script_step_def exec_simps split: if_splits sum.splits)

lemma script_pass_outcome:
  "script_pass stop sv k steps = Inr (r, ls) \<Longrightarrow> Disconnect_call \<notin> set ls \<and> (\<forall>code. r = Inl code \<longrightarrow> code \<in> {0, 2})"
proof (induction steps arbitrary: k r ls)
  case (Cons st steps)
  show ?case
  proof (cases "find_meta (fs_type st)")
    case (Some mm)
    then show ?thesis
      using Cons.prems Cons.IH script_step_lines [of "sv k" mm st] by (auto simp: exec_simps split: if_splits)
  qed (use Cons.prems in \<open>auto split: if_splits\<close>)
qed simp

lemma outcome_script [outcomes]: "run_script fuel stop sv k f = Some r \<Longrightarrow> outcome {0, 2} r"
proof (induction fuel stop sv k f arbitrary: r rule: run_script.induct)
  case (2 fuel stop sv k f)
  show ?case
  proof (cases "script_pass stop sv k (fc_sequence f)")
    case (Inr x)
    obtain q ls where x: "x = (q, ls)" by (cases x)
    note out = script_pass_outcome [OF Inr [unfolded x]]
    show ?thesis
    proof (cases q)
      case (Inl code)
      then show ?thesis using "2.prems" Inr x out by auto
    next
      case (Inr k')
      have "outcome {0, 2} r'" if "run_script fuel stop sv k' f = Some r'" "fc_loop f \<and> \<not> stop k'" for r'
        using "2.IH" [OF \<open>script_pass stop sv k (fc_sequence f) = Inr x\<close>] x Inr that by auto
      then have "outcome {0, 2} (bindE r' (\<lambda>(code, rest). Inr (code, ls @ rest)))"
        if "run_script fuel stop sv k' f = Some r'" "fc_loop f \<and> \<not> stop k'" for r'
        using that out by (intro outcome_bind) (auto simp: outcome_def)
      then show ?thesis
        using "2.prems" \<open>script_pass stop sv k (fc_sequence f) = Inr x\<close> x Inr out by (auto split: if_splits)
    qed
  qed (use "2.prems" in auto)
qed simp

lemma outcome_mono: "outcome codes r \<Longrightarrow> codes \<subseteq> codes' \<Longrightarrow> outcome codes' r"
  by (auto simp: outcome_def)

text \<open>A run that ended: at most one disconnect, as the last call, and exactly one after success.\<close>

definition finished :: "int set \<Rightarrow> cli_result \<Rightarrow> bool" where
  "finished codes r \<longleftrightarrow> (\<forall>code ls. r = Inr (code, ls) \<longrightarrow>
     code \<in> codes \<and> Disconnect_call \<notin> set (butlast ls) \<and> (code = 0 \<longrightarrow> ls \<noteq> [] \<and> last ls = Disconnect_call))"

lemma finished_disconnect: "outcome codes r \<Longrightarrow> codes \<subseteq> codes' \<Longrightarrow> finished codes' (with_disconnect r)"
  by (auto simp: outcome_def finished_def with_disconnect_def exec_simps)

lemma finished_early: "outcome codes r \<Longrightarrow> 0 \<notin> codes \<Longrightarrow> codes \<subseteq> codes' \<Longrightarrow> finished codes' r"
  by (fastforce simp: outcome_def finished_def dest: in_set_butlastD)

lemma finished_write: "finished {0, 1, 2, 3} (verb_write sv args m)"
proof (cases "parse_assignments [] args")
  case (Inl e)
  then show ?thesis by (simp add: verb_write_def finished_def print_error_def)
next
  case (Inr ws)
  have "outcome {0, 1, 3} (bindE (write_blocking sv ws m) (\<lambda>(r, m', notes).
      case r of Inl e \<Rightarrow> Inr (print_error e) | Inr w \<Rightarrow> print_write w))"
    by (auto intro!: outcome_bind outcome_error outcome_print_write split: sum.split)
  then show ?thesis by (simp add: verb_write_def Inr finished_disconnect)
qed

lemma finished_raw: "finished {0, 1, 2} (verb_raw parse dump2 sv args)"
proof -
  have answer: "outcome {0, 1} (bindE (raw_request sv spec ()) (\<lambda>(r, u, n :: unit list).
      case r of Inl e \<Rightarrow> Inr (print_error e) | Inr msg \<Rightarrow> bindE (dump2 (JObj msg)) (\<lambda>t. Inr (0, [Out t]))))" for spec
    by (auto intro!: outcome_bind outcome_error split: sum.split)
  have early: "finished {0, 1, 2} (Inr (2, [Err t]))" for t by (simp add: finished_def)
  show ?thesis
    unfolding verb_raw_def Let_def
    by (auto intro!: early finished_disconnect answer split: option.split)
qed

lemma finished_mono: "finished codes r \<Longrightarrow> codes \<subseteq> codes' \<Longrightarrow> finished codes' r"
  by (auto simp: finished_def)

definition verb_codes :: "string \<Rightarrow> int set" where
  "verb_codes v = (if v \<in> {''write'', ''command''} then {0, 1, 2, 3} else {0, 1, 2})"

lemma verb_codes_incl: "{0, 1, 2} \<subseteq> verb_codes v" "v = ''write'' \<or> v = ''command'' \<Longrightarrow> {0, 1, 2, 3} \<subseteq> verb_codes v"
  by (auto simp: verb_codes_def)

lemma pred_option_if:
  "(p \<Longrightarrow> pred_option P x) \<Longrightarrow> (\<not> p \<Longrightarrow> pred_option P y) \<Longrightarrow> pred_option P (if p then x else y)"
  by simp

lemma finished_some: "finished codes r \<Longrightarrow> pred_option (finished codes) (Some r)"
  by simp

lemma finished_map:
  assumes "\<And>r. x = Some r \<Longrightarrow> outcome codes r" "codes \<subseteq> codes'"
  shows "pred_option (finished codes') (map_option with_disconnect x)"
  using assms by (cases x) (auto intro: finished_disconnect)

lemma finished_verb: "pred_option (finished (verb_codes v)) (run_verb fuel ce cfg i v args c)"
proof -
  let ?F = "finished (verb_codes v)"
  have sub: "{0, 1} \<subseteq> verb_codes v" "{0, 2} \<subseteq> verb_codes v" "{0} \<subseteq> verb_codes v" "{2} \<subseteq> verb_codes v"
    using verb_codes_incl(1) [of v] by auto
  have info: "?F (with_disconnect (Inr (0, info_lines i)))"
    using sub(3) by (intro finished_disconnect [of "{0}"]) (simp_all add: info_lines_def)
  have other: "?F (with_disconnect (Inr (2, [Err t])))" for t
    using sub(4) by (intro finished_disconnect [of "{2}"]) simp_all
  note quiet = outcome_read [THEN finished_disconnect, OF sub(1)] outcome_read_all [THEN finished_disconnect, OF sub(1)]
    outcome_watch [THEN finished_disconnect, OF sub(1)] finished_raw [THEN finished_mono, OF verb_codes_incl(1)]
  note loud = finished_write [THEN finished_mono, OF verb_codes_incl(2)] outcome_command [THEN finished_disconnect, OF verb_codes_incl(2)]
  note run = finished_map [OF outcome_logs sub(1)] finished_map [OF outcome_script sub(2)]
  show ?thesis
    unfolding run_verb_def Let_def
    by (intro pred_option_if finished_some info other quiet loud run) blast+
qed

lemma finished_connected:
  assumes "finished codes r" "bindE r (\<lambda>(code, ls). Inr (code, connected_line i # ls)) = Inr (code, ls)"
  shows "code \<in> codes \<and> Disconnect_call \<notin> set (butlast ls) \<and> (code = 0 \<longrightarrow> last ls = Disconnect_call)"
  using assms by (auto simp: finished_def exec_simps connected_line_def split: if_splits)

lemma config_failure_outcome: "config_failure what e = Inr (code, ls) \<Longrightarrow> code = 1 \<and> Disconnect_call \<notin> set ls"
  by (cases e) auto

text \<open>
  C36: The exit code tells the outcome. A run of the tool that ends without an exception exits with 0, 1, 2
  or 3; it disconnects at most once and only as its last call; 0 means that the configuration was
  loaded, the client configured and connected, and the connection closed at the end; 3, a refusal
  by the device, is the result of \<open>write\<close> and \<open>command\<close> only.
\<close>

theorem exit_code_outcome:
  assumes "fst (cli_main fuel ce argv l) = Some (Inr (code, ls))"
  shows "code \<in> {0, 1, 2, 3} \<and> Disconnect_call \<notin> set (butlast ls) \<and>
    (code = 0 \<longrightarrow> last ls = Disconnect_call \<and>
      (\<exists>cfg c i. load_config (cx_files ce) (cx_exists ce) (cx_parse ce) (cx_fcast ce) (cx_what ce) (argv ! 1) = Inr cfg \<and>
         cli_configure (cx_files ce) cfg (cli_client cfg) = (Inr (), c) \<and> cx_connect ce c = Inr i)) \<and>
    (code = 3 \<longrightarrow> argv ! 2 \<in> {''write'', ''command''})"
proof -
  let ?load = "load_config (cx_files ce) (cx_exists ce) (cx_parse ce) (cx_fcast ce) (cx_what ce) (argv ! 1)"
  consider (failed) "code \<in> {1, 2}" "Disconnect_call \<notin> set ls"
    | (run) cfg c i r where "?load = Inr cfg" "cli_configure (cx_files ce) cfg (cli_client cfg) = (Inr (), c)"
        "cx_connect ce c = Inr i" "run_verb fuel ce cfg i (argv ! 2) (drop 3 argv) c = Some r"
        "bindE r (\<lambda>(code, ls). Inr (code, connected_line i # ls)) = Inr (code, ls)"
    using assms
    by (auto simp: cli_main_def Let_def print_error_def dest!: config_failure_outcome
        split: if_splits sum.splits prod.splits)
  then show ?thesis
  proof cases
    case failed
    then show ?thesis by (auto dest: in_set_butlastD)
  next
    case run
    have "finished (verb_codes (argv ! 2)) r" using finished_verb [of "argv ! 2"] run(4) by (metis option.pred_inject(2))
    from finished_connected [OF this run(5)] run(1-3) show ?thesis
      by (auto simp: verb_codes_def split: if_splits)
  qed
qed

definition demo_cli :: "nat cli_env" where
  "demo_cli = \<lparr>cx_files = demo_key_file, cx_exists = (\<lambda>p. True), cx_parse = (\<lambda>text. Inr demo_file),
     cx_parse_lenient = (\<lambda>text. JDiscarded), cx_dump2 = (\<lambda>j. Inr []), cx_fcast = (\<lambda>f. 0), cx_what = (\<lambda>e. []),
     cx_connect = (\<lambda>c. Inr empty_info), cx_services = (\<lambda>k. demo_service (Inr [])), cx_stop = (\<lambda>k. False),
     cx_changes = [], cx_stats = zero_stats\<rparr>"

abbreviation demo_run :: "cli_result option" where
  "demo_run \<equiv> fst (cli_main 0 demo_cli [''fountainer-cli'', ''cfg'', ''info''] (initial_logger :: nat logger))"

theorem exit_code_outcome_witness:
  "\<exists>ls. demo_run = Some (Inr (0, ls)) \<and> last ls = Disconnect_call"
proof -
  have "map_option (map_sum id fst) demo_run = Some (Inr 0)" by code_simp
  then obtain ls where run: "demo_run = Some (Inr (0, ls))"
    by (cases demo_run) (auto split: sum.splits simp: map_sum_def)
  from exit_code_outcome [OF this] show ?thesis using run by blast
qed

end
