(* ===== verification/Guard.thy ===== *)
theory Guard
  imports Typed
begin

text \<open>
  Laws of the restore guard (\<open>datapoints/restore_guard.cpp\<close>): what \<open>capture\<close> reads is what \<open>restore\<close>
  writes, and which guards still restore when they are destroyed.
\<close>

section \<open>Decoded values survive the wire\<close>

lemma decoded_float_exact: "value_from_json d j = Inr (VF32 f) \<Longrightarrow> to_float f = f"
  by (cases "dd_type d") (auto simp: value_from_json_def narrow_Inr split: json.splits sum.splits)

definition snapshot_exact :: "snapshot \<Rightarrow> bool" where
  "snapshot_exact s \<longleftrightarrow> (\<forall>n f. map_of (sn_values s) n = Some (VF32 f) \<longrightarrow> to_float f = f)"

lemma snapshot_exact_decode_items: "snapshot_exact s \<Longrightarrow> snapshot_exact (decode_items items s)"
proof (induction items s rule: decode_items.induct)
  case (2 n raw items s)
  have "snapshot_exact (add_unknown n s)" using 2 by (simp add: snapshot_exact_def add_unknown_def)
  moreover have "snapshot_exact (snapshot_set n v s)" if "value_from_json d raw = Inr v" for d v
    using 2 that by (auto simp: snapshot_exact_def snapshot_set_def omap_simps dest: decoded_float_exact split: if_splits)
  ultimately show ?case using 2 by (auto split: option.split sum.split)
qed simp

lemma snapshot_exact_decode: "snapshot_exact (decode_dp_object j)"
  by (auto simp: decode_dp_object_def intro!: snapshot_exact_decode_items split: json.splits)
    (simp_all add: snapshot_exact_def empty_snapshot_def)

lemma read_names_answer:
  assumes "read_names sv ns m = Inr (Inr snap, m', notes)"
  obtains spec msg obj where "async_read ns InteractiveRead [] = Inr spec" "sv_device sv spec = Inr msg"
    "msg_value get_json msg ''dp'' (JObj []) = Inr obj" "sn_values snap = sn_values (decode_dp_object obj)"
  using assms that
  by (auto simp: read_names_def sync_wait_def read_response_def exec_simps Let_def case_prod_beta
      split: option.splits sum.splits)

section \<open>Capture and restore\<close>

lemma check_restorable_Inr:
  "check_restorable ns = Inr u \<longleftrightarrow> (\<forall>n \<in> set ns. \<exists>d. catalog_find n = Some d \<and> dd_access d = ReadWrite)"
  by (induction ns rule: check_restorable.induct) (auto split: option.splits)

lemma capture_Inr:
  "capture sv names m = Inr (Inr g, m', notes) \<longleftrightarrow>
    names \<noteq> [] \<and> check_restorable names = Inr () \<and> rg_armed g \<and>
    read_names sv names m = Inr (Inr (rg_baseline g), m', notes)"
  by (cases g; cases "read_names sv names m") (auto simp: capture_def split: sum.splits)

lemma captured_collect:
  assumes "capture sv names m = Inr (Inr g, m1, notes)" "fst ` set (sn_values (rg_baseline g)) \<subseteq> set names"
  shows "collect_changes (sn_values (rg_baseline g)) [] = Inr (sn_values (rg_baseline g))"
    and "omap_ok (sn_values (rg_baseline g))" "floats_exact (sn_values (rg_baseline g))"
proof -
  have read: "read_names sv names m = Inr (Inr (rg_baseline g), m1, notes)" and rw: "check_restorable names = Inr ()"
    using assms(1) by (simp_all add: capture_Inr)
  have ok: "snapshot_ok (rg_baseline g)" by (rule read_names_snapshot [OF read])
  then show omap: "omap_ok (sn_values (rg_baseline g))" by (simp add: snapshot_ok_def)
  from read obtain obj where "sn_values (rg_baseline g) = sn_values (decode_dp_object obj)"
    by (rule read_names_answer)
  then show "floats_exact (sn_values (rg_baseline g))"
    using snapshot_exact_decode [of obj] omap
    by (auto simp: floats_exact_def snapshot_exact_def omap.mitems_mfind)
  have "check_write n v = Inr ()" if "(n, v) \<in> set (sn_values (rg_baseline g))" for n v
  proof -
    have "n \<in> set names" using that assms(2) by force
    then obtain d where "catalog_find n = Some d" "dd_access d = ReadWrite" using rw by (auto simp: check_restorable_Inr)
    moreover have "well_typed n v" using that ok omap by (auto simp: snapshot_ok_def omap.mitems_mfind)
    ultimately show ?thesis by (auto simp: check_write_Inr well_typed_def writable_def)
  qed
  then have "collect_changes (sn_values (rg_baseline g)) [] =
      Inr (fold (\<lambda>(n, v). omap_put n v) (sn_values (rg_baseline g)) [])"
    by (intro collect_changes_put) auto
  then show "collect_changes (sn_values (rg_baseline g)) [] = Inr (sn_values (rg_baseline g))"
    by (simp add: fold_omap_put [OF omap])
qed

text \<open>
  C37: What a guard captured is what it writes back. The baseline holds exactly the values the device
  reported; if they pass validation, \<open>restore\<close> sends one \<open>dp_write\<close> whose members decode to exactly these
  values and returns what the device answers, and otherwise it sends nothing and returns the violation. In both
  cases the guard is disarmed. The device answered only what it was asked for.
\<close>

theorem restore_writes_baseline:
  assumes "capture sv names m = Inr (Inr g, m1, notes)"
    and "fst ` set (sn_values (rg_baseline g)) \<subseteq> set names" "sv_runner sv' = Some (Inr ())"
  shows "(\<exists>spec msg reported. async_read names InteractiveRead [] = Inr spec \<and> sv_device sv spec = Inr msg \<and>
      msg_value get_json msg ''dp'' (JObj []) = Inr reported \<and>
      sn_values (rg_baseline g) = sn_values (decode_dp_object reported)) \<and>
    (case ws_validate (sn_values (rg_baseline g)) of
       Inl e \<Rightarrow> restore sv' g m' = Inr (Inl e, dismiss g, m', [])
     | Inr _ \<Rightarrow> (\<exists>obj. decode_dp_object (JObj obj) = \<lparr>sn_values = sn_values (rg_baseline g), sn_unknown = []\<rparr> \<and>
         restore sv' g m' =
           bindE (write_response (sv_dump sv') (sv_fcast sv') (sv_now sv')
                    (sv_device sv' (write_request obj InteractiveControl)) m')
             (\<lambda>(r, m'', calls). Inr (r, dismiss g, m'', calls))))"
proof (intro conjI)
  note c = captured_collect [OF assms(1,2)]
  have "read_names sv names m = Inr (Inr (rg_baseline g), m1, notes)"
    using assms(1) by (simp add: capture_Inr)
  then show "\<exists>spec msg reported. async_read names InteractiveRead [] = Inr spec \<and> sv_device sv spec = Inr msg \<and>
      msg_value get_json msg ''dp'' (JObj []) = Inr reported \<and>
      sn_values (rg_baseline g) = sn_values (decode_dp_object reported)"
    by (rule read_names_answer) blast
  have r: "restore sv' g m' = bindE (bindE (async_write (sn_values (rg_baseline g))) (\<lambda>r.
         case r of Inl e \<Rightarrow> Inr (Inl e, m', [])
         | Inr spec \<Rightarrow> write_response (sv_dump sv') (sv_fcast sv') (sv_now sv') (sv_device sv' spec) m'))
       (\<lambda>(r, m'', calls). Inr (r, dismiss g, m'', calls))"
    using assms(3) by (simp add: restore_def c(1) write_blocking_def dismiss_def)
  show "case ws_validate (sn_values (rg_baseline g)) of
       Inl e \<Rightarrow> restore sv' g m' = Inr (Inl e, dismiss g, m', [])
     | Inr _ \<Rightarrow> (\<exists>obj. decode_dp_object (JObj obj) = \<lparr>sn_values = sn_values (rg_baseline g), sn_unknown = []\<rparr> \<and>
         restore sv' g m' =
           bindE (write_response (sv_dump sv') (sv_fcast sv') (sv_now sv')
                    (sv_device sv' (write_request obj InteractiveControl)) m')
             (\<lambda>(r, m'', calls). Inr (r, dismiss g, m'', calls)))"
  proof (cases "ws_validate (sn_values (rg_baseline g))")
    case (Inl e)
    then show ?thesis by (simp add: r async_write_def)
  next
    case (Inr u)
    then show ?thesis using async_write_sends [OF c(2) _ c(3)] by (auto simp: r)
  qed
qed

definition demo_report :: "jobj result" where
  "demo_report = Inr [(''dp'', JObj [(''Fon_Fault_Ack'', JInt 1)])]"

definition demo_guard :: restore_guard where
  "demo_guard = \<lparr>rg_baseline = \<lparr>sn_values = [(''Fon_Fault_Ack'', VU8 1)], sn_unknown = []\<rparr>, rg_armed = True\<rparr>"

lemma demo_capture:
  "\<exists>m notes. capture (demo_service demo_report) [''Fon_Fault_Ack''] demo_staged = Inr (Inr demo_guard, m, notes)"
proof -
  have v: "value_from_json (kDatapointDescriptors_1 ! 43) (JInt 1) = Inr (VU8 1)"
    using rne_of_int [of 1] by (simp add: value_from_json_def fault_ack_sel narrow_def)
  have "\<exists>m notes. read_names (demo_service demo_report) [''Fon_Fault_Ack''] demo_staged =
      Inr (Inr (rg_baseline demo_guard), m, notes)"
    by (simp add: get_json_def surj_pair read_names_def sync_wait_def demo_service_def async_read_def find_fault_ack read_response_def
        demo_report_def msg_value_def decode_dp_object_def v case_prod_beta Let_def demo_guard_def snapshot_set_def
        empty_snapshot_def)
  then show ?thesis
    by (simp add: capture_Inr find_fault_ack fault_ack_sel) (simp add: demo_guard_def)
qed

theorem restore_writes_baseline_witness:
  "ws_validate (sn_values (rg_baseline demo_guard)) = Inr () \<and>
   (\<exists>obj. decode_dp_object (JObj obj) = rg_baseline demo_guard \<and>
     restore (demo_service (Inr [])) demo_guard make_manager =
       bindE (write_response (\<lambda>j. Inr []) (\<lambda>f. 0) 0 (Inr []) make_manager)
         (\<lambda>(r, m :: nat manager, calls). Inr (r, dismiss demo_guard, m, calls)))"
proof -
  obtain m calls where c:
    "capture (demo_service demo_report) [''Fon_Fault_Ack''] demo_staged = Inr (Inr demo_guard, m, calls)"
    using demo_capture by blast
  have "fst ` set (sn_values (rg_baseline demo_guard)) \<subseteq> set [''Fon_Fault_Ack'']"
    "sv_runner (demo_service (Inr [])) = Some (Inr ())"
    by (simp_all add: demo_guard_def demo_service_def)
  from restore_writes_baseline [OF c this, of "make_manager :: nat manager"] show ?thesis
    using demo_valid by (simp add: demo_guard_def demo_service_def)
qed

text \<open>
  A guard that restored, was dismissed or was moved from does nothing when it is destroyed; one that is
  still armed restores. So a guard that only passes from scope to scope restores once.
\<close>

lemma restore_disarms: "restore sv g m = Inr (r, g', m', notes) \<Longrightarrow> g' = dismiss g"
  by (auto simp: restore_def dismiss_def exec_simps Let_def split: sum.splits)

lemma destroy_disarmed [simp]: "guard_destroy sv (dismiss g) m = Inr (m, [])"
  by (simp add: guard_destroy_def dismiss_def)

lemma destroy_moved [simp]: "guard_destroy sv (snd (guard_move g)) m = Inr (m, [])"
  by (simp add: guard_destroy_def guard_move_def)

lemma restored_scope_end:
  "restore sv g m = Inr (r, g', m', notes) \<Longrightarrow> guard_destroy sv' g' m'' = Inr (m'', [])"
  by (drule restore_disarms) simp

end
