(* ===== verification/Printing.thy ===== *)
theory Printing
  imports Numbers
begin

text \<open>
  The number formatting of the C and C++ output functions the example programs use: \<open>%g\<close>, which is also
  the default of \<open>std::ostream\<close> for floating point numbers, and left-justified fields of \<open>printf\<close>.
\<close>

section \<open>Six significant digits\<close>

text \<open>The decimal exponent of a positive number: the \<open>e\<close> with \<open>10\<^sup>e \<le> x < 10\<^sup>e\<^sup>+\<^sup>1\<close>.\<close>

definition decimal_exponent :: "rat \<Rightarrow> int" where
  "decimal_exponent x =
    (if 1 \<le> x then int (length (nat_dec (nat \<lfloor>x\<rfloor>))) - 1 else - int (length (nat_dec (nat (\<lceil>1 / x\<rceil> - 1)))))"

text \<open>
  Scientific form: \<open>(n, e)\<close> with \<open>n\<close> of six digits, for \<open>n / 10\<^sup>5\<close> times \<open>10\<^sup>e\<close>, rounded to even; rounding
  up to seven digits moves the exponent.
\<close>

definition six_digits :: "rat \<Rightarrow> nat \<times> int" where
  "six_digits x =
    (let e = decimal_exponent x; n = nat (rne (x * 10 powi (5 - e)))
     in if n = 10 ^ 6 then (10 ^ 5, e + 1) else (n, e))"

definition strip_zeros :: "string \<Rightarrow> string" where
  "strip_zeros s = rev (dropWhile (\<lambda>c. c = CHR ''0'') (rev s))"

definition with_fraction :: "string \<Rightarrow> string \<Rightarrow> string" where
  "with_fraction whole places = (let f = strip_zeros places in if f = [] then whole else whole @ CHR ''.'' # f)"

definition exponent_string :: "int \<Rightarrow> string" where
  "exponent_string e =
     CHR ''e'' # (if e < 0 then CHR ''-'' else CHR ''+'') #
     (let s = nat_dec (nat \<bar>e\<bar>) in if length s < 2 then CHR ''0'' # s else s)"

definition positive_string :: "rat \<Rightarrow> string" where
  "positive_string x =
    (let (n, e) = six_digits x; s = nat_dec n in
     if e < - 4 \<or> 6 \<le> e then with_fraction (take 1 s) (drop 1 s) @ exponent_string e
     else if e < 0 then with_fraction ''0'' (replicate (nat (- e) - 1) (CHR ''0'') @ s)
     else with_fraction (take (nat e + 1) s) (drop (nat e + 1) s))"

text \<open>\<open>printf("%g")\<close> and \<open>std::cout << x\<close>.\<close>

definition general_string :: "fp \<Rightarrow> string" where
  "general_string f =
    (case f of
       FNaN \<Rightarrow> ''nan''
     | FInf neg \<Rightarrow> (if neg then ''-inf'' else ''inf'')
     | FFin x \<Rightarrow>
        (if x = 0 then ''0'' else if x < 0 then CHR ''-'' # positive_string (- x) else positive_string x))"

text \<open>\<open>printf("%-<w>s")\<close>: no truncation.\<close>

definition left_field :: "nat \<Rightarrow> string \<Rightarrow> string" where
  "left_field w s = s @ replicate (w - length s) (CHR '' '')"

section \<open>Laws\<close>

lemma nat_dec_length: "0 < n \<Longrightarrow> 10 ^ (length (nat_dec n) - 1) \<le> n \<and> n < 10 ^ length (nat_dec n)"
proof (induction n rule: nat_dec.induct)
  case (1 n)
  show ?case
  proof (cases "n < 10")
    case False
    define k where "k = length (nat_dec (n div 10))"
    have "0 < k" by (subst k_def, subst nat_dec.simps) simp
    then have "(10 :: nat) ^ k = 10 * 10 ^ (k - 1)" by (cases k) simp_all
    moreover have "10 ^ (k - 1) \<le> n div 10" "n div 10 < 10 ^ k" using 1 False by (auto simp: k_def)
    moreover have "length (nat_dec n) = Suc k" using False by (subst nat_dec.simps) (simp add: k_def)
    ultimately show ?thesis by (simp add: less_eq_div_iff_mult_less_eq div_less_iff_less_mult mult.commute)
  qed (use 1 in \<open>simp add: nat_dec.simps [of n]\<close>)
qed

lemma nat_dec_nonempty: "0 < length (nat_dec n)"
  by (subst nat_dec.simps) simp

lemma decimal_exponent_bounds:
  assumes "0 < x"
  shows "10 powi decimal_exponent x \<le> x \<and> x < 10 powi (decimal_exponent x + 1)"
proof (cases "1 \<le> x")
  case True
  define n where "n = nat \<lfloor>x\<rfloor>"
  define k where "k = length (nat_dec n)"
  have n: "0 < n" "of_nat n \<le> x" "x < of_nat n + 1" using True by (simp_all add: n_def) linarith+
  have k: "0 < k" by (simp add: k_def nat_dec_nonempty)
  have b: "10 ^ (k - 1) \<le> n" "n + 1 \<le> 10 ^ k" using nat_dec_length [OF n(1)] by (simp_all add: k_def)
  have "(10 ^ (k - 1) :: rat) \<le> of_nat n" "(of_nat n + 1 :: rat) \<le> 10 ^ k"
    using b [THEN of_nat_mono, where ?'a = rat] by simp_all
  then have "10 ^ (k - 1) \<le> x" "x < 10 ^ k" using n by linarith+
  moreover have "decimal_exponent x = int (k - 1)" 
    using True k by (simp add: decimal_exponent_def n_def [symmetric] k_def [symmetric] of_nat_diff)
  moreover have "decimal_exponent x + 1 = int k" using calculation(3) k by simp
  ultimately show ?thesis by (simp only: power_int_of_nat)
next
  case False
  define c where "c = nat (\<lceil>1 / x\<rceil> - 1)"
  define k where "k = length (nat_dec c)"
  have y: "1 < 1 / x" using False assms by simp
  then have "1 < \<lceil>1 / x\<rceil>" by linarith
  then have c: "0 < c" "of_nat c < 1 / x" "1 / x \<le> of_nat c + 1" by (simp_all add: c_def) linarith+
  have k: "0 < k" by (simp add: k_def nat_dec_nonempty)
  have b: "10 ^ (k - 1) \<le> c" "c + 1 \<le> 10 ^ k" using nat_dec_length [OF c(1)] by (simp_all add: k_def)
  have "(10 ^ (k - 1) :: rat) \<le> of_nat c" "(of_nat c + 1 :: rat) \<le> 10 ^ k"
    using b [THEN of_nat_mono, where ?'a = rat] by simp_all
  then have "10 ^ (k - 1) < 1 / x" "1 / x \<le> 10 ^ k" using c by linarith+
  then have "x < 1 / 10 ^ (k - 1)" "1 / 10 ^ k \<le> x" using assms by (simp_all add: field_simps)
  moreover have e: "decimal_exponent x = - int k" using False by (simp add: decimal_exponent_def k_def c_def)
  moreover have "decimal_exponent x + 1 = - int (k - 1)" using e k by simp
  ultimately show ?thesis by (simp only: power_int_minus power_int_of_nat) (simp add: field_simps)
qed

end
