(* ===== verification/Examples.thy ===== *)
theory Examples
  imports Cli Guard Printing
begin

text \<open>
  The three small example programs (\<open>examples/simple_client.cpp\<close>, \<open>examples/polling_client.cpp\<close> and
  \<open>examples/config_editor.cpp\<close>) as functions from what they meet to exit code and printed lines, as the
  command-line tool is modelled. The \<open>k\<close>-th blocking call meets the environment \<open>ee_services k\<close>, and
  \<open>ee_between k\<close> is what the messages that arrive before it did to the datapoint manager.
\<close>

section \<open>Environment\<close>

text \<open>What reaches callbacks while a program waits.\<close>

datatype activity = Act_event event | Act_change change

record 'h example_env =
  ee_files :: filesystem
  ee_connect :: "'h client \<Rightarrow> connection_info result"
  ee_services :: "nat \<Rightarrow> service_env"
  ee_between :: "nat \<Rightarrow> 'h manager \<Rightarrow> 'h manager"
  ee_activity :: "activity list"
  ee_stats :: poll_stats

definition blocking_call ::
  "('h, 'z) example_env_scheme \<Rightarrow> nat \<Rightarrow> (service_env \<Rightarrow> 'h manager \<Rightarrow> ('a result \<times> 'h manager \<times> 'n list) exec) \<Rightarrow>
    'h manager \<Rightarrow> ('a result \<times> 'h manager) exec" where
  "blocking_call ee k f m = bindE (f (ee_services ee k) (ee_between ee k m)) (\<lambda>(r, m', calls). Inr (r, m'))"

section \<open>Constants and output\<close>

definition dp_Device_Serial_Number :: typed_datapoint where
  "dp_Device_Serial_Number = typed C_u64 ReadOnly Static 0 ''Device_Serial_Number''"

definition dp_Device_SW_Version :: typed_datapoint where
  "dp_Device_SW_Version = typed C_string ReadOnly Static 2 ''Device_SW_Version''"

definition dp_System_RSSI :: typed_datapoint where
  "dp_System_RSSI = typed C_i8 ReadOnly Volatile 10 ''System_RSSI''"

definition dp_System_Uptime :: typed_datapoint where
  "dp_System_Uptime = typed C_u32 ReadOnly Volatile 11 ''System_Uptime''"

definition dp_Fon_Current_Pressure :: typed_datapoint where
  "dp_Fon_Current_Pressure = typed C_float ReadOnly Volatile 25 ''Fon_Current_Pressure''"

definition dp_Fon_Current_State :: typed_datapoint where
  "dp_Fon_Current_State = typed C_u8 ReadOnly Volatile 27 ''Fon_Current_State''"

definition dp_Fon_Relay_Output :: typed_datapoint where
  "dp_Fon_Relay_Output = typed C_bool ReadOnly Volatile 28 ''Fon_Relay_Output''"

definition dp_Fon_Fault_Code :: typed_datapoint where
  "dp_Fon_Fault_Code = typed C_u8 ReadOnly Volatile 39 ''Fon_Fault_Code''"

definition dp_Fon_Event_Label :: typed_datapoint where
  "dp_Fon_Event_Label = typed C_u8 ReadWrite Volatile 44 ''Fon_Event_Label''"

definition dp_Fon_Min_Pressure :: typed_datapoint where
  "dp_Fon_Min_Pressure = typed C_float ReadWrite Nvs 47 ''Fon_Min_Pressure''"

definition dp_Fon_Max_Pressure :: typed_datapoint where
  "dp_Fon_Max_Pressure = typed C_float ReadWrite Nvs 48 ''Fon_Max_Pressure''"

definition dp_Fon_Alert_High_Pressure :: typed_datapoint where
  "dp_Fon_Alert_High_Pressure = typed C_float ReadWrite Nvs 49 ''Fon_Alert_High_Pressure''"

definition dp_Fon_Alert_Low_Pressure :: typed_datapoint where
  "dp_Fon_Alert_Low_Pressure = typed C_float ReadWrite Nvs 50 ''Fon_Alert_Low_Pressure''"

definition dp_Fon_Min_On_Time :: typed_datapoint where
  "dp_Fon_Min_On_Time = typed C_u16 ReadWrite Nvs 51 ''Fon_Min_On_Time''"

definition dp_Fon_Report_Interval :: typed_datapoint where
  "dp_Fon_Report_Interval = typed C_u16 ReadWrite Nvs 57 ''Fon_Report_Interval''"

text \<open>\<open>std::cout << x\<close> for a value of each C++ type; the 8-bit types are characters.\<close>

fun stream_value :: "datapoint_value \<Rightarrow> string" where
  "stream_value (VBool b) = (if b then ''1'' else ''0'')"
| "stream_value (VU8 w) = [char_of (unat w)]"
| "stream_value (VU16 w) = nat_dec (unat w)"
| "stream_value (VU32 w) = nat_dec (unat w)"
| "stream_value (VU64 w) = nat_dec (unat w)"
| "stream_value (VI8 w) = [char_of (nat (uint w))]"
| "stream_value (VI16 w) = int_dec (sint w)"
| "stream_value (VI32 w) = int_dec (sint w)"
| "stream_value (VF32 f) = general_string f"
| "stream_value (VStr s) = s"

definition float_value :: "rat \<Rightarrow> datapoint_value" where
  "float_value x = VF32 (fround32 x)"

definition program_name :: "string list \<Rightarrow> string" where
  "program_name argv = (case argv of [] \<Rightarrow> [] | a # _ \<Rightarrow> a)"

definition error_exit :: "error \<Rightarrow> int \<times> line list" where
  "error_exit e = (1, [Err (error_to_string e)])"

definition prepend :: "line list \<Rightarrow> cli_result \<Rightarrow> cli_result" where
  "prepend ls r = bindE r (\<lambda>(code, rest). Inr (code, ls @ rest))"

section \<open>Setting up\<close>

definition local_endpoint :: "string \<Rightarrow> endpoint" where
  "local_endpoint host = \<lparr>ep_host = host, ep_port = 4443, ep_path = ''/ws'', ep_subprotocol = ''fountain''\<rparr>"

definition argv_tls :: "string list \<Rightarrow> tls_credentials" where
  "argv_tls argv = mutual_tls (argv ! 2) (argv ! 3) (argv ! 4) VerifyCertificateChainOnly"

definition example_usage :: "string \<Rightarrow> string" where
  "example_usage program = ''usage: '' @ program @ '' <host> <ca> <crt> <key> <kid> <hmac_file>''"

text \<open>\<open>polling_client\<close> and \<open>config_editor\<close> ignore the status of both setters.\<close>

definition lenient_setup :: "filesystem \<Rightarrow> string list \<Rightarrow> 'h client result" where
  "lenient_setup fs argv =
    (let c = make_client (local_endpoint (argv ! 1));
         s1 = snd (set_tls fs (argv_tls argv) (cl_security c))
     in case hmac_from_file fs (argv ! 5) (argv ! 6) of
          Inl e \<Rightarrow> Inl e
        | Inr hmac \<Rightarrow> Inr (c\<lparr>cl_security := snd (set_hmac hmac s1)\<rparr>))"

definition lenient_main ::
  "'h example_env \<Rightarrow> string list \<Rightarrow> (connection_info \<Rightarrow> 'h client \<Rightarrow> cli_result) \<Rightarrow> cli_result" where
  "lenient_main ee argv body =
    (if length argv < 7 then Inr (2, [Err (example_usage (program_name argv))])
     else case lenient_setup (ee_files ee) argv of
       Inl e \<Rightarrow> Inr (error_exit e)
     | Inr c \<Rightarrow> (case ee_connect ee c of Inl e \<Rightarrow> Inr (error_exit e) | Inr i \<Rightarrow> body i c))"

section \<open>Simple client\<close>

definition simple_setup :: "filesystem \<Rightarrow> string list \<Rightarrow> 'h client result" where
  "simple_setup fs argv =
    (let c = make_client (local_endpoint (argv ! 1)) in
     case set_tls fs (argv_tls argv) (cl_security c) of
       (Inl e, s1) \<Rightarrow> Inl e
     | (Inr _, s1) \<Rightarrow>
        (let s2 = (if 7 < length argv then set_expected_device_id (argv ! 7) s1 else s1) in
         case hmac_from_file fs (argv ! 5) (argv ! 6) of
           Inl e \<Rightarrow> Inl e
         | Inr hmac \<Rightarrow> Inr (c\<lparr>cl_security := snd (set_hmac hmac s2)\<rparr>)))"

definition rejected_lines :: "string \<Rightarrow> write_result \<Rightarrow> line list" where
  "rejected_lines indent r = map (\<lambda>e. Err (indent @ we_datapoint e @ '': '' @ we_reason e)) (wr_errors r)"

definition simple_write_lines :: "write_result result \<Rightarrow> line list" where
  "simple_write_lines r =
    (case r of
       Inl e \<Rightarrow> [Err (error_to_string e)]
     | Inr w \<Rightarrow> if \<not> applied w then rejected_lines [] w else [Out ''Fon_Event_Label written, readback ok''])"

definition simple_body :: "'h example_env \<Rightarrow> connection_info \<Rightarrow> 'h client \<Rightarrow> cli_result" where
  "simple_body ee i c =
     prepend [Out (''device='' @ ci_device_id i @ '' fw='' @ ci_firmware_version i)]
      (bindE (blocking_call ee 0 (\<lambda>sv. read_typed sv dp_Fon_Current_Pressure) (cl_datapoints c)) (\<lambda>(pressure, m1).
        case pressure of
          Inl e \<Rightarrow> Inr (error_exit e)
        | Inr v \<Rightarrow>
           bindE (blocking_call ee 1 (\<lambda>sv. write_datapoint sv dp_Fon_Event_Label (VU8 7)) m1) (\<lambda>(w, m2).
             Inr (0, Out (''pressure = '' @ stream_value v @ '' bar'') # simple_write_lines w @ [Disconnect_call]))))"

definition simple_client :: "'h example_env \<Rightarrow> string list \<Rightarrow> cli_result" where
  "simple_client ee argv =
    (if length argv < 7 then Inr (2, [Err (example_usage (program_name argv) @ '' [device_id]'')])
     else case simple_setup (ee_files ee) argv of
       Inl e \<Rightarrow> Inr (error_exit e)
     | Inr c \<Rightarrow> (case ee_connect ee c of Inl e \<Rightarrow> Inr (error_exit e) | Inr i \<Rightarrow> simple_body ee i c))"

section \<open>Polling client\<close>

datatype example_callback = Alert_callback | Pressure_callback

fun polling_activity :: "activity \<Rightarrow> line list" where
  "polling_activity (Act_event (Ev_alert a)) = [Err (''ALERT '' @ da_code a @ '' '' @ da_detail a)]"
| "polling_activity (Act_event e) = []"
| "polling_activity (Act_change ch) =
    (if dd_name (ch_descriptor ch) = td_name dp_Fon_Current_Pressure
     then case typed_callback C_float ch of
            None \<Rightarrow> [] | Some t \<Rightarrow> [Out (''pressure='' @ stream_value (tg_value t))]
     else [])"

definition polling_plan :: "poller \<Rightarrow> poller" where
  "polling_plan p =
     poll_start (once_typed [dp_Device_Serial_Number, dp_Device_SW_Version]
       (every_typed 5000 [dp_System_RSSI, dp_System_Uptime, dp_Fon_Fault_Code]
         (every_typed 1000 [dp_Fon_Current_Pressure, dp_Fon_Current_State, dp_Fon_Relay_Output] p)))"

definition polling_wiring :: "example_callback client \<Rightarrow> example_callback client" where
  "polling_wiring c =
     c\<lparr>cl_events := snd (attach Ch_alert Alert_callback (cl_events c)),
       cl_datapoints := snd (subscribe_typed dp_Fon_Current_Pressure Pressure_callback (cl_datapoints c)),
       cl_poller := polling_plan (cl_poller c)\<rparr>"

definition last_pressure :: "'h manager \<Rightarrow> line list" where
  "last_pressure m =
    (case cached_typed dp_Fon_Current_Pressure m of
       None \<Rightarrow> []
     | Some cv \<Rightarrow> [Out (''last pressure: '' @ stream_value (cv_value cv) @ '' ('' @ quality_to_string (cv_quality cv) @ '')'')])"

text \<open>The program waits for a signal; \<open>ee_activity\<close> is what the callbacks got until then.\<close>

definition polling_body :: "example_callback example_env \<Rightarrow> connection_info \<Rightarrow> example_callback client \<Rightarrow> cli_result" where
  "polling_body ee i c =
    (let m = ee_between ee 0 (cl_datapoints (polling_wiring c)) in
     Inr (0, concat (map polling_activity (ee_activity ee)) @ last_pressure m @
             [Out (''requests='' @ nat_dec (unat (ps_requests (ee_stats ee))) @ '' coalesced='' @
                   nat_dec (unat (ps_coalesced_points (ee_stats ee)))), Disconnect_call]))"

definition polling_client :: "example_callback example_env \<Rightarrow> string list \<Rightarrow> cli_result" where
  "polling_client ee argv = lenient_main ee argv (polling_body ee)"

section \<open>Configuration editor\<close>

definition current_lines :: "snapshot \<Rightarrow> line list" where
  "current_lines config =
    (case (snapshot_get dp_Fon_Min_Pressure config, snapshot_get dp_Fon_Max_Pressure config) of
       (Inr lo, Inr hi) \<Rightarrow> [Out (''current min='' @ stream_value lo @ '' max='' @ stream_value hi)]
     | _ \<Rightarrow> [])"

definition editor_edits :: "'h manager \<Rightarrow> 'h manager exec" where
  "editor_edits m =
     bindE (stage_typed dp_Fon_Min_Pressure (float_value 2.1) m) (\<lambda>(st1, m1).
     bindE (stage_typed dp_Fon_Max_Pressure (float_value 3.6) m1) (\<lambda>(st2, m2). Inr m2))"

definition editor_commit_lines :: "write_result \<Rightarrow> int \<times> line list" where
  "editor_commit_lines w =
    (if \<not> applied w then (3, Err ''device rejected:'' # rejected_lines ''  '' w)
     else (0, [Out (''applied'' @ (case wr_warning w of None \<Rightarrow> [] | Some t \<Rightarrow> '' (warning: '' @ t @ '')'')),
               Disconnect_call]))"

definition editor_commit :: "'h example_env \<Rightarrow> 'h manager \<Rightarrow> cli_result" where
  "editor_commit ee m =
    (case validate_staged m of
       Inl e \<Rightarrow> Inr (1, [Err (''validation: '' @ error_to_string e)])
     | Inr _ \<Rightarrow>
        (if has_staged_changes m
         then bindE (blocking_call ee 1 commit m) (\<lambda>(r, m').
                Inr (case r of Inl e \<Rightarrow> error_exit e | Inr w \<Rightarrow> editor_commit_lines w))
         else Inr (0, [Disconnect_call])))"

definition editor_body :: "'h example_env \<Rightarrow> connection_info \<Rightarrow> 'h client \<Rightarrow> cli_result" where
  "editor_body ee i c =
     bindE (blocking_call ee 0 (\<lambda>sv. read_several sv [dp_Fon_Min_Pressure, dp_Fon_Max_Pressure,
              dp_Fon_Alert_Low_Pressure, dp_Fon_Alert_High_Pressure]) (cl_datapoints c)) (\<lambda>(config, m1).
       case config of
         Inl e \<Rightarrow> Inr (error_exit e)
       | Inr snap \<Rightarrow> prepend (current_lines snap) (bindE (editor_edits m1) (editor_commit ee)))"

definition config_editor :: "'h example_env \<Rightarrow> string list \<Rightarrow> cli_result" where
  "config_editor ee argv = lenient_main ee argv (editor_body ee)"

end
