(* ===== verification/Tutorial.thy ===== *)
theory Tutorial
  imports Examples
begin

text \<open>
  The annotated tutorial \<open>src/Example.cpp\<close>, section by section: its class \<open>DeviceExample\<close> is a record of the
  client, the connection information and the event subscriptions, and every section maps it to its
  successor and the lines it prints. Lines that event callbacks print at other times are given by
  \<open>event_line\<close>.
\<close>

section \<open>State and environment\<close>

datatype tutorial_callback = State_cb | Alert_cb | Heartbeat_cb | Warning_cb | Pressure_cb | Uptime_cb

record tutorial =
  tu_client :: "tutorial_callback client"
  tu_info :: connection_info
  tu_subscriptions :: "subscription list"
  tu_calls :: nat

text \<open>
  Beside what every example meets: the pages of the complete log, the client as the IO thread has left it
  when the metrics are read and after \<open>disconnect\<close>, and what \<open>load_config\<close> needs.
\<close>

record tutorial_env = "tutorial_callback example_env" +
  te_pages :: "nat \<Rightarrow> service_env"
  te_progress :: "tutorial_callback client \<Rightarrow> tutorial_callback client"
  te_closed :: "tutorial_callback client \<Rightarrow> tutorial_callback client"
  te_exists :: "string \<Rightarrow> bool"
  te_parse :: "string \<Rightarrow> json exec"
  te_fcast :: "fp \<Rightarrow> int"
  te_what :: "exn \<Rightarrow> string"

type_synonym tstep = "tutorial \<Rightarrow> (tutorial \<times> line list) exec"

definition tu_manager :: "tutorial \<Rightarrow> tutorial_callback manager" where
  "tu_manager s = cl_datapoints (tu_client s)"

definition set_manager :: "tutorial_callback manager \<Rightarrow> tutorial \<Rightarrow> tutorial" where
  "set_manager m s = s\<lparr>tu_client := (tu_client s)\<lparr>cl_datapoints := m\<rparr>\<rparr>"

definition tu_call ::
  "tutorial_env \<Rightarrow> (service_env \<Rightarrow> tutorial_callback manager \<Rightarrow> ('a result \<times> tutorial_callback manager \<times> 'n list) exec) \<Rightarrow>
    tutorial \<Rightarrow> ('a result \<times> tutorial) exec" where
  "tu_call te f s =
     bindE (blocking_call te (tu_calls s) f (tu_manager s)) (\<lambda>(r, m).
       Inr (r, (set_manager m s)\<lparr>tu_calls := Suc (tu_calls s)\<rparr>))"

text \<open>A call of a service without a part in the manager.\<close>

definition tu_ask :: "tutorial_env \<Rightarrow> (service_env \<Rightarrow> 'a result exec) \<Rightarrow> tutorial \<Rightarrow> ('a result \<times> tutorial) exec" where
  "tu_ask te f s = tu_call te (\<lambda>sv m. bindE (f sv) (\<lambda>r. Inr (r, m, [] :: unit list))) s"

definition then_do :: "tstep \<Rightarrow> tstep \<Rightarrow> tstep" where
  "then_do f g s = bindE (f s) (\<lambda>(s1, l1). bindE (g s1) (\<lambda>(s2, l2). Inr (s2, l1 @ l2)))"

definition heading :: "string \<Rightarrow> line list" where
  "heading t = [Out [], Out (''=== '' @ t @ '' ==='')]"

section \<open>Setting up\<close>

definition tutorial_reconnect :: reconnect_policy where
  "tutorial_reconnect = (op_reconnect default_options)\<lparr>rp_enabled := True, rp_initial_delay := 1, rp_max_delay := 60\<rparr>"

text \<open>The constructor registers the event callbacks before \<open>connect\<close>.\<close>

definition device_example :: "tutorial_callback client \<Rightarrow> tutorial" where
  "device_example c =
    (let (s1, b1) = attach Ch_state State_cb (cl_events c);
         (s2, b2) = attach Ch_alert Alert_cb b1;
         (s3, b3) = attach Ch_heartbeat Heartbeat_cb b2;
         (s4, b4) = attach Ch_warning Warning_cb b3
     in \<lparr>tu_client = c\<lparr>cl_events := b4\<rparr>, tu_info = empty_info, tu_subscriptions = [s1, s2, s3, s4], tu_calls = 0\<rparr>)"

definition create :: "filesystem \<Rightarrow> config \<Rightarrow> tutorial result" where
  "create fs cfg =
    (case hmac_from_file fs (fc_kid (co_fountain cfg)) (fc_hmac_key_file (co_fountain cfg)) of
       Inl e \<Rightarrow> Inl e
     | Inr hmac \<Rightarrow>
        (let d = co_device cfg; t = co_tls cfg;
             b = with_reconnect tutorial_reconnect (with_expected_device (fc_device_id (co_fountain cfg))
                  (with_hmac hmac (with_tls (mutual_tls (tl_ca_file t) (tl_client_cert_file t) (tl_client_key_file t)
                      VerifyCertificateChainOnly)
                    (make_builder \<lparr>ep_host = dc_host d, ep_port = dc_port d, ep_path = dc_path d,
                       ep_subprotocol = dc_subprotocol d\<rparr>))))
         in case build fs b of Inl e \<Rightarrow> Inl e | Inr c \<Rightarrow> Inr (device_example c)))"

fun event_line :: "event \<Rightarrow> line list" where
  "event_line (Ev_state ch) =
     [Out (''[event] State: '' @ client_state_to_string (sc_previous ch) @ '' -> '' @ client_state_to_string (sc_current ch) @
        (case sc_cause ch of None \<Rightarrow> [] | Some e \<Rightarrow> '' ('' @ error_to_string e @ '')''))]"
| "event_line (Ev_alert a) = [Out (''[event] ALARM '' @ da_code a @ '': '' @ da_detail a)]"
| "event_line (Ev_heartbeat h) = [Out (''[event] Heartbeat, uptime='' @ nat_dec (unat (hb_uptime_s h)) @ '' s'')]"
| "event_line (Ev_warning w) = [Out (''[event] Protocol notice: '' @ pw_reason w)]"
| "event_line _ = []"

section \<open>Connecting\<close>

definition tutorial_connect :: "tutorial_env \<Rightarrow> tutorial \<Rightarrow> bool \<times> tutorial \<times> line list" where
  "tutorial_connect te s =
    (case ee_connect te (tu_client s) of
       Inl e \<Rightarrow> (False, s, heading ''1. Connecting'' @ [Err (''Connection failed: '' @ error_to_string e)])
     | Inr i \<Rightarrow> (True, s\<lparr>tu_info := i\<rparr>, heading ''1. Connecting''))"

definition show_connection_info :: tstep where
  "show_connection_info s =
    (let i = tu_info s in
     Inr (s, heading ''2. Device information (from the handshake)'' @
       [Out (''  device_id : '' @ ci_device_id i), Out (''  serial    : '' @ ci_serial i),
        Out (''  firmware  : '' @ ci_firmware_version i), Out (''  hardware  : '' @ ci_hardware_revision i),
        Out (''  boot      : '' @ ci_boot_reason i),
        Out (''  protocol  : v'' @ nat_dec (unat (ci_protocol_version i))),
        Out (''  auth      : '' @ ci_auth_scheme i @ '' (kid='' @ ci_auth_kid i @ '')'')]))"

section \<open>Reading\<close>

text \<open>\<open>int(x)\<close> of the 8-bit types.\<close>

fun int_text :: "datapoint_value \<Rightarrow> string" where
  "int_text (VU8 w) = nat_dec (unat w)"
| "int_text (VI8 w) = int_dec (sint w)"
| "int_text v = stream_value v"

definition status_lines :: "snapshot \<Rightarrow> line list" where
  "status_lines snap =
    (case (snapshot_get dp_Fon_Current_State snap, snapshot_get dp_Fon_Relay_Output snap,
           snapshot_get dp_System_Uptime snap, snapshot_get dp_System_RSSI snap) of
       (Inr state, Inr relay, Inr uptime, Inr rssi) \<Rightarrow>
         [Out (''  State='' @ int_text state @ '' Relay='' @ (if relay = VBool True then ''ON'' else ''off'') @
            '' Uptime='' @ stream_value uptime @ '' s RSSI='' @ int_text rssi @ '' dBm'')]
     | _ \<Rightarrow> [])"

definition read_single_and_multi :: "tutorial_env \<Rightarrow> tstep" where
  "read_single_and_multi te s =
     bindE (tu_call te (\<lambda>sv. read_typed sv dp_Fon_Current_Pressure) s) (\<lambda>(pressure, s1).
     bindE (tu_call te (\<lambda>sv. read_several sv [dp_Fon_Current_State, dp_Fon_Relay_Output, dp_System_Uptime,
              dp_System_RSSI]) s1) (\<lambda>(snap, s2).
       Inr (s2, heading ''3. Typed reads'' @
         [case pressure of
            Inl e \<Rightarrow> Out (''  Pressure read failed: '' @ error_to_string e)
          | Inr v \<Rightarrow> Out (''  Pressure: '' @ stream_value v @ '' bar'')] @
         (case snap of Inl e \<Rightarrow> [] | Inr sn \<Rightarrow> status_lines sn))))"

definition ambient_lines :: "datapoint_value result \<Rightarrow> line list exec" where
  "ambient_lines r =
    (case r of
       Inl e \<Rightarrow> Inr []
     | Inr v \<Rightarrow>
        (case catalog_find ''Ambient_Temperature'' of
           None \<Rightarrow> null_pointer
         | Some d \<Rightarrow> Inr [Out (''  Ambient_Temperature = '' @ to_display_string d v)]))"

definition read_dynamic :: "tutorial_env \<Rightarrow> tstep" where
  "read_dynamic te s =
     bindE (tu_call te (\<lambda>sv. read_one sv ''Ambient_Temperature'') s) (\<lambda>(value, s1).
     bindE (ambient_lines value) (\<lambda>ls.
     bindE (tu_call te (\<lambda>sv. read_one sv ''Does_Not_Exist'') s1) (\<lambda>(unknown, s2).
       Inr (s2, heading ''3b. Dynamic reads (runtime name)'' @ ls @
         [Out (''  Unknown name -> '' @ (case unknown of Inl e \<Rightarrow> code_to_string (err_code e) | Inr v \<Rightarrow> ''?''))]))))"

section \<open>The listing of all datapoints\<close>

definition row :: "string \<Rightarrow> string \<Rightarrow> string \<Rightarrow> string \<Rightarrow> string \<Rightarrow> string \<Rightarrow> line" where
  "row name ty rw persist limits shown =
     Out (''  '' @ left_field 26 name @ '' '' @ left_field 4 ty @ '' '' @ left_field 2 rw @ '' '' @
       left_field 8 persist @ '' '' @ left_field 12 limits @ '' '' @ shown)"

text \<open>\<open>snprintf\<close> into a buffer of 32 characters.\<close>

definition range_text :: "datapoint_descriptor \<Rightarrow> string" where
  "range_text d =
    (if numeric d \<and> dd_min d \<noteq> FNaN then take 31 (general_string (dd_min d) @ ''..'' @ general_string (dd_max d)) else ''-'')"

definition sensitive :: "datapoint_descriptor \<Rightarrow> bool" where
  "sensitive d \<longleftrightarrow> dd_poll_class d = Poll_Disabled \<and> dd_type d = T_Str"

definition hidden_text :: string where
  "hidden_text = concat (replicate 3 [CHR 0xE2, CHR 0x80, CHR 0xA2]) @ '' (sensitive, not shown)''"

definition listing_row :: "snapshot \<Rightarrow> datapoint_descriptor \<Rightarrow> line" where
  "listing_row snap d =
     row (dd_name d) (type_to_string (dd_type d)) (access_to_string (dd_access d)) (persistence_to_string (dd_persistence d))
       (range_text d)
       (case map_of (sn_values snap) (dd_name d) of
          None \<Rightarrow> ''(missing)''
        | Some v \<Rightarrow> if sensitive d then hidden_text else c_string (to_display_string d v))"

definition listing :: "snapshot \<Rightarrow> line list" where
  "listing snap =
     row ''Name'' ''Type'' ''RW'' ''Persist'' ''Range'' ''Value'' # map (listing_row snap) kDatapointDescriptors @
     [Out (''  -> '' @ nat_dec (length (sn_values snap)) @ '' of '' @ nat_dec kDatapointCount @ '' datapoints read'')]"

definition list_all_datapoints :: "tutorial_env \<Rightarrow> tstep" where
  "list_all_datapoints te s =
     bindE (tu_call te read_all s) (\<lambda>(r, s1).
       Inr (s1, heading ''4. ALL datapoints (catalog + live values)'' @
         (case r of Inl e \<Rightarrow> [Out (''  read_all failed: '' @ error_to_string e)] | Inr snap \<Rightarrow> listing snap)))"

section \<open>Cache, subscriptions and polling\<close>

definition cache_example :: tstep where
  "cache_example s =
     Inr (s, heading ''5. Cache (never the network)'' @
       (case cached_typed dp_Fon_Current_Pressure (tu_manager s) of
          None \<Rightarrow> []
        | Some cv \<Rightarrow>
           [Out (''  Pressure from the cache: '' @ stream_value (cv_value cv) @ '' bar  (source: '' @
              source_to_string (cv_source cv) @ '', quality: '' @ quality_to_string (cv_quality cv) @ '')'')]))"

definition pressure_line :: "typed_change \<Rightarrow> line" where
  "pressure_line ch = Out (''  [change] Pressure: '' @
     (case tg_old_value ch of None \<Rightarrow> [] | Some v \<Rightarrow> stream_value v @ '' -> '') @ stream_value (tg_value ch) @ '' bar'')"

definition uptime_line :: "typed_change \<Rightarrow> line" where
  "uptime_line ch = Out (''  [change] Uptime: '' @ stream_value (tg_value ch) @ '' s ('' @ source_to_string (tg_source ch) @ '')'')"

definition change_lines :: "change \<Rightarrow> line list" where
  "change_lines ch =
    (if dd_name (ch_descriptor ch) = td_name dp_Fon_Current_Pressure
     then case typed_callback (td_type dp_Fon_Current_Pressure) ch of None \<Rightarrow> [] | Some t \<Rightarrow> [pressure_line t]
     else if dd_name (ch_descriptor ch) = td_name dp_System_Uptime
     then case typed_callback (td_type dp_System_Uptime) ch of None \<Rightarrow> [] | Some t \<Rightarrow> [uptime_line t]
     else [])"

fun tutorial_activity :: "activity \<Rightarrow> line list" where
  "tutorial_activity (Act_event e) = event_line e"
| "tutorial_activity (Act_change ch) = change_lines ch"

definition tutorial_plan :: "poller \<Rightarrow> poller" where
  "tutorial_plan p =
     poll_start (once_typed [dp_Device_Serial_Number]
       (every_typed 5000 [dp_System_Uptime, dp_System_RSSI]
         (every_typed 500 [dp_Fon_Current_Pressure, dp_Fon_Current_State] p)))"

text \<open>The two subscriptions live as long as the section; what happens in its six seconds is the environment's.\<close>

definition subscription_and_polling_example :: "tutorial_env \<Rightarrow> tstep" where
  "subscription_and_polling_example te s =
    (let c = tu_client s;
         (t1, m1) = subscribe_typed dp_Fon_Current_Pressure Pressure_cb (cl_datapoints c);
         (t2, m2) = subscribe_typed dp_System_Uptime Uptime_cb m1;
         m3 = ee_between te (tu_calls s) m2;
         c' = c\<lparr>cl_datapoints := unsubscribe t1 (unsubscribe t2 m3), cl_poller := poll_stop (tutorial_plan (cl_poller c))\<rparr>
     in Inr (s\<lparr>tu_client := c', tu_calls := Suc (tu_calls s)\<rparr>,
          heading ''6./7. Subscriptions + Polling (6 s)'' @ concat (map tutorial_activity (ee_activity te)) @
          [Out (''  Poll statistics: '' @ nat_dec (unat (ps_requests (ee_stats te))) @ '' Requests, '' @
             nat_dec (unat (ps_coalesced_points (ee_stats te))) @ '' coalesced points, '' @
             nat_dec (unat (ps_skipped_inflight (ee_stats te))) @ '' skipped (in-flight)'')]))"

section \<open>Writing\<close>

text \<open>The restore guard of the tutorial's manager, and the end of its scope.\<close>

definition tu_restore :: "tutorial_env \<Rightarrow> restore_guard \<Rightarrow> tutorial \<Rightarrow> (write_result result \<times> restore_guard \<times> tutorial) exec" where
  "tu_restore te g s =
     bindE (restore (ee_services te (tu_calls s)) g (ee_between te (tu_calls s) (tu_manager s))) (\<lambda>(r, g', m, calls).
       Inr (r, g', (set_manager m s)\<lparr>tu_calls := Suc (tu_calls s)\<rparr>))"

definition tu_scope_end :: "tutorial_env \<Rightarrow> restore_guard \<Rightarrow> tutorial \<Rightarrow> tutorial exec" where
  "tu_scope_end te g s =
     bindE (guard_destroy (ee_services te (tu_calls s)) g (ee_between te (tu_calls s) (tu_manager s))) (\<lambda>(m, calls).
       Inr ((set_manager m s)\<lparr>tu_calls := Suc (tu_calls s)\<rparr>))"

definition single_write_lines :: "write_result result \<Rightarrow> line list exec" where
  "single_write_lines r =
    (case r of
       Inl e \<Rightarrow> Inr [Out (''  Write error: '' @ error_to_string e)]
     | Inr w \<Rightarrow>
        (if \<not> applied w
         then Inr (map (\<lambda>e. Out (''  rejected: '' @ we_datapoint e @ '' ('' @ we_reason e @ '')'')) (wr_errors w))
         else case map_of (sn_values (wr_readback w)) ''Fon_Event_Label'' of
           None \<Rightarrow> Inr []
         | Some echoed \<Rightarrow>
            bindE (catalog_at_typed dp_Fon_Event_Label) (\<lambda>d.
              Inr [Out (''  Fon_Event_Label=5 written, readback: '' @ to_display_string d echoed)])))"

definition batch_lines :: "write_result result \<Rightarrow> line list" where
  "batch_lines r =
    (case r of
       Inl e \<Rightarrow> []
     | Inr w \<Rightarrow>
        (if applied w
         then Out ''  Batch (2 points) written atomically'' #
              (case wr_warning w of None \<Rightarrow> [] | Some t \<Rightarrow> [Out (''  WARNING from the device: '' @ t)])
         else []))"

definition invalid_line :: "'a result \<Rightarrow> line" where
  "invalid_line r = Out (''  Write 99 (max 7) -> '' @
     (case r of Inl e \<Rightarrow> code_to_string (err_code e) | Inr w \<Rightarrow> ''?!'') @ '' (blocked client-side)'')"

definition tutorial_batch :: "write_set exec" where
  "tutorial_batch =
     bindE (ws_set_typed dp_Fon_Report_Interval (VU16 15) []) (ws_set_typed dp_Fon_Min_On_Time (VU16 25))"

definition guarded_writes :: "tutorial_env \<Rightarrow> restore_guard \<Rightarrow> tstep" where
  "guarded_writes te guard s =
     bindE (tu_call te (\<lambda>sv. write_datapoint sv dp_Fon_Event_Label (VU8 5)) s) (\<lambda>(write, s1).
     bindE (single_write_lines write) (\<lambda>l1.
     bindE tutorial_batch (\<lambda>batch.
     bindE (tu_call te (\<lambda>sv. write_blocking sv batch) s1) (\<lambda>(batch_result, s2).
     bindE (tu_call te (\<lambda>sv. write_datapoint sv dp_Fon_Event_Label (VU8 99)) s2) (\<lambda>(invalid, s3).
     bindE (tu_restore te guard s3) (\<lambda>(restored, guard', s4).
     bindE (tu_scope_end te guard' s4) (\<lambda>s5.
       Inr (s5, l1 @ batch_lines batch_result @ [invalid_line invalid] @
         (case restored of Inl e \<Rightarrow> [] | Inr w \<Rightarrow> if applied w then [Out ''  Baseline restored''] else [])))))))))"

definition write_examples :: "tutorial_env \<Rightarrow> tstep" where
  "write_examples te s =
     bindE (tu_call te (\<lambda>sv. capture sv [''Fon_Event_Label'', ''Fon_Report_Interval'', ''Fon_Min_On_Time'']) s)
       (\<lambda>(guard, s1).
        case guard of
          Inl e \<Rightarrow> Inr (s1, heading ''8. Writing (with baseline restore)'' @ [Out (''  Baseline failed: '' @ error_to_string e)])
        | Inr g \<Rightarrow> bindE (guarded_writes te g s1) (\<lambda>(s2, ls). Inr (s2, heading ''8. Writing (with baseline restore)'' @ ls)))"

definition stage_chain :: "tutorial_callback manager \<Rightarrow> tutorial_callback manager exec" where
  "stage_chain m =
     bindE (stage_typed dp_Fon_Alert_Low_Pressure (float_value 0.3) m) (\<lambda>(t1, m1).
     bindE (stage_typed dp_Fon_Min_Pressure (float_value 2.0) m1) (\<lambda>(t2, m2).
     bindE (stage_typed dp_Fon_Max_Pressure (float_value 3.5) m2) (\<lambda>(t3, m3).
     bindE (stage_typed dp_Fon_Alert_High_Pressure (float_value 4.5) m3) (\<lambda>(t4, m4). Inr m4))))"

definition broken_chain :: "write_set exec" where
  "broken_chain =
     bindE (ws_set_typed dp_Fon_Min_Pressure (float_value 3.0) []) (ws_set_typed dp_Fon_Max_Pressure (float_value 2.0))"

definition violation_line :: "unit result \<Rightarrow> line" where
  "violation_line r = Out (''  Broken chain -> '' @ (case r of Inl e \<Rightarrow> err_message e | Inr _ \<Rightarrow> ''?!''))"

definition commit_chain :: "tutorial_env \<Rightarrow> restore_guard \<Rightarrow> tstep" where
  "commit_chain te guard s =
    (case validate_staged (tu_manager s) of
       Inl e \<Rightarrow>
         bindE (tu_scope_end te guard (set_manager (discard_staged (tu_manager s)) s)) (\<lambda>s1.
           Inr (s1, [Out (''  Validation: '' @ error_to_string e)]))
     | Inr _ \<Rightarrow>
         bindE broken_chain (\<lambda>broken.
         let violation = validate_constraints broken (tu_manager s) in
         bindE (tu_call te commit s) (\<lambda>(committed, s1).
         bindE (tu_restore te guard s1) (\<lambda>(restored, guard', s2).
         bindE (tu_scope_end te guard' s2) (\<lambda>s3.
           Inr (s3, [Out ''  Staged values validated (incl. chain rules)'', violation_line violation] @
             (case committed of
                Inl e \<Rightarrow> []
              | Inr w \<Rightarrow>
                 (if applied w
                  then [Out (''  Commit applied (on '' @ CHR 0x27 # ''rejected'' @ CHR 0x27 #
                          '' the staging would be kept for corrections)'')]
                  else []))))))))"

definition staging_commit_example :: "tutorial_env \<Rightarrow> tstep" where
  "staging_commit_example te s =
     bindE (tu_call te (\<lambda>sv. capture sv [''Fon_Alert_Low_Pressure'', ''Fon_Min_Pressure'', ''Fon_Max_Pressure'',
              ''Fon_Alert_High_Pressure'']) s) (\<lambda>(guard, s1).
       case guard of
         Inl e \<Rightarrow> Inr (s1, heading ''9./10. Staging/commit + cross-field constraints'')
       | Inr g \<Rightarrow>
          bindE (stage_chain (tu_manager s1)) (\<lambda>m.
          bindE (commit_chain te g (set_manager m s1)) (\<lambda>(s2, ls).
            Inr (s2, heading ''9./10. Staging/commit + cross-field constraints'' @ ls))))"

section \<open>Commands, logs and raw access\<close>

definition command_examples :: "tutorial_env \<Rightarrow> tstep" where
  "command_examples te s =
     bindE (tu_ask te (\<lambda>sv. set_state sv State_Auto) s) (\<lambda>(r, s1).
       Inr (s1, heading ''11. Commands'' @
         [Out (case r of
            Inl e \<Rightarrow> ''  Transport error: '' @ error_to_string e
          | Inr c \<Rightarrow>
             (if command_applied c then ''  set_state(Auto) -> applied''
              else ''  set_state(Auto) -> rejected ('' @ (case cr_error c of None \<Rightarrow> ''?'' | Some t \<Rightarrow> t) @ '')''))]))"

definition first_page :: log_read_options where
  "first_page = \<lparr>lo_since_sequence = 0, lo_minimum_level = Log_Info, lo_max_records = 5\<rparr>"

definition page_lines :: "log_batch result \<Rightarrow> line list" where
  "page_lines r =
    (case r of
       Inl e \<Rightarrow> []
     | Inr b \<Rightarrow>
        Out (''  boot_id='' @ nat_dec (unat (lb_boot_id b)) @ '' next_seq='' @ nat_dec (unat (lb_next_seq b))) #
        map (\<lambda>l. Out (''    #'' @ nat_dec (unat (lr_sequence l)) @ '' [lvl '' @ nat_dec (unat (lr_level l)) @ ''] '' @ lr_text l))
          (lb_records b))"

text \<open>\<open>None\<close>: the retrieval of all pages is still running after \<open>fuel\<close> pages.\<close>

definition log_examples :: "nat \<Rightarrow> tutorial_env \<Rightarrow> tutorial \<Rightarrow> (tutorial \<times> line list) exec option" where
  "log_examples fuel te s =
    (case tu_ask te (\<lambda>sv. log_read sv first_page) s of
       Inl x \<Rightarrow> Some (Inl x)
     | Inr (batch, s1) \<Rightarrow>
        map_option (\<lambda>everything.
          bindE everything (\<lambda>every_record.
          bindE (tu_ask te (\<lambda>sv. read_previous sv (default_log_options\<lparr>lo_max_records := 3\<rparr>)) s1) (\<lambda>(previous, s2).
            Inr (s2, heading ''12. Device logs'' @ page_lines batch @
              (case every_record of
                 Inl e \<Rightarrow> [] | Inr rs \<Rightarrow> [Out (''  read_all(): '' @ nat_dec (length rs) @ '' records in total'')]) @
              (case previous of
                 Inl e \<Rightarrow> []
               | Inr b \<Rightarrow> [Out (''  Previous boot available: '' @ (if lb_previous_boot_available b then ''yes'' else ''no''))])))))
          (log_read_all fuel (te_pages te) default_log_options))"

text \<open>
  The subscript operator of a mutable JSON value: a missing member reads as null and null as an empty object;
  any other value than an object throws.
\<close>

definition json_subscript :: "json \<Rightarrow> string \<Rightarrow> json exec" where
  "json_subscript j k =
    (case j of
       JObj items \<Rightarrow> Inr (case map_of items k of None \<Rightarrow> JNull | Some v \<Rightarrow> v)
     | JNull \<Rightarrow> Inr JNull
     | _ \<Rightarrow> Inl (Json_error 305))"

definition memory_request :: request_spec where
  "memory_request = raw_spec ''dp_read'' (JObj [(''names'', JArr [JStr ''System_Memory_Free''])]) (Some 5000)"

definition memory_lines :: "service_env \<Rightarrow> jobj result \<Rightarrow> line list exec" where
  "memory_lines sv r =
    (case r of
       Inl e \<Rightarrow> Inr []
     | Inr msg \<Rightarrow>
        bindE (json_subscript (JObj msg) ''dp'') (\<lambda>points.
        bindE (json_subscript points ''System_Memory_Free'') (\<lambda>v.
        bindE (sv_dump sv v) (\<lambda>t. Inr [Out (''  raw dp_read -> '' @ t @ '' B free'')]))))"

definition raw_and_metrics_example :: "tutorial_env \<Rightarrow> tstep" where
  "raw_and_metrics_example te s =
    (let sv = ee_services te (tu_calls s) in
     bindE (tu_call te (\<lambda>sv m. bindE (raw_request sv memory_request ()) (\<lambda>(r, u, n :: unit list). Inr (r, m, n))) s)
       (\<lambda>(response, s1).
     bindE (memory_lines sv response) (\<lambda>ls.
       let dm = client_metrics (te_progress te (tu_client s1)) in
       Inr (s1, heading ''14. Raw protocol + metrics'' @ ls @
         [Out (''  Metrics: sent='' @ nat_dec (dm_sent dm) @ '' answered='' @ nat_dec (dm_completed dm) @ '' timeouts='' @
            nat_dec (dm_timeouts dm) @ '' rate-limit deferrals='' @ nat_dec (dm_rate_limit_deferrals dm))]))))"

definition tutorial_disconnect :: "tutorial_env \<Rightarrow> tstep" where
  "tutorial_disconnect te s =
    (let c = te_closed te (tu_client s) in
     Inr (s\<lparr>tu_client := c\<rparr>, heading ''15. Disconnecting'' @
       [Disconnect_call, Out (''  disconnected, state: '' @ client_state_to_string (cl_state c))]))"

section \<open>The whole run\<close>

definition first_sections :: "tutorial_env \<Rightarrow> tstep" where
  "first_sections te =
     then_do show_connection_info (then_do (read_single_and_multi te) (then_do (read_dynamic te)
       (then_do (list_all_datapoints te) (then_do cache_example (then_do (subscription_and_polling_example te)
         (then_do (write_examples te) (then_do (staging_commit_example te) (command_examples te))))))))"

definition last_sections :: "tutorial_env \<Rightarrow> tstep" where
  "last_sections te = then_do (raw_and_metrics_example te) (tutorial_disconnect te)"

definition tutorial_run :: "nat \<Rightarrow> tutorial_env \<Rightarrow> tutorial \<Rightarrow> cli_result option" where
  "tutorial_run fuel te s =
    (case tutorial_connect te s of
       (False, s1, l1) \<Rightarrow> Some (Inr (1, l1))
     | (True, s1, l1) \<Rightarrow>
        (case first_sections te s1 of
           Inl x \<Rightarrow> Some (Inl x)
         | Inr (s2, l2) \<Rightarrow>
            map_option (\<lambda>logs. bindE logs (\<lambda>(s3, l3). bindE (last_sections te s3) (\<lambda>(s4, l4).
              Inr (0, l1 @ l2 @ l3 @ l4)))) (log_examples fuel te s2)))"

definition tutorial_usage :: "string \<Rightarrow> line list" where
  "tutorial_usage program =
     [Err (''usage: '' @ program @ '' <config.json>''), Err ''  e.g. /app/config/client.fnt-000001.json'']"

fun tutorial_config_failure :: "(exn \<Rightarrow> string) \<Rightarrow> exn \<Rightarrow> cli_result" where
  "tutorial_config_failure what (Runtime_error m) = Inr (2, [Err (''config: '' @ m)])"
| "tutorial_config_failure what (Json_error n) = Inr (2, [Err (''config: '' @ what (Json_error n))])"
| "tutorial_config_failure what (Undefined_behaviour m) = Inl (Undefined_behaviour m)"

definition tutorial_main :: "nat \<Rightarrow> tutorial_env \<Rightarrow> string list \<Rightarrow> 'k logger \<Rightarrow> cli_result option \<times> 'k logger" where
  "tutorial_main fuel te argv l =
    (if length argv < 2 then (Some (Inr (2, tutorial_usage (program_name argv))), l)
     else case load_config (ee_files te) (te_exists te) (te_parse te) (te_fcast te) (te_what te) (argv ! 1) of
       Inl e \<Rightarrow> (Some (tutorial_config_failure (te_what te) e), l)
     | Inr cfg \<Rightarrow>
        (let l1 = set_level_to Lv_Warn l in
         case create (ee_files te) cfg of
           Inl e \<Rightarrow> (Some (Inr (1, [Err (''Setup failed: '' @ error_to_string e)])), l1)
         | Inr s \<Rightarrow> (tutorial_run fuel te s, l1)))"

end
