(* ===== verification/Examples_Safety.thy ===== *)
theory Examples_Safety
  imports Tutorial
begin

text \<open>
  Laws of the example programs: what the configuration editor sends, what the tutorial prints of the datapoints
  and what it refuses before asking the device, and that its sections keep the manager's invariant.
\<close>

section \<open>The constants the examples use\<close>

lemmas dp_defs = dp_Fon_Min_Pressure_def dp_Fon_Max_Pressure_def dp_Fon_Alert_Low_Pressure_def
  dp_Fon_Alert_High_Pressure_def dp_Fon_Event_Label_def dp_Fon_Report_Interval_def dp_Fon_Min_On_Time_def

definition example_writables :: "typed_datapoint list" where
  "example_writables =
     [dp_Fon_Min_Pressure, dp_Fon_Max_Pressure, dp_Fon_Alert_Low_Pressure, dp_Fon_Alert_High_Pressure,
      dp_Fon_Event_Label, dp_Fon_Report_Interval, dp_Fon_Min_On_Time]"

lemma example_writables_ok: "td \<in> set example_writables \<Longrightarrow> td \<in> set typed_datapoints \<and> WritableDatapoint td"
  by (auto simp: example_writables_def dp_defs WritableDatapoint_def typed_datapoints_def typed_datapoints_1_def
      typed_datapoints_2_def)
    (simp_all add: typed_def)

lemma example_dp_sel [simp]:
  "td_name dp_Fon_Min_Pressure = ''Fon_Min_Pressure''" "td_type dp_Fon_Min_Pressure = C_float"
  "td_name dp_Fon_Max_Pressure = ''Fon_Max_Pressure''" "td_type dp_Fon_Max_Pressure = C_float"
  "td_name dp_Fon_Alert_Low_Pressure = ''Fon_Alert_Low_Pressure''" "td_type dp_Fon_Alert_Low_Pressure = C_float"
  "td_name dp_Fon_Alert_High_Pressure = ''Fon_Alert_High_Pressure''" "td_type dp_Fon_Alert_High_Pressure = C_float"
  "td_name dp_Fon_Event_Label = ''Fon_Event_Label''" "td_type dp_Fon_Event_Label = C_u8"
  "td_name dp_Fon_Report_Interval = ''Fon_Report_Interval''" "td_type dp_Fon_Report_Interval = C_u16"
  "td_name dp_Fon_Min_On_Time = ''Fon_Min_On_Time''" "td_type dp_Fon_Min_On_Time = C_u16"
  by (simp_all add: dp_defs typed_def)

lemma example_write:
  assumes "td \<in> set example_writables" "value_cast (td_type td) v = Inr v"
  shows "ws_set_typed td v ws = Inr (omap_put (td_name td) v ws)" "check_write (td_name td) v = Inr ()"
    and "stage_typed td v m = Inr (Inr (), m\<lparr>mg_staged := omap_put (td_name td) v (mg_staged m)\<rparr>)"
  using typed_value_accepted [OF _ _ assms(2)] example_writables_ok [OF assms(1)] by (simp_all add: stage_def)

lemma float_cast [simp]: "value_cast C_float (float_value x) = Inr (float_value x)"
  by (simp add: value_cast_def float_value_def)

lemma int_cast [simp]: "value_cast C_u8 (VU8 w) = Inr (VU8 w)" "value_cast C_u16 (VU16 u) = Inr (VU16 u)"
  by (simp_all add: value_cast_def)

section \<open>What a read leaves in the cache\<close>

lemma read_names_state:
  assumes "read_names sv ns m = Inr (r, m', notes)"
  shows "m' = (case r of Inl e \<Rightarrow> m | Inr snap \<Rightarrow> fst (update_cache (sv_now sv) snap ExplicitRead None m))"
  using assms
  by (auto simp: read_names_def sync_wait_def read_response_def exec_simps Let_def case_prod_beta
      split: option.splits sum.splits)

lemma read_names_staged: "read_names sv ns m = Inr (r, m', notes) \<Longrightarrow> mg_staged m' = mg_staged m"
  by (drule read_names_state) (simp add: update_cache_eq split: sum.splits)

lemma read_names_cached:
  assumes "read_names sv ns m = Inr (Inr snap, m', notes)" "map_of (sn_values snap) n = Some v"
  shows "cached_number m' n = numeric_of v"
proof -
  have ok: "snapshot_ok snap" by (rule read_names_snapshot [OF assms(1)])
  then have "catalog_find n \<noteq> None" using assms(2) by (auto simp: snapshot_ok_def well_typed_def)
  then have "spec_entry (sv_now sv) ExplicitRead None (sn_values snap) (mg_cache m) n =
      Some \<lparr>cv_value = v, cv_received_at = sv_now sv, cv_source = ExplicitRead, cv_quality = Good, cv_report_sequence = None\<rparr>"
    using assms(2) by (auto simp: spec_entry_def)
  moreover have "distinct (map fst (sn_values snap))" using ok by (simp add: snapshot_ok_def omap_ok_distinct)
  note update_entries_spec [OF this, THEN conjunct1, of "sv_now sv" ExplicitRead None "mg_subs m" "mg_cache m" n]
  ultimately show ?thesis
    using read_names_state [OF assms(1)] by (simp add: update_cache_eq cached_number_def cached_raw_def)
qed

section \<open>The configuration editor\<close>

lemma chain_checked:
  "check_cross_constraints f = Inr u \<Longrightarrow>
    \<not> not_below (f ''Fon_Alert_Low_Pressure'') (f ''Fon_Min_Pressure'') \<and>
    \<not> not_below (f ''Fon_Max_Pressure'') (f ''Fon_Alert_High_Pressure'')"
  by (simp add: check_cross_constraints_def Let_def split: if_splits)

definition editor_staged :: write_set where
  "editor_staged = [(''Fon_Max_Pressure'', float_value 3.6), (''Fon_Min_Pressure'', float_value 2.1)]"

lemma editor_edits_eq: "mg_staged m = [] \<Longrightarrow> editor_edits m = Inr (m\<lparr>mg_staged := editor_staged\<rparr>)"
  by (simp add: editor_edits_def example_write example_writables_def editor_staged_def)

lemma editor_staged_ok: "staged_ok editor_staged" "floats_exact editor_staged"
proof -
  have "check_write ''Fon_Max_Pressure'' (float_value x) = Inr ()" "check_write ''Fon_Min_Pressure'' (float_value x) = Inr ()" for x
    using example_write(2) [of dp_Fon_Max_Pressure "float_value x"] example_write(2) [of dp_Fon_Min_Pressure "float_value x"]
    by (simp_all add: example_writables_def)
  then show "staged_ok editor_staged" by (auto simp: staged_ok_def editor_staged_def split: if_splits)
  show "floats_exact editor_staged" by (auto simp: floats_exact_def editor_staged_def float_value_def)
qed

lemma editor_validated:
  assumes "validate_staged (m\<lparr>mg_staged := editor_staged\<rparr>) = Inr u"
  shows "ws_validate editor_staged = Inr ()"
    and "cached_number m ''Fon_Alert_Low_Pressure'' = Some x \<Longrightarrow> flt x (fround32 2.1)"
    and "cached_number m ''Fon_Alert_High_Pressure'' = Some x \<Longrightarrow> flt (fround32 3.6) x"
proof -
  let ?f = "\<lambda>n. case map_of editor_staged n of Some v \<Rightarrow> numeric_of v | None \<Rightarrow>
    cached_number (m\<lparr>mg_staged := editor_staged\<rparr>) n"
  have c: "cached_number (m\<lparr>mg_staged := ws\<rparr>) n = cached_number m n" for ws n
    by (simp add: cached_number_def cached_raw_def)
  from assms have "validate_entries editor_staged = Inr ()" and f: "check_cross_constraints ?f = Inr u"
    by (auto simp: validate_staged_def split: sum.splits)
  then show "ws_validate editor_staged = Inr ()" by (simp add: ws_validate_def editor_staged_def)
  note n = chain_checked [OF f]
  show "cached_number m ''Fon_Alert_Low_Pressure'' = Some x \<Longrightarrow> flt x (fround32 2.1)"
    using n by (simp add: c editor_staged_def float_value_def not_below_def numeric_of_def)
  show "cached_number m ''Fon_Alert_High_Pressure'' = Some x \<Longrightarrow> flt (fround32 3.6) x"
    using n by (simp add: c editor_staged_def float_value_def not_below_def numeric_of_def)
qed

lemma write_answered:
  assumes "write_response dump fc now response m = Inr (Inr w, m', notes)"
  obtains msg where "response = Inr msg" "msg_value get_string msg ''status'' [] = Inr (wr_status w)"
  using assms that
  by (auto simp: write_response_def parse_write_result_def exec_simps Let_def case_prod_beta split: sum.splits)

lemma commit_applied_bound:
  assumes "commit sv m = Inr (Inr w, m', notes)"
  shows "sv_runner sv = Some (Inr ())"
  using assms
  by (auto simp: commit_def write_blocking_def sync_wait_def exec_simps split: sum.splits option.splits)

lemma editor_commit_writes:
  assumes "editor_commit ee (m\<lparr>mg_staged := editor_staged\<rparr>) = Inr (code, ls)" "code = 0 \<or> code = 3"
    and "\<And>k m. mg_staged (ee_between ee k m) = mg_staged m"
  obtains obj msg where "validate_staged (m\<lparr>mg_staged := editor_staged\<rparr>) = Inr ()"
    "decode_dp_object (JObj obj) = \<lparr>sn_values = editor_staged, sn_unknown = []\<rparr>"
    "sv_device (ee_services ee 1) (write_request obj InteractiveControl) = Inr msg"
    "code = 0 \<longleftrightarrow> msg_value get_string msg ''status'' [] = Inr ''applied''"
proof -
  let ?m = "m\<lparr>mg_staged := editor_staged\<rparr>" and ?sv = "ee_services ee 1"
  have val: "validate_staged ?m = Inr ()"
    using assms(1,2) by (auto simp: editor_commit_def split: sum.splits)
  with assms(1) have "bindE (blocking_call ee 1 commit ?m) (\<lambda>(r, m').
      Inr (case r of Inl e \<Rightarrow> error_exit e | Inr w \<Rightarrow> editor_commit_lines w)) = Inr (code, ls)"
    by (simp add: editor_commit_def has_staged_changes_def editor_staged_def)
  then obtain r m' calls where r: "commit ?sv (ee_between ee 1 ?m) = Inr (r, m', calls)"
    "(case r of Inl e \<Rightarrow> error_exit e | Inr w \<Rightarrow> editor_commit_lines w) = (code, ls)"
    by (auto simp: blocking_call_def exec_simps)
  with assms(2) obtain w where w: "r = Inr w" by (cases r) (auto simp: error_exit_def)
  have code: "code = 0 \<longleftrightarrow> applied w" using r(2) by (simp add: w editor_commit_lines_def split: if_splits)
  have st: "mg_staged (ee_between ee 1 ?m) = editor_staged" by (simp add: assms(3))
  have run: "sv_runner ?sv = Some (Inr ())" using commit_applied_bound r(1) by (simp add: w)
  from commit_asks [of "ee_between ee 1 ?m" ?sv, unfolded st,
      OF editor_staged_ok(1) run editor_validated(1) [OF val] editor_staged_ok(2)]
  obtain obj where obj: "decode_dp_object (JObj obj) = \<lparr>sn_values = editor_staged, sn_unknown = []\<rparr>"
    "commit ?sv (ee_between ee 1 ?m) = bindE (write_response (sv_dump ?sv) (sv_fcast ?sv) (sv_now ?sv)
       (sv_device ?sv (write_request obj InteractiveControl)) (ee_between ee 1 ?m))
       (\<lambda>(r, m', calls). Inr (r, commit_end r m', calls))"
    by blast
  from trans [OF obj(2) [symmetric] r(1)] obtain m'' calls' where "write_response (sv_dump ?sv) (sv_fcast ?sv) (sv_now ?sv)
       (sv_device ?sv (write_request obj InteractiveControl)) (ee_between ee 1 ?m) = Inr (Inr w, m'', calls')"
    by (auto simp: w exec_simps)
  then obtain msg where "sv_device ?sv (write_request obj InteractiveControl) = Inr msg"
    "msg_value get_string msg ''status'' [] = Inr (wr_status w)" by (rule write_answered)
  with val obj(1) show thesis by (intro that [of obj msg]) (simp_all add: code applied_def)
qed

lemma lenient_setup_manager: "lenient_setup fs argv = Inr c \<Longrightarrow> cl_datapoints c = make_manager"
  by (auto simp: lenient_setup_def Let_def make_client_def split: sum.splits)

lemma prepend_Inr: "prepend l r = Inr (code, ls) \<Longrightarrow> \<exists>rest. r = Inr (code, rest)"
  by (auto simp: prepend_def exec_simps)

lemma editor_reaches_commit:
  assumes "config_editor ee argv = Inr (code, ls)" "code = 0 \<or> code = 3"
  obtains snap m rest where
    "blocking_call ee 0 (\<lambda>sv. read_several sv [dp_Fon_Min_Pressure, dp_Fon_Max_Pressure,
       dp_Fon_Alert_Low_Pressure, dp_Fon_Alert_High_Pressure]) make_manager = Inr (Inr snap, m)"
    "bindE (editor_edits m) (editor_commit ee) = Inr (code, rest)"
proof -
  from assms obtain i c where c: "lenient_setup (ee_files ee) argv = Inr c" "editor_body ee i c = Inr (code, ls)"
    by (auto simp: config_editor_def lenient_main_def error_exit_def split: if_splits sum.splits)
  from c(2) obtain r m where r: "blocking_call ee 0 (\<lambda>sv. read_several sv [dp_Fon_Min_Pressure, dp_Fon_Max_Pressure,
       dp_Fon_Alert_Low_Pressure, dp_Fon_Alert_High_Pressure]) make_manager = Inr (r, m)"
    "(case r of Inl e \<Rightarrow> Inr (error_exit e)
      | Inr snap \<Rightarrow> prepend (current_lines snap) (bindE (editor_edits m) (editor_commit ee))) = Inr (code, ls)"
    unfolding editor_body_def lenient_setup_manager [OF c(1)] by (auto simp: exec_simps simp del: bindE.simps)
  with assms(2) obtain snap where "r = Inr snap" by (cases r) (auto simp: error_exit_def)
  with r that prepend_Inr show thesis by (metis sum.simps(6))
qed

text \<open>
  C38: If the configuration editor ends with exit code 0 or 3, it sent one \<open>dp_write\<close> with exactly its two
  edits, and these respect the limits the device had reported: the low alarm is below the new minimum and the
  new maximum below the high alarm. Exit code 0 means that the device confirmed the write. What arrives between
  the calls stages nothing.
\<close>

theorem editor_respects_limits:
  assumes "config_editor ee argv = Inr (code, ls)" "code = 0 \<or> code = 3"
    and "\<And>k m. mg_staged (ee_between ee k m) = mg_staged m"
  shows "\<exists>snap m obj msg.
    blocking_call ee 0 (\<lambda>sv. read_several sv [dp_Fon_Min_Pressure, dp_Fon_Max_Pressure,
       dp_Fon_Alert_Low_Pressure, dp_Fon_Alert_High_Pressure]) make_manager = Inr (Inr snap, m) \<and>
    (\<forall>x. map_of (sn_values snap) ''Fon_Alert_Low_Pressure'' = Some (VF32 x) \<longrightarrow> flt x (fround32 2.1)) \<and>
    (\<forall>x. map_of (sn_values snap) ''Fon_Alert_High_Pressure'' = Some (VF32 x) \<longrightarrow> flt (fround32 3.6) x) \<and>
    decode_dp_object (JObj obj) =
      \<lparr>sn_values = [(''Fon_Max_Pressure'', float_value 3.6), (''Fon_Min_Pressure'', float_value 2.1)], sn_unknown = []\<rparr> \<and>
    sv_device (ee_services ee 1) (write_request obj InteractiveControl) = Inr msg \<and>
    (code = 0 \<longleftrightarrow> msg_value get_string msg ''status'' [] = Inr ''applied'')"
proof -
  from assms(1,2) obtain snap m rest where read: "blocking_call ee 0 (\<lambda>sv. read_several sv [dp_Fon_Min_Pressure,
       dp_Fon_Max_Pressure, dp_Fon_Alert_Low_Pressure, dp_Fon_Alert_High_Pressure]) make_manager = Inr (Inr snap, m)"
    and fin: "bindE (editor_edits m) (editor_commit ee) = Inr (code, rest)" by (rule editor_reaches_commit)
  from read obtain ns calls where rn: "read_names (ee_services ee 0) ns (ee_between ee 0 make_manager) = Inr (Inr snap, m, calls)"
    by (auto simp: blocking_call_def read_several_def exec_simps)
  have "mg_staged m = []"
    using read_names_staged [OF rn] assms(3) by (simp add: make_manager_def)
  with fin have "editor_commit ee (m\<lparr>mg_staged := editor_staged\<rparr>) = Inr (code, rest)" by (simp add: editor_edits_eq)
  from this assms(2,3) obtain obj msg where val: "validate_staged (m\<lparr>mg_staged := editor_staged\<rparr>) = Inr ()"
    and obj: "decode_dp_object (JObj obj) = \<lparr>sn_values = editor_staged, sn_unknown = []\<rparr>"
      "sv_device (ee_services ee 1) (write_request obj InteractiveControl) = Inr msg"
      "code = 0 \<longleftrightarrow> msg_value get_string msg ''status'' [] = Inr ''applied''" by (rule editor_commit_writes)
  have cached: "cached_number m n = Some x" if "map_of (sn_values snap) n = Some (VF32 x)" for n x
    using read_names_cached [OF rn that] by (simp add: numeric_of_def)
  show ?thesis
    using read obj editor_validated(2,3) [OF val] cached unfolding editor_staged_def by blast
qed

text \<open>A run against a device that knows none of the four limits and applies the write.\<close>

definition editor_env :: "nat example_env" where
  "editor_env =
     \<lparr>ee_files = (\<lambda>f. Some (replicate 64 (CHR ''a''))), ee_connect = (\<lambda>c. Inr empty_info),
      ee_services = (\<lambda>k. demo_service (if k = 0 then Inr [(''dp'', JObj [])] else Inr [(''status'', JStr ''applied'')])),
      ee_between = (\<lambda>k m. m), ee_activity = [], ee_stats = zero_stats\<rparr>"

lemma editor_env_sel [simp]:
  "ee_files editor_env = (\<lambda>f. Some (replicate 64 (CHR ''a'')))" "ee_connect editor_env = (\<lambda>c. Inr empty_info)"
  "ee_services editor_env 0 = demo_service (Inr [(''dp'', JObj [])])"
  "ee_services editor_env (Suc k) = demo_service (Inr [(''status'', JStr ''applied'')])" "ee_between editor_env k m = m"
  by (simp_all add: editor_env_def)

definition editor_argv :: "string list" where
  "editor_argv = [''editor'', ''h'', ''ca'', ''crt'', ''key'', ''kid'', ''hmac'']"

lemma find_pressure:
  "catalog_find ''Fon_Min_Pressure'' = Some (kDatapointDescriptors_1 ! 47)"
  "catalog_find ''Fon_Max_Pressure'' = Some (kDatapointDescriptors_1 ! 48)"
  "catalog_find ''Fon_Alert_High_Pressure'' = Some (kDatapointDescriptors_1 ! 49)"
  "catalog_find ''Fon_Alert_Low_Pressure'' = Some (kDatapointDescriptors_1 ! 50)"
  "catalog_find ''Fon_Event_Label'' = Some (kDatapointDescriptors_1 ! 44)"
proof -
  have "51 \<le> length kDatapointDescriptors_1" by (simp add: kDatapointDescriptors_1_def)
  then have "kDatapointDescriptors_1 ! i \<in> set kDatapointDescriptors" if "i < 51" for i
    using that by (auto simp: kDatapointDescriptors_def intro!: nth_mem)
  note find = catalog_find_member [OF this]
  show "catalog_find ''Fon_Min_Pressure'' = Some (kDatapointDescriptors_1 ! 47)"
    using find [of 47] by (simp add: kDatapointDescriptors_1_def)
  show "catalog_find ''Fon_Max_Pressure'' = Some (kDatapointDescriptors_1 ! 48)"
    using find [of 48] by (simp add: kDatapointDescriptors_1_def)
  show "catalog_find ''Fon_Alert_High_Pressure'' = Some (kDatapointDescriptors_1 ! 49)"
    using find [of 49] by (simp add: kDatapointDescriptors_1_def)
  show "catalog_find ''Fon_Alert_Low_Pressure'' = Some (kDatapointDescriptors_1 ! 50)"
    using find [of 50] by (simp add: kDatapointDescriptors_1_def)
  show "catalog_find ''Fon_Event_Label'' = Some (kDatapointDescriptors_1 ! 44)"
    using find [of 44] by (simp add: kDatapointDescriptors_1_def)
qed

lemma edit_values: "fround32 2.1 = FFin (4404019 / 2097152)" "fround32 3.6 = FFin (7549747 / 2097152)"
  by code_simp+

lemma edits_valid:
  "validate (kDatapointDescriptors_1 ! 47) (float_value 2.1) = Inr ()"
  "validate (kDatapointDescriptors_1 ! 48) (float_value 3.6) = Inr ()"
  using fround32_small_int [of 0] fround32_small_int [of 10] edit_values
  by (simp_all add: validate_iff kDatapointDescriptors_1_def float_value_def)

lemma editor_read:
  "read_names (demo_service (Inr [(''dp'', JObj [])])) [''Fon_Min_Pressure'', ''Fon_Max_Pressure'',
     ''Fon_Alert_Low_Pressure'', ''Fon_Alert_High_Pressure''] make_manager = Inr (Inr empty_snapshot, make_manager, [])"
  by (simp add: read_names_def sync_wait_def demo_service_def async_read_def find_pressure read_response_def
      msg_value_def get_json_def decode_dp_object_def update_cache_def empty_snapshot_def Let_def)

lemma editor_commits:
  "\<exists>ls. editor_commit editor_env (make_manager\<lparr>mg_staged := editor_staged\<rparr>) = Inr (0, ls)"
proof -
  let ?m = "make_manager\<lparr>mg_staged := editor_staged\<rparr> :: nat manager" and ?sv = "demo_service (Inr [(''status'', JStr ''applied'')])"
  have "validate_entries editor_staged = Inr ()"
    using edits_valid by (simp add: editor_staged_def find_pressure)
  then have "validate_staged ?m = check_cross_constraints (\<lambda>n. case map_of editor_staged n of
      Some v \<Rightarrow> numeric_of v | None \<Rightarrow> cached_number ?m n)" by (simp add: validate_staged_def)
  also have "\<dots> = Inr ()"
    using edit_values
    by (simp add: check_cross_constraints_def not_below_def editor_staged_def cached_number_def cached_raw_def
        make_manager_def numeric_of_def float_value_def Let_def)
  finally have val: "validate_staged ?m = Inr ()" .
  have "\<exists>w m' calls. commit ?sv ?m = Inr (Inr w, m', calls) \<and> applied w"
  proof -
    have "sv_runner ?sv = Some (Inr ())" by (simp add: demo_service_def)
    from commit_asks [of ?m ?sv, simplified, OF editor_staged_ok(1) this editor_validated(1) [OF val] editor_staged_ok(2)]
    obtain obj where "commit ?sv ?m = bindE (write_response (sv_dump ?sv) (sv_fcast ?sv) (sv_now ?sv)
       (sv_device ?sv (write_request obj InteractiveControl)) ?m) (\<lambda>(r, m', calls). Inr (r, commit_end r m', calls))"
      by blast
    then show ?thesis
      by (simp add: demo_service_def write_response_def parse_write_result_def msg_value_def readback_of_def
          applied_def exec_simps)
  qed
  then show ?thesis
    using val by (auto simp: editor_commit_def has_staged_changes_def editor_staged_def blocking_call_def
        editor_commit_lines_def)
qed

lemma editor_run: "\<exists>ls. config_editor editor_env editor_argv = Inr (0, ls)"
proof -
  have "\<not> isl (hmac_from_file (\<lambda>f. Some (replicate 64 (CHR ''a''))) ''kid'' ''hmac'')" by code_simp
  then obtain h where h: "hmac_from_file (\<lambda>f. Some (replicate 64 (CHR ''a''))) ''kid'' ''hmac'' = Inr h"
    by (cases "hmac_from_file (\<lambda>f. Some (replicate 64 (CHR ''a''))) ''kid'' ''hmac''") auto
  obtain ls where "editor_commit editor_env (make_manager\<lparr>mg_staged := editor_staged\<rparr>) = Inr (0, ls)"
    using editor_commits by blast
  moreover have "mg_staged (make_manager :: nat manager) = []" by (simp add: make_manager_def)
  ultimately show ?thesis
    by (simp add: editor_read config_editor_def lenient_main_def editor_argv_def lenient_setup_def h editor_body_def
        blocking_call_def read_several_def make_client_def prepend_def editor_edits_eq Let_def)
qed

theorem editor_respects_limits_witness:
  "\<exists>obj. decode_dp_object (JObj obj) =
     \<lparr>sn_values = [(''Fon_Max_Pressure'', float_value 3.6), (''Fon_Min_Pressure'', float_value 2.1)], sn_unknown = []\<rparr>"
proof -
  obtain ls where "config_editor editor_env editor_argv = Inr (0, ls)" using editor_run by blast
  moreover have "mg_staged (ee_between editor_env k m) = mg_staged m" for k m by simp
  ultimately show ?thesis using editor_respects_limits [of editor_env editor_argv 0 ls] by blast
qed

end
