(* ===== verification/Tutorial_Safety.thy ===== *)
theory Tutorial_Safety
  imports Examples_Safety
begin

text \<open>
  Laws of the tutorial: its listing does not depend on passwords, what it shows as refused is refused before the
  device is asked, and its sections keep the manager's invariant and leave no subscription behind.
\<close>

section \<open>The listing\<close>

lemma sensitive_list: "filter sensitive kDatapointDescriptors = [kDatapointDescriptors_2 ! 21, kDatapointDescriptors_2 ! 36]"
  by (simp add: kDatapointDescriptors_def kDatapointDescriptors_1_def kDatapointDescriptors_2_def sensitive_def)

lemma find_passwords:
  "catalog_find ''Network_Password'' = Some (kDatapointDescriptors_2 ! 21)"
  "catalog_find ''Backup_Password'' = Some (kDatapointDescriptors_2 ! 36)"
proof -
  have "37 \<le> length kDatapointDescriptors_2" by (simp add: kDatapointDescriptors_2_def)
  then have "kDatapointDescriptors_2 ! i \<in> set kDatapointDescriptors" if "i < 37" for i
    using that by (auto simp: kDatapointDescriptors_def intro!: nth_mem)
  note find = catalog_find_member [OF this]
  show "catalog_find ''Network_Password'' = Some (kDatapointDescriptors_2 ! 21)"
    using find [of 21] by (simp add: kDatapointDescriptors_2_def)
  show "catalog_find ''Backup_Password'' = Some (kDatapointDescriptors_2 ! 36)"
    using find [of 36] by (simp add: kDatapointDescriptors_2_def)
qed

lemma sensitive_names:
  assumes "d \<in> set kDatapointDescriptors"
  shows "sensitive d \<longleftrightarrow> dd_name d \<in> {''Network_Password'', ''Backup_Password''}"
proof -
  have find: "Some d = catalog_find n \<longleftrightarrow> dd_name d = n" for n
    using catalog_find_member [OF assms] catalog_find_sound [of n d] by auto
  have "sensitive d \<longleftrightarrow> d \<in> set (filter sensitive kDatapointDescriptors)" using assms by simp
  also have "\<dots> \<longleftrightarrow> Some d \<in> {catalog_find ''Network_Password'', catalog_find ''Backup_Password''}"
    unfolding sensitive_list find_passwords by simp
  also have "\<dots> \<longleftrightarrow> dd_name d \<in> {''Network_Password'', ''Backup_Password''}"
    by (simp only: insert_iff empty_iff find)
  finally show ?thesis .
qed

lemma listing_row_cong:
  assumes "map fst (sn_values s) = map fst (sn_values s')"
    and "\<not> sensitive d \<Longrightarrow> map_of (sn_values s) (dd_name d) = map_of (sn_values s') (dd_name d)"
  shows "listing_row s d = listing_row s' d"
proof -
  have none: "map_of (sn_values s) (dd_name d) = None \<longleftrightarrow> map_of (sn_values s') (dd_name d) = None"
    using arg_cong [OF assms(1), of set] by (simp add: map_of_eq_None_iff)
  show ?thesis
  proof (cases "sensitive d")
    case True
    then show ?thesis
      using none by (cases "map_of (sn_values s) (dd_name d)"; cases "map_of (sn_values s') (dd_name d)")
        (simp_all add: listing_row_def del: map_of_eq_None_iff)
  qed (simp add: listing_row_def assms(2))
qed

lemma list_all_lines:
  "tu_call te read_all s = Inr (Inr snap, s1) \<Longrightarrow>
    list_all_datapoints te s = Inr (s1, heading ''4. ALL datapoints (catalog + live values)'' @ listing snap)"
  by (simp add: list_all_datapoints_def)

text \<open>
  C39: The listing of all datapoints does not depend on the passwords: for two devices whose answers hold the same
  datapoints and differ at most in the values of \<open>Network_Password\<close> and \<open>Backup_Password\<close>, the
  tutorial prints the same lines.
\<close>

theorem listing_hides_passwords:
  assumes "tu_call te read_all s = Inr (Inr snap, s1)" "tu_call te' read_all s' = Inr (Inr snap', s1')"
    and "map fst (sn_values snap) = map fst (sn_values snap')"
    and "\<And>n. n \<notin> {''Network_Password'', ''Backup_Password''} \<Longrightarrow> map_of (sn_values snap) n = map_of (sn_values snap') n"
  shows "\<exists>ls. list_all_datapoints te s = Inr (s1, ls) \<and> list_all_datapoints te' s' = Inr (s1', ls)"
proof -
  have "listing_row snap d = listing_row snap' d" if "d \<in> set kDatapointDescriptors" for d
    using sensitive_names [OF that] assms(4) by (intro listing_row_cong [OF assms(3)]) blast
  moreover have "length (sn_values snap) = length (sn_values snap')" using arg_cong [OF assms(3), of length] by simp
  ultimately have "listing snap = listing snap'" by (simp add: listing_def)
  then show ?thesis using list_all_lines [OF assms(1)] list_all_lines [OF assms(2)] by simp
qed

definition listing_env :: "string \<Rightarrow> tutorial_env" where
  "listing_env pw =
     \<lparr>ee_files = (\<lambda>f. None), ee_connect = (\<lambda>c. Inr empty_info),
      ee_services = (\<lambda>k. demo_service (Inr [(''dp'', JObj [(''Network_Password'', JStr pw)])])),
      ee_between = (\<lambda>k m. m), ee_activity = [], ee_stats = zero_stats, te_pages = (\<lambda>k. demo_service (Inr [])),
      te_progress = (\<lambda>c. c), te_closed = (\<lambda>c. c), te_exists = (\<lambda>f. False), te_parse = (\<lambda>t. Inr JNull),
      te_fcast = (\<lambda>f. 0), te_what = (\<lambda>e. [])\<rparr>"

lemma check_names_all: "check_names (map dd_name kDatapointDescriptors) = Inr ()"
proof -
  have "check_names (map dd_name ds) = Inr ()" if "set ds \<subseteq> set kDatapointDescriptors" for ds
    using that catalog_find_member by (induction ds) auto
  then show ?thesis by simp
qed

lemma listing_call:
  "\<exists>s1. tu_call (listing_env pw) read_all (device_example (make_client ep)) =
    Inr (Inr \<lparr>sn_values = [(''Network_Password'', VStr pw)], sn_unknown = []\<rparr>, s1)"
proof -
  have "value_from_json (kDatapointDescriptors_2 ! 21) (JStr pw) = Inr (VStr pw)"
    by (simp add: value_from_json_def kDatapointDescriptors_2_def)
  moreover have "kDatapointDescriptors \<noteq> []" by (simp add: kDatapointDescriptors_def kDatapointDescriptors_1_def)
  ultimately show ?thesis
    by (simp add: tu_call_def blocking_call_def listing_env_def read_all_def sync_wait_def demo_service_def
        async_read_all_def async_read_def check_names_all read_response_def msg_value_def get_json_def
        decode_dp_object_def find_passwords snapshot_set_def empty_snapshot_def case_prod_beta Let_def)
qed

theorem listing_hides_passwords_witness:
  "\<exists>s1 s2 ls. list_all_datapoints (listing_env ''secret'') (device_example (make_client (local_endpoint ''h''))) = Inr (s1, ls) \<and>
     list_all_datapoints (listing_env ''other'') (device_example (make_client (local_endpoint ''h''))) = Inr (s2, ls)"
proof -
  obtain s1 s2 where
    "tu_call (listing_env ''secret'') read_all (device_example (make_client (local_endpoint ''h''))) =
      Inr (Inr \<lparr>sn_values = [(''Network_Password'', VStr ''secret'')], sn_unknown = []\<rparr>, s1)"
    "tu_call (listing_env ''other'') read_all (device_example (make_client (local_endpoint ''h''))) =
      Inr (Inr \<lparr>sn_values = [(''Network_Password'', VStr ''other'')], sn_unknown = []\<rparr>, s2)"
    using listing_call by blast
  from listing_hides_passwords [OF this] show ?thesis by auto
qed

section \<open>Refusals without the device\<close>

lemma label_99: "\<exists>e. validate (kDatapointDescriptors_1 ! 44) (VU8 99) = Inl e \<and> err_code e = OutOfRange"
  using fround32_small_int [of 0] fround32_small_int [of 7]
  by (simp add: validate_def kDatapointDescriptors_1_def dp_def numeric_def out_of_range_def validation_error_def
      make_error_def)

lemma broken_chain_eq:
  "broken_chain = Inr [(''Fon_Max_Pressure'', float_value 2.0), (''Fon_Min_Pressure'', float_value 3.0)]"
  by (simp add: broken_chain_def example_write example_writables_def)

text \<open>
  What the tutorial shows as refused is refused without the device, whatever the cache holds: the label 99
  gives \<open>out_of_range\<close> and leaves the manager as it is, and the broken pressure chain is reported as such.
\<close>

lemma tutorial_checks_locally:
  assumes "sv_runner sv = Some (Inr ())"
  shows "(\<exists>e. write_datapoint sv dp_Fon_Event_Label (VU8 99) m = Inr (Inl e, m, []) \<and>
      invalid_line (Inl e :: write_result result) = Out ''  Write 99 (max 7) -> out_of_range (blocked client-side)'') \<and>
    (\<exists>broken. broken_chain = Inr broken \<and>
      violation_line (validate_constraints broken m) = Out ''  Broken chain -> Fon_Min_Pressure must be < Fon_Max_Pressure'')"
proof (intro conjI)
  obtain e where e: "validate (kDatapointDescriptors_1 ! 44) (VU8 99) = Inl e" "err_code e = OutOfRange"
    using label_99 by blast
  have "write_datapoint sv dp_Fon_Event_Label (VU8 99) m = Inr (Inl e, m, [])"
    using assms e(1)
    by (simp add: write_datapoint_def example_write example_writables_def write_blocking_def async_write_def
        ws_validate_def find_pressure)
  then show "\<exists>e. write_datapoint sv dp_Fon_Event_Label (VU8 99) m = Inr (Inl e, m, []) \<and>
      invalid_line (Inl e :: write_result result) = Out ''  Write 99 (max 7) -> out_of_range (blocked client-side)''"
    using e(2) by (simp add: invalid_line_def)
  show "\<exists>broken. broken_chain = Inr broken \<and>
      violation_line (validate_constraints broken m) = Out ''  Broken chain -> Fon_Min_Pressure must be < Fon_Max_Pressure''"
    using fround32_small_int [of 2] fround32_small_int [of 3]
    by (simp add: broken_chain_eq violation_line_def validate_constraints_def check_cross_constraints_changes_def
        check_cross_constraints_def not_below_def numeric_of_def float_value_def violation_def validation_error_def make_error_def)
qed

section \<open>What the sections leave behind\<close>

text \<open>A step of the manager that keeps it reachable and its subscriptions as they are.\<close>

definition settles :: "'h manager \<Rightarrow> 'h manager \<Rightarrow> bool" where
  "settles m m' \<longleftrightarrow> (manager_reach m \<longrightarrow> manager_reach m' \<and> mg_subs m' = mg_subs m)"

lemma settles_refl [simp]: "settles m m"
  by (simp add: settles_def)

lemma settles_trans: "settles m m' \<Longrightarrow> settles m' m'' \<Longrightarrow> settles m m''"
  by (simp add: settles_def)

lemma settles_step: "manager_step m m' \<Longrightarrow> mg_subs m' = mg_subs m \<Longrightarrow> settles m m'"
  by (auto simp: settles_def intro: manager_reach.step)

lemma settles_read: "read_response now src response m = Inr (r, m', notes) \<Longrightarrow> settles m m'"
  by (rule settles_step [OF manager_step.read_resp], assumption)
    (auto simp: read_response_def exec_simps update_cache_eq Let_def split: sum.splits)

lemma settles_write: "write_response dump fc now response m = Inr (r, m', notes) \<Longrightarrow> settles m m'"
  by (rule settles_step [OF manager_step.write_resp], assumption)
    (auto simp: write_response_def exec_simps update_cache_eq dest!: parse_write_result_state split: sum.splits option.splits)

text \<open>The contract of a blocking call, and the calls of the tutorial that keep it.\<close>

locale settling =
  fixes f :: "service_env \<Rightarrow> 'h manager \<Rightarrow> ('a result \<times> 'h manager \<times> ('h \<times> change) list) exec"
  assumes call_settles: "f sv m = Inr (r, m', notes) \<Longrightarrow> settles m m'"
begin

lemma blocking_settles:
  assumes "blocking_call ee k f m = Inr (r, m')" "settles m (ee_between ee k m)"
  shows "settles m m'"
  using assms call_settles settles_trans by (fastforce simp: blocking_call_def exec_simps)

end

lemma sync_wait_settles:
  assumes "sync_wait sv start m = Inr (r, m', notes)" "start m = Inr (r, m', notes) \<Longrightarrow> settles m m'"
  shows "settles m m'"
  using assms by (auto simp: sync_wait_def split: option.splits sum.splits)

lemma read_names_settles: "read_names sv ns m = Inr (r, m', notes) \<Longrightarrow> settles m m'"
  unfolding read_names_def by (erule sync_wait_settles) (auto intro: settles_read split: sum.splits)

lemma read_all_settles: "read_all sv m = Inr (r, m', notes) \<Longrightarrow> settles m m'"
  unfolding read_all_def by (erule sync_wait_settles) (auto intro: settles_read split: sum.splits)

lemma write_settles: "write_blocking sv ws m = Inr (r, m', notes) \<Longrightarrow> settles m m'"
  unfolding write_blocking_def
  by (erule sync_wait_settles, cases "async_write ws") (auto intro: settles_write split: sum.splits)

lemma commit_end_subs [simp]: "mg_subs (commit_end r m) = mg_subs m"
  by (simp add: commit_end_def discard_staged_def split: sum.split)

lemma commit_settles:
  assumes "commit sv m = Inr (r, m', notes)"
  shows "settles m m'"
proof -
  have "m' = m \<or> (\<exists>ws m1. write_blocking sv ws m = Inr (r, m1, notes) \<and> m' = commit_end r m1)"
    using assms by (cases "commit_begin m") (auto simp: commit_def exec_simps)
  then have "manager_reach m \<longrightarrow> mg_subs m' = mg_subs m"
    using write_settles [of sv _ m] by (auto simp: settles_def)
  then show ?thesis
    using manager_reach.step [OF _ manager_step.commit [OF assms]] by (auto simp: settles_def)
qed

lemma restore_settles: "restore sv g m = Inr (r, g', m', notes) \<Longrightarrow> settles m m'"
  by (auto simp: restore_def exec_simps Let_def intro: write_settles split: sum.splits)

lemma destroy_settles: "guard_destroy sv g m = Inr (m', notes) \<Longrightarrow> settles m m'"
  by (auto simp: guard_destroy_def exec_simps intro: restore_settles split: if_splits)

interpretation read_one: settling "\<lambda>sv. read_one sv n"
  by unfold_locales (auto simp: read_one_def exec_simps intro: read_names_settles)

interpretation read_typed: settling "\<lambda>sv. read_typed sv td"
  by unfold_locales (auto simp: read_typed_def exec_simps intro: read_names_settles)

interpretation read_several: settling "\<lambda>sv. read_several sv tds"
  by unfold_locales (auto simp: read_several_def intro: read_names_settles)

interpretation read_all: settling read_all
  by unfold_locales (rule read_all_settles)

interpretation write_blocking: settling "\<lambda>sv. write_blocking sv ws"
  by unfold_locales (rule write_settles)

interpretation write_datapoint: settling "\<lambda>sv. write_datapoint sv td v"
  by unfold_locales (auto simp: write_datapoint_def exec_simps intro: write_settles)

interpretation capture: settling "\<lambda>sv. capture sv names"
proof unfold_locales
  fix sv m r m' and calls :: "('a \<times> change) list"
  assume "capture sv names m = Inr (r, m', calls)"
  then show "settles m m'"
    by (cases "read_names sv names m") (auto simp: capture_def intro: read_names_settles split: if_splits sum.splits)
qed

interpretation commit: settling commit
  by unfold_locales (rule commit_settles)


text \<open>The same on the level of the tutorial, when what arrives between the calls does the same.\<close>

definition quiet_env :: "tutorial_env \<Rightarrow> bool" where
  "quiet_env te \<longleftrightarrow> (\<forall>k m. settles m (ee_between te k m))"

lemma set_manager_sel [simp]: "tu_manager ((set_manager m s)\<lparr>tu_calls := k\<rparr>) = m" "tu_manager (set_manager m s) = m"
  by (simp_all add: tu_manager_def set_manager_def)

lemma tu_call_settles:
  assumes "tu_call te f s = Inr (r, s')" "quiet_env te" "settling f"
  shows "settles (tu_manager s) (tu_manager s')"
  using assms settling.blocking_settles [OF assms(3)] by (fastforce simp: tu_call_def quiet_env_def exec_simps)

lemma tu_ask_settles: "tu_ask te f s = Inr (r, s') \<Longrightarrow> quiet_env te \<Longrightarrow> settles (tu_manager s) (tu_manager s')"
  by (auto simp: tu_ask_def tu_call_def blocking_call_def quiet_env_def exec_simps)

lemma tu_restore_settles: "tu_restore te g s = Inr (r, g', s') \<Longrightarrow> quiet_env te \<Longrightarrow> settles (tu_manager s) (tu_manager s')"
  by (auto simp: tu_restore_def quiet_env_def exec_simps) (blast intro: settles_trans dest: restore_settles)

lemma tu_scope_end_settles: "tu_scope_end te g s = Inr s' \<Longrightarrow> quiet_env te \<Longrightarrow> settles (tu_manager s) (tu_manager s')"
  by (auto simp: tu_scope_end_def quiet_env_def exec_simps) (blast intro: settles_trans dest: destroy_settles)

lemmas calls_settle =
  tu_call_settles [OF _ _ read_one.settling_axioms] tu_call_settles [OF _ _ read_typed.settling_axioms]
  tu_call_settles [OF _ _ read_several.settling_axioms] tu_call_settles [OF _ _ read_all.settling_axioms]
  tu_call_settles [OF _ _ write_blocking.settling_axioms] tu_call_settles [OF _ _ write_datapoint.settling_axioms]
  tu_call_settles [OF _ _ capture.settling_axioms] tu_call_settles [OF _ _ commit.settling_axioms]
  tu_ask_settles tu_restore_settles tu_scope_end_settles

text \<open>A section that settles.\<close>

definition section_settles :: "tstep \<Rightarrow> bool" where
  "section_settles f \<longleftrightarrow> (\<forall>s s' ls. f s = Inr (s', ls) \<longrightarrow> settles (tu_manager s) (tu_manager s'))"

lemma then_do_settles: "section_settles f \<Longrightarrow> section_settles g \<Longrightarrow> section_settles (then_do f g)"
  unfolding section_settles_def then_do_def
  by (auto simp: exec_simps) (meson settles_trans)

lemma reading_settles:
  assumes "quiet_env te"
  shows "section_settles (read_single_and_multi te)" "section_settles (read_dynamic te)" "section_settles (list_all_datapoints te)"
    "section_settles (command_examples te)"
  unfolding section_settles_def read_single_and_multi_def read_dynamic_def list_all_datapoints_def command_examples_def
  by (auto simp: exec_simps dest!: calls_settle [OF _ assms] intro: settles_trans)

lemma guarded_writes_settle: "quiet_env te \<Longrightarrow> section_settles (guarded_writes te g)"
  unfolding section_settles_def guarded_writes_def
  by (auto simp: exec_simps dest!: calls_settle) (meson settles_trans)

lemma bind_settles:
  assumes "bindE c k = Inr y" "\<And>r s1. c = Inr (r, s1) \<Longrightarrow> settles m (tu_manager s1)"
    and "\<And>r s1. k (r, s1) = Inr y \<Longrightarrow> settles (tu_manager s1) m'"
  shows "settles m m'"
  using assms by (cases c) (auto intro: settles_trans)

lemma write_examples_settle:
  assumes "quiet_env te"
  shows "section_settles (write_examples te)"
  unfolding section_settles_def write_examples_def
proof (intro allI impI, erule bind_settles)
  fix s s' ls r s1
  show "settles (tu_manager s1) (tu_manager s')"
    if "(case (r, s1) of (guard, s1) \<Rightarrow> case guard of
          Inl e \<Rightarrow> Inr (s1, heading ''8. Writing (with baseline restore)'' @ [Out (''  Baseline failed: '' @ error_to_string e)])
        | Inr g \<Rightarrow> bindE (guarded_writes te g s1) (\<lambda>(s2, ls). Inr (s2, heading ''8. Writing (with baseline restore)'' @ ls))) =
      Inr (s', ls)"
    using that guarded_writes_settle [OF assms] by (cases r) (auto simp: section_settles_def exec_simps)
qed (rule calls_settle(7) [OF _ assms])

lemma settles_stage: "stage n v m = (r, m') \<Longrightarrow> settles m m'"
  by (rule settles_step [OF manager_step.stage], assumption) (auto simp: stage_def split: sum.splits)

lemma stage_typed_settles: "stage_typed td v m = Inr (r, m') \<Longrightarrow> settles m m'"
  by (auto simp: stage_typed_def exec_simps intro: settles_stage)

lemma stage_chain_settles: "stage_chain m = Inr m' \<Longrightarrow> settles m m'"
  by (auto simp: stage_chain_def exec_simps dest!: stage_typed_settles) (meson settles_trans)

lemma discard_settles: "settles m (discard_staged m)"
  by (rule settles_step [OF manager_step.discard]) (simp add: discard_staged_def)

lemma commit_chain_settles:
  assumes "quiet_env te"
  shows "section_settles (commit_chain te g)"
  unfolding section_settles_def
proof (intro allI impI)
  fix s s' ls
  assume c: "commit_chain te g s = Inr (s', ls)"
  show "settles (tu_manager s) (tu_manager s')"
  proof (cases "validate_staged (tu_manager s)")
    case (Inl e)
    then show ?thesis
      using c settles_trans [OF discard_settles] by (auto simp: commit_chain_def exec_simps dest!: calls_settle [OF _ assms])
  next
    case (Inr u)
    then show ?thesis
      using c by (auto simp: commit_chain_def exec_simps Let_def dest!: calls_settle [OF _ assms]) (meson settles_trans)
  qed
qed

lemma staging_settles:
  assumes "quiet_env te"
  shows "section_settles (staging_commit_example te)"
  unfolding section_settles_def staging_commit_example_def
proof (intro allI impI, erule bind_settles)
  fix s s' ls r s1
  show "settles (tu_manager s1) (tu_manager s')"
    if "(case (r, s1) of (guard, s1) \<Rightarrow> case guard of
         Inl e \<Rightarrow> Inr (s1, heading ''9./10. Staging/commit + cross-field constraints'')
       | Inr g \<Rightarrow>
          bindE (stage_chain (tu_manager s1)) (\<lambda>m.
          bindE (commit_chain te g (set_manager m s1)) (\<lambda>(s2, ls).
            Inr (s2, heading ''9./10. Staging/commit + cross-field constraints'' @ ls)))) = Inr (s', ls)"
  proof (cases r)
    case (Inr g)
    with that obtain m ls' where m: "stage_chain (tu_manager s1) = Inr m" "commit_chain te g (set_manager m s1) = Inr (s', ls')"
      by (auto simp: exec_simps)
    have "settles (tu_manager (set_manager m s1)) (tu_manager s')"
      using commit_chain_settles [OF assms] m(2) unfolding section_settles_def by blast
    with stage_chain_settles [OF m(1)] show ?thesis by (auto intro: settles_trans)
  qed (use that in simp)
qed (rule calls_settle(7) [OF _ assms])

text \<open>The subscriptions of the polling section are gone when it ends.\<close>

lemma polling_settles:
  assumes "quiet_env te"
  shows "section_settles (subscription_and_polling_example te)"
  unfolding section_settles_def
proof (intro allI impI)
  fix s s' ls
  assume "subscription_and_polling_example te s = Inr (s', ls)"
  define m where "m = tu_manager s"
  define m1 where "m1 = snd (subscribe_raw (td_name dp_Fon_Current_Pressure, Pressure_cb) m)"
  define m2 where "m2 = snd (subscribe_raw (td_name dp_System_Uptime, Uptime_cb) m1)"
  define m3 where "m3 = ee_between te (tu_calls s) m2"
  let ?t1 = "fst (subscribe_raw (td_name dp_Fon_Current_Pressure, Pressure_cb) m)"
  let ?t2 = "fst (subscribe_raw (td_name dp_System_Uptime, Uptime_cb) m1)"
  have s': "tu_manager s' = unsubscribe ?t1 (unsubscribe ?t2 m3)"
    using \<open>subscription_and_polling_example te s = Inr (s', ls)\<close>
    by (auto simp: subscription_and_polling_example_def subscribe_typed_def case_prod_beta Let_def tu_manager_def
        m_def m1_def m2_def m3_def)
  show "settles (tu_manager s) (tu_manager s')"
    unfolding settles_def m_def [symmetric]
  proof (intro impI conjI)
    assume m: "manager_reach m"
    then have m1: "manager_reach m1" unfolding m1_def by (rule manager_reach.step [OF _ manager_step.subscribe])
    then have "manager_reach m2" unfolding m2_def by (rule manager_reach.step [OF _ manager_step.subscribe])
    then have m3: "manager_reach m3" "mg_subs m3 = mg_subs m2"
      using assms by (simp_all add: quiet_env_def settles_def m3_def)
    show "manager_reach (tu_manager s')"
      unfolding s' by (intro manager_reach.step [OF _ manager_step.unsubscribe] m3)
    have "\<forall>x \<in> set (mg_subs m). sb_token x \<le> mg_next_token m"
      using manager_reach_ok [OF m] by (auto simp: manager_ok_def subs_ok_def sub_entries_def)
    then show "mg_subs (tu_manager s') = mg_subs m"
      by (auto simp: s' unsubscribe_def m3(2) m2_def m1_def subscribe_raw_def Let_def intro!: filter_True)
  qed
qed


text \<open>A run without a bound client: every call fails, every section still ends.\<close>

definition offline_env :: tutorial_env where
  "offline_env = (listing_env [])\<lparr>ee_services := (\<lambda>k. (demo_service (Inr []))\<lparr>sv_runner := None\<rparr>)\<rparr>"

lemma offline_env_sel [simp]:
  "ee_services offline_env k = (demo_service (Inr []))\<lparr>sv_runner := None\<rparr>" "ee_between offline_env k m = m"
  by (simp_all add: offline_env_def listing_env_def)

lemma unbound_call [simp]:
  "sync_wait ((demo_service a)\<lparr>sv_runner := None\<rparr>) f m = Inr (Inl (internal_error ''service is not bound to a client''), m, [])"
  by (simp add: sync_wait_def)

lemma offline_capture:
  "\<exists>e. capture ((demo_service a)\<lparr>sv_runner := None\<rparr>) ns m = Inr (Inl e, m, [])"
  by (cases "check_restorable ns") (auto simp: capture_def read_names_def)

lemma offline_sections:
  "\<exists>s1 l1. read_single_and_multi offline_env s = Inr (s1, l1)" "\<exists>s1 l1. read_dynamic offline_env s = Inr (s1, l1)"
  "\<exists>s1 l1. list_all_datapoints offline_env s = Inr (s1, l1)" "\<exists>s1 l1. command_examples offline_env s = Inr (s1, l1)"
  "\<exists>s1 l1. subscription_and_polling_example offline_env s = Inr (s1, l1)"
  "\<exists>s1 l1. show_connection_info s = Inr (s1, l1)" "\<exists>s1 l1. cache_example s = Inr (s1, l1)"
  by (simp_all add: read_single_and_multi_def read_dynamic_def list_all_datapoints_def command_examples_def
      subscription_and_polling_example_def show_connection_info_def cache_example_def tu_ask_def tu_call_def
      blocking_call_def read_typed_def read_several_def read_one_def read_names_def read_all_def set_state_def
      run_command_def blocking_def ambient_lines_def case_prod_beta Let_def)

lemma offline_writes:
  "\<exists>s1 l1. write_examples offline_env s = Inr (s1, l1)" "\<exists>s1 l1. staging_commit_example offline_env s = Inr (s1, l1)"
proof -
  have c: "\<exists>e s1. tu_call offline_env (\<lambda>sv. capture sv ns) s = Inr (Inl e, s1)" for ns
    using offline_capture [of "Inr []" ns "tu_manager s"] by (auto simp: tu_call_def blocking_call_def)
  show "\<exists>s1 l1. write_examples offline_env s = Inr (s1, l1)"
    using c [of "[''Fon_Event_Label'', ''Fon_Report_Interval'', ''Fon_Min_On_Time'']"] by (auto simp: write_examples_def)
  show "\<exists>s1 l1. staging_commit_example offline_env s = Inr (s1, l1)"
    using c [of "[''Fon_Alert_Low_Pressure'', ''Fon_Min_Pressure'', ''Fon_Max_Pressure'', ''Fon_Alert_High_Pressure'']"]
    by (auto simp: staging_commit_example_def)
qed

lemma then_do_total:
  assumes "\<And>s. \<exists>s1 l1. f s = Inr (s1, l1)" "\<And>s. \<exists>s1 l1. g s = Inr (s1, l1)"
  shows "\<exists>s1 l1. then_do f g s = Inr (s1, l1)"
proof -
  obtain s1 l1 where "f s = Inr (s1, l1)" using assms(1) by blast
  moreover obtain s2 l2 where "g s1 = Inr (s2, l2)" using assms(2) by blast
  ultimately show ?thesis by (simp add: then_do_def)
qed


end
