(* ===== verification/Result.thy ===== *)
theory Result
  imports Errors
begin

text \<open>
  \<open>Result<T>\<close> in detail (\<open>include/fountainer/result.hpp\<close>). The other theories read a result as a sum and the
  payload-free \<open>Status\<close> as one over \<open>unit\<close>. Here \<open>Status\<close> is the pair of error and flag the class holds, with
  the accessors and the converting constructors of both classes; the laws show that the sum is what callers see.
\<close>

section \<open>The class with a payload\<close>

text \<open>\<open>store_\<close> is a variant of value and error: the sum itself. A wrong access throws.\<close>

definition has_value :: "'a result \<Rightarrow> bool" where
  "has_value r = (case r of Inl e \<Rightarrow> False | Inr x \<Rightarrow> True)"

definition value_of :: "'a result \<Rightarrow> 'a exec" where
  "value_of r = (case r of Inl e \<Rightarrow> Inl (Runtime_error ''bad_variant_access'') | Inr x \<Rightarrow> Inr x)"

definition error_of :: "'a result \<Rightarrow> error exec" where
  "error_of r = (case r of Inl e \<Rightarrow> Inr e | Inr x \<Rightarrow> Inl (Runtime_error ''bad_variant_access''))"

definition value_or :: "'a result \<Rightarrow> 'a \<Rightarrow> 'a" where
  "value_or r fallback = (case r of Inl e \<Rightarrow> fallback | Inr x \<Rightarrow> x)"

text \<open>The constructor from a result over another type: only an error moves.\<close>

definition convert :: "'u result \<Rightarrow> 't result exec" where
  "convert other = bindE (error_of other) (\<lambda>e. Inr (Inl e))"

section \<open>The class without a payload\<close>

record status =
  st_error :: error
  st_ok :: bool

definition default_error :: error where
  "default_error = make_error Dom_Internal Internal []"

definition status_ok :: status where
  "status_ok = \<lparr>st_error = default_error, st_ok = True\<rparr>"

definition status_fail :: "error \<Rightarrow> status" where
  "status_fail e = \<lparr>st_error = e, st_ok = False\<rparr>"

definition status_has_value :: "status \<Rightarrow> bool" where
  "status_has_value s = st_ok s"

definition status_error :: "status \<Rightarrow> error" where
  "status_error s = st_error s"

definition status_of_result :: "'u result \<Rightarrow> status exec" where
  "status_of_result other = bindE (error_of other) (\<lambda>e. Inr (status_fail e))"

text \<open>
  The conversion of a \<open>Status\<close> into a result reads its error without looking at the flag; that it is a failure
  is only asserted, and with \<open>ndebug\<close> the assertion is compiled out.
\<close>

definition result_of_status :: "bool \<Rightarrow> status \<Rightarrow> 't result exec" where
  "result_of_status ndebug s =
    (if \<not> ndebug \<and> st_ok s then Inl (Runtime_error ''assertion failed: only errors are convertible'')
     else Inr (Inl (st_error s)))"

section \<open>What callers see\<close>

definition status_abs :: "status \<Rightarrow> unit result" where
  "status_abs s = (if st_ok s then Inr () else Inl (st_error s))"

lemma status_refines:
  "status_abs status_ok = Inr ()" "status_abs (status_fail e) = Inl e"
  "status_has_value s = has_value (status_abs s)"
  "\<not> st_ok s \<Longrightarrow> error_of (status_abs s) = Inr (status_error s)"
  by (simp_all add: status_abs_def status_ok_def status_fail_def status_has_value_def has_value_def error_of_def
      status_error_def)

text \<open>A chain of conversions moves an error through any types unchanged, and a value through none.\<close>

lemma errors_move:
  "convert (Inl e :: 'u result) = Inr (Inl e :: 't result)"
  "bindE (status_of_result (Inl e :: 'u result)) (result_of_status ndebug) = Inr (Inl e :: 't result)"
  "convert (Inr x) = Inl (Runtime_error ''bad_variant_access'')"
  "status_of_result (Inr x) = Inl (Runtime_error ''bad_variant_access'')"
  by (simp_all add: convert_def status_of_result_def result_of_status_def error_of_def status_fail_def)

lemma accessors:
  "has_value r \<longleftrightarrow> (\<exists>x. value_of r = Inr x)" "has_value r \<longleftrightarrow> \<not> (\<exists>e. error_of r = Inr e)"
  "value_of r = Inr x \<Longrightarrow> value_or r y = x" "error_of r = Inr e \<Longrightarrow> value_or r y = y"
  by (cases r; simp add: has_value_def value_of_def error_of_def value_or_def)+

text \<open>
  A success converts into nothing in a debug build; with the assertions compiled out a successful \<open>Status\<close>
  silently becomes a failed result.
\<close>

lemma status_success_lost:
  "result_of_status True status_ok = Inr (Inl default_error)" "result_of_status False status_ok \<noteq> Inr r"
  by (simp_all add: result_of_status_def status_ok_def)

end
