(* ===== verification/Spec2Isabelle.thy ===== *)
theory Spec2Isabelle
  imports Poller_Safety Services_Safety Client_Ready Client_Shutdown Cli_Safety Tutorial_Safety Result
begin

text \<open>
  Verification of the Fountainer client framework: a C++ library that connects to a Fountain device
  over a WebSocket, authenticates it and itself with HMAC, and offers typed datapoints, polling,
  commands and logs. File names below are relative to the repository's \<open>include/fountainer\<close> and \<open>src\<close>
  directories.

  The parts and how they work together. A \<open>Client\<close> (\<open>client.cpp\<close>) validates its
  \<open>SecurityConfiguration\<close>, opens a \<open>WssTransport\<close>, and gives each text frame to a
  \<open>ControllerSession\<close>. The session runs the handshake (hello, key choice, proof of the device), then
  passes requests and responses to its \<open>RequestDispatcher\<close>, which queues and limits them and
  answers every handler once. Messages are built by \<open>envelope.cpp\<close>, checked and signed by \<open>auth.cpp\<close> over the
  canonical text of \<open>canonical.cpp\<close>. On top, the \<open>DatapointManager\<close> reads and writes datapoints described
  by the generated catalog, the \<open>DatapointPoller\<close> reads them periodically, and command, log and
  maintenance services send their own requests. Events go through an \<open>EventBus\<close>.

  \<^item> \<open>Prelude\<close>: the exception monad \<open>exec\<close> (thrown exceptions and undefined behaviour are \<open>Inl\<close>), ordered
    maps for \<open>std::map\<close>, decimal text. \<open>Ieee\<close>: binary floating point with rounding. \<open>Json\<close>: the values of
    the JSON library and its typed accesses with their exceptions.
  \<^item> \<open>Errors\<close> (\<open>error.hpp\<close>, \<open>error.cpp\<close>, \<open>result.hpp\<close>): a \<open>Result<T>\<close> is \<open>error + T\<close>. \<open>Result\<close>
    models the classes themselves, with their accessors and conversions, and shows that callers see the sum.
  \<^item> \<open>Messages\<close>, \<open>Canonical\<close>, \<open>Auth\<close> (\<open>protocol/fountain_messages.hpp\<close>, \<open>envelope.cpp\<close>, \<open>canonical.cpp\<close>,
    \<open>auth.cpp\<close>): message table, canonical text (equal texts come from equal values), signing and
    verification (round trip; a signature binds envelope and body), replay counter, key file. SHA-256,
    HMAC, base64, \<open>strtod\<close> and the number formatter are parameters with their documented laws.
  \<^item> \<open>Dispatcher\<close> (\<open>protocol/dispatcher.cpp\<close>): the queue as a list, the token bucket in IEEE doubles,
    deadlines, coalescing, correlation. The locale \<open>request_channel\<close> states what it needs from the session's
    encoder; \<open>Session\<close> interprets it. Ticks settle deadlines, send by priority and respect the burst.
  \<^item> \<open>Events\<close> (\<open>events.cpp\<close>, \<open>connection.hpp\<close>): slot lists and bus; the locale \<open>slot_registry\<close> is
    interpreted for the bus here and for the manager's subscriptions in \<open>Manager_Safety\<close>.
  \<^item> \<open>Session\<close>, \<open>Session_Safety\<close> (\<open>protocol/session.cpp\<close>, \<open>protocol/ota_policy.hpp\<close>): every operation, a step
    relation over them, and its invariant by rule induction: handlers are answered exactly once, nothing
    runs without a verified proof, request frames are sound, in-flight requests are bounded.
  \<^item> \<open>Catalog\<close>, \<open>Codec\<close>, \<open>Datapoints\<close> (\<open>datapoints/generated.hpp\<close>, \<open>catalog.cpp\<close>, \<open>codec.cpp\<close>,
    \<open>constraints.cpp\<close>, \<open>write_set.cpp\<close>, \<open>snapshot.hpp\<close>): the table of 107 datapoints is consistent, values
    survive encoding, integers are read exactly or refused, validation and cross-field rules are exact.
  \<^item> \<open>Blocking\<close>, \<open>Manager\<close>, \<open>Manager_Safety\<close> (\<open>detail/sync_wait.hpp\<close>, \<open>datapoints/manager.cpp\<close>,
    \<open>restore_guard.cpp\<close>): cache, staging, subscriptions, restore guard. Reachable managers are typed, the
    cache update refines a point-wise specification, a write set survives the way to the device, a
    commit sends exactly what is staged. \<open>Guard\<close>: what a restore guard captured is what it writes back.
  \<^item> \<open>Poller\<close>, \<open>Poller_Safety\<close> (\<open>datapoints/poller.cpp\<close>): a tick requests what is due, once, in as few
    requests as possible; deadlines stay on the grid; a zero interval divides by zero.
  \<^item> \<open>Services\<close>, \<open>Services_Safety\<close> (\<open>commands.cpp\<close>, \<open>logs.cpp\<close>, \<open>maintenance.cpp\<close>): the paged log
    retrieval is complete and returns if the device makes progress. The loop counts pages with fuel, and
    \<open>2^32\<close> is enough, because each page moves a 32-bit sequence number forward.
  \<^item> \<open>Security\<close>, \<open>Config\<close> (\<open>security.cpp\<close>, \<open>config.cpp\<close>): credentials and their lock; the two key readers
    agree; a configuration file is valid when loaded or a \<open>std::runtime_error\<close> is thrown.
  \<^item> \<open>Transport\<close>, \<open>Transport_Safety\<close> (\<open>transport/wss_transport.cpp\<close>): every call into Asio, Beast or
    OpenSSL is an output and its completion an operation of its own. Over all interleavings the open
    completion is called exactly once and the queue is bounded; a run reaches undefined behaviour.
  \<^item> \<open>Client\<close>, \<open>Client_Safety\<close> (\<open>client.cpp\<close>, \<open>client.hpp\<close>, \<open>client_options.hpp\<close>): the composition of all of
    the above on the IO thread, whose queue of posted work and expired timers is part of the state. The
    locale \<open>text_transport\<close> is what the client relies on while it is inside a callback. In every run each
    \<open>connect()\<close> and \<open>disconnect()\<close> is answered exactly once, and the reconnect delays follow the policy.
  \<^item> \<open>Client_Ready\<close>: client and session together. A client becomes ready only through a frame with a verified
    proof; a request made while it waits to reconnect is lost; a frame with a member of the wrong kind
    throws before the peer has authenticated. \<open>Client_Shutdown\<close>: \<open>disconnect()\<close> and the destructor are
    answered, at once or when the closing handshake ends, and no step on the way throws.
  \<^item> \<open>Typed\<close> (templates of \<open>datapoints/manager.hpp\<close>, \<open>poller.hpp\<close>, \<open>write_set.hpp\<close>): the typed layer over the
    generated constants agrees with the one over names, and its unchecked dereferences never fail.
  \<^item> \<open>Logger\<close> (\<open>logging/logger.cpp\<close>): level filter and sink. \<open>Numbers\<close>: \<open>std::stol\<close> and \<open>std::stod\<close>.
    \<open>Printing\<close>: \<open>%g\<close> and padded fields.
  \<^item> \<open>Cli\<close>, \<open>Cli_Safety\<close> (\<open>apps/fountainer-cli/main.cpp\<close>): the tool from its arguments to its exit code. A loaded
    configuration configures a client completely, assignments write what they say, answers are always
    printed, and the exit code tells the outcome. Fuel bounds the passes of a script that loops and the
    pages of a log, as in \<open>Services\<close>.
  \<^item> \<open>Examples\<close>, \<open>Examples_Safety\<close> (\<open>simple_client.cpp\<close>, \<open>polling_client.cpp\<close>, \<open>config_editor.cpp\<close> in the
    directory \<open>examples\<close>) and \<open>Tutorial\<close>, \<open>Tutorial_Safety\<close> (\<open>Example.cpp\<close>): the example programs over the typed layer,
    from what their blocking calls meet to the lines they print. The editor sends exactly its edits and only
    within the limits the device reported. The listing of the tutorial is independent of passwords, and its
    sections keep the manager's invariant and its subscriptions; the locale \<open>settling\<close> is the contract of a
    blocking call for this, interpreted for each call of the manager that the tutorial makes.

  Conventions. Handlers are names and calling one is an output, so user code that runs inside a handler
  acts through later steps. Mutexes are not modelled: each operation is atomic, except where the code
  releases the lock in between (\<open>commit\<close> is two halves). Time points are unbounded integers of
  nanoseconds; counters, sequence numbers and datapoint values have the widths of the source. The log
  lines the library writes are left out of its models.

  Not modelled: threads and futures (a blocking call is a function of the answer it waits for), destructors other
  than those of the client, the subscriptions and the restore guard, and the zeroing of key memory.
\<close>

end
